(* ===== verification/Prelude.thy ===== *)
theory Prelude
  imports Main
begin

text \<open>
  Shared vocabulary of the shooter development: the collections of definitions the
  component proofs unfold, and the generic list operations that model what the
  pygame sprite groups do to their members (find the first sprite that satisfies a
  test, remove one sprite by position).
\<close>

named_theorems shooter_defs \<open>non-recursive operations of the shooter model, unfolded by the component proofs\<close>
named_theorems shooter_consts \<open>the numeric constants of src/main.py\<close>

section \<open>First index satisfying a test\<close>

text \<open>
  \<open>first_index P xs\<close> is the position of the first element of \<open>xs\<close> that satisfies
  \<open>P\<close>: how \<open>pygame.sprite.spritecollideany\<close> walks a group in iteration order and
  stops at the first hit.
\<close>

fun first_index :: "('a \<Rightarrow> bool) \<Rightarrow> 'a list \<Rightarrow> nat option" where
  "first_index P [] = None"
| "first_index P (x # xs) = (if P x then Some 0 else map_option Suc (first_index P xs))"

definition remove_at :: "nat \<Rightarrow> 'a list \<Rightarrow> 'a list" where
  "remove_at i xs = take i xs @ drop (Suc i) xs"

lemma first_index_Some:
  "first_index P xs = Some i \<Longrightarrow> i < length xs \<and> P (xs ! i)"
  by (induction xs arbitrary: i) (auto split: if_splits)

lemma first_index_None [simp]:
  "first_index P xs = None \<longleftrightarrow> (\<forall>x \<in> set xs. \<not> P x)"
  by (induction xs) auto

lemma first_index_least:
  "first_index P xs = Some i \<Longrightarrow> j < i \<Longrightarrow> \<not> P (xs ! j)"
proof (induction xs arbitrary: i j)
  case Nil
  then show ?case by simp
next
  case (Cons x xs)
  then show ?case by (cases j) (auto split: if_splits)
qed

lemma first_index_find:
  "find P xs = map_option ((!) xs) (first_index P xs)"
  by (induction xs) (auto simp: option.map_comp comp_def)

section \<open>Removing one element by position\<close>

text \<open>
  \<open>Sprite.kill()\<close> removes that one sprite object from its groups. The model finds
  the sprite by position, so the kill is the removal of that position.
\<close>

lemma length_remove_at [simp]:
  "i < length xs \<Longrightarrow> length (remove_at i xs) = length xs - 1"
  by (simp add: remove_at_def)

lemma set_remove_at_subset:
  "set (remove_at i xs) \<subseteq> set xs"
  by (auto simp: remove_at_def dest: in_set_takeD in_set_dropD)

lemma remove_at_Cons_0 [simp]: "remove_at 0 (x # xs) = xs"
  by (simp add: remove_at_def)

lemma remove_at_Cons_Suc [simp]: "remove_at (Suc i) (x # xs) = x # remove_at i xs"
  by (simp add: remove_at_def)

text \<open>
  Removing the first element that satisfies a test by position is removing the first
  occurrence of its value: no earlier element equals it, since none satisfies the test.
\<close>

lemma remove1_first_index:
  "first_index P xs = Some i \<Longrightarrow> remove1 (xs ! i) xs = remove_at i xs"
proof (induction xs arbitrary: i)
  case Nil
  then show ?case by simp
next
  case (Cons x xs)
  show ?case
  proof (cases "P x")
    case False
    with Cons.prems obtain j where j: "first_index P xs = Some j" "i = Suc j" by auto
    with first_index_Some [OF j(1)] False have "x \<noteq> xs ! j" by auto
    with Cons.IH [OF j(1)] j(2) show ?thesis by simp
  qed (use Cons.prems in simp)
qed

section \<open>Partial maps over lists\<close>

lemma in_set_map_filter:
  "y \<in> set (List.map_filter f xs) \<longleftrightarrow> (\<exists>x \<in> set xs. f x = Some y)"
  by (induction xs) (auto simp: List.map_filter_simps split: option.splits)

end
