(* ===== verification/Rect.thy ===== *)
theory Rect
  imports Prelude
begin

text \<open>
  The geometry the game is written against: the screen size of src/main.py and the
  part of \<open>pygame.Rect\<close> and \<open>pygame.sprite\<close> the game uses. pygame is a library the
  source only calls; \<open>colliderect\<close>, \<open>collidepoint\<close> and \<open>spritecollideany\<close> are
  modelled from its documented behaviour (strict overlap of half-open boxes, first
  hit in group order).
\<close>

definition SCREEN_WIDTH :: int where "SCREEN_WIDTH = 800"
definition SCREEN_HEIGHT :: int where "SCREEN_HEIGHT = 600"

declare SCREEN_WIDTH_def [shooter_consts] SCREEN_HEIGHT_def [shooter_consts]

record rect =
  rect_x :: int
  rect_y :: int
  rect_w :: int
  rect_h :: int

definition rect_left :: "rect \<Rightarrow> int" where "rect_left r = rect_x r"
definition rect_right :: "rect \<Rightarrow> int" where "rect_right r = rect_x r + rect_w r"
definition rect_top :: "rect \<Rightarrow> int" where "rect_top r = rect_y r"
definition rect_bottom :: "rect \<Rightarrow> int" where "rect_bottom r = rect_y r + rect_h r"
definition rect_centerx :: "rect \<Rightarrow> int" where "rect_centerx r = rect_x r + rect_w r div 2"

declare rect_left_def [shooter_defs] rect_right_def [shooter_defs] rect_top_def [shooter_defs]
  rect_bottom_def [shooter_defs] rect_centerx_def [shooter_defs]

text \<open>\<open>Rect.colliderect\<close>: the two boxes share a point.\<close>

definition colliderect :: "rect \<Rightarrow> rect \<Rightarrow> bool" where
  "colliderect a b \<longleftrightarrow>
     rect_x a < rect_x b + rect_w b \<and> rect_x b < rect_x a + rect_w a \<and>
     rect_y a < rect_y b + rect_h b \<and> rect_y b < rect_y a + rect_h a"

text \<open>\<open>Rect.collidepoint\<close>: the point lies in the half-open box.\<close>

definition collidepoint :: "rect \<Rightarrow> int \<times> int \<Rightarrow> bool" where
  "collidepoint r p \<longleftrightarrow>
     rect_x r \<le> fst p \<and> fst p < rect_x r + rect_w r \<and>
     rect_y r \<le> snd p \<and> snd p < rect_y r + rect_h r"

text \<open>
  Every sprite of the game (player, bullet, enemy, obstacle) is a
  \<open>pygame.sprite.Sprite\<close> with a \<open>rect\<close>; the game's classes extend it, as the
  records below extend \<open>sprite\<close>.
\<close>

record sprite =
  srect :: rect

text \<open>
  \<open>spritecollideany(s, group)\<close> returns the first sprite of the group, in iteration
  order, whose rect collides with that of \<open>s\<close>; \<open>collide_index\<close> is its position,
  which a following \<open>kill()\<close> removes.
\<close>

definition collide_index :: "'a sprite_scheme \<Rightarrow> 'b sprite_scheme list \<Rightarrow> nat option" where
  "collide_index s grp = first_index (\<lambda>t. colliderect (srect s) (srect t)) grp"

definition spritecollideany :: "'a sprite_scheme \<Rightarrow> 'b sprite_scheme list \<Rightarrow> 'b sprite_scheme option" where
  "spritecollideany s grp = find (\<lambda>t. colliderect (srect s) (srect t)) grp"

lemma spritecollideany_collide_index:
  "spritecollideany s grp = map_option ((!) grp) (collide_index s grp)"
  by (simp add: spritecollideany_def collide_index_def first_index_find)

lemma spritecollideany_None_iff:
  "spritecollideany s grp = None \<longleftrightarrow> (\<forall>t \<in> set grp. \<not> colliderect (srect s) (srect t))"
  by (simp add: spritecollideany_collide_index collide_index_def)

lemma colliderect_sym: "colliderect a b = colliderect b a"
  by (auto simp: colliderect_def)

end
