(* ===== verification/Rand_Source.thy ===== *)
theory Rand_Source
  imports Prelude
begin

text \<open>
  The source draws every random number with \<open>random.randint(a, b)\<close> from the module's
  global generator. The model makes the generator explicit: an oracle \<open>rand_src\<close>
  that gives the raw draw at each position and a cursor \<open>rand_pos\<close>. A draw reduces
  the raw value into \<open>[a, b]\<close> and advances the cursor, so the order in which the
  code draws is the order in which the cursor advances, and any sequence of outcomes
  in range is produced by some oracle (\<open>randint_reaches\<close>).
\<close>

record rng =
  rand_src :: "nat \<Rightarrow> int"
  rand_pos :: nat

definition randint :: "int \<Rightarrow> int \<Rightarrow> rng \<Rightarrow> int \<times> rng" where
  "randint a b g = (a + rand_src g (rand_pos g) mod (b - a + 1), g\<lparr>rand_pos := Suc (rand_pos g)\<rparr>)"

lemma randint_bounds:
  assumes "a \<le> b"
  shows "a \<le> fst (randint a b g) \<and> fst (randint a b g) \<le> b"
proof -
  have "0 < b - a + 1" using assms by simp
  then have "0 \<le> rand_src g (rand_pos g) mod (b - a + 1)"
    and "rand_src g (rand_pos g) mod (b - a + 1) < b - a + 1"
    by (rule pos_mod_sign, rule pos_mod_bound)
  then show ?thesis by (simp add: randint_def)
qed

lemma randint_reaches:
  assumes "a \<le> v" "v \<le> b" "rand_src g (rand_pos g) = v - a"
  shows "fst (randint a b g) = v"
  using assms by (simp add: randint_def)

lemma randint_rng [simp]:
  "rand_src (snd (randint a b g)) = rand_src g"
  "rand_pos (snd (randint a b g)) = Suc (rand_pos g)"
  by (simp_all add: randint_def)

end
