(* ===== verification/Sprites.thy ===== *)
theory Sprites
  imports Rect Rand_Source
begin

text \<open>
  The entity classes of src/main.py: \<open>Bullet\<close> (lines 186--199), \<open>Enemy\<close>
  (202--221) and \<open>Obstacle\<close> (224--231). Each is a sprite whose rect has the size of
  its image surface; the images themselves are drawing only. \<open>Bullet.update\<close>
  answers \<open>None\<close> for a bullet that kills itself; \<open>Enemy.update\<close> threads the
  random source through the recycling draws.
\<close>

section \<open>Bullet\<close>

record bullet = sprite +
  b_speed :: int

text \<open>\<open>Bullet(x, y)\<close>: a 10x20 rect with \<open>centerx = x\<close> and \<open>top = y\<close>, speed 7.\<close>

definition Bullet :: "int \<Rightarrow> int \<Rightarrow> bullet" where
  "Bullet cx ty = \<lparr>srect = \<lparr>rect_x = cx - 10 div 2, rect_y = ty, rect_w = 10, rect_h = 20\<rparr>,
                    b_speed = 7\<rparr>"

text \<open>\<open>Bullet.update\<close>: move up by the speed; \<open>kill()\<close> once the bottom edge is above the screen.\<close>

definition bullet_update :: "bullet \<Rightarrow> bullet option" where
  "bullet_update b =
     (let b' = b\<lparr>srect := (srect b)\<lparr>rect_y := rect_y (srect b) - b_speed b\<rparr>\<rparr>
      in if rect_bottom (srect b') < 0 then None else Some b')"

section \<open>Enemy\<close>

record enemy = sprite +
  e_speed :: int

text \<open>\<open>Enemy(x, y)\<close>: a 50x50 rect at \<open>(x, y)\<close>; the constructor draws the speed.\<close>

definition Enemy :: "int \<Rightarrow> int \<Rightarrow> rng \<Rightarrow> enemy \<times> rng" where
  "Enemy x y g =
     (let (s, g1) = randint 1 3 g
      in (\<lparr>srect = \<lparr>rect_x = x, rect_y = y, rect_w = 50, rect_h = 50\<rparr>, e_speed = s\<rparr>, g1))"

text \<open>
  \<open>Enemy.update\<close>: move down by the speed; once the top edge is below the screen,
  draw a new \<open>x\<close> in \<open>[0, SCREEN_WIDTH - width]\<close> and then a new \<open>y\<close> in
  \<open>[-100, -40]\<close> (recycling: the same enemy, with the same speed).
\<close>

definition enemy_update :: "enemy \<Rightarrow> rng \<Rightarrow> enemy \<times> rng" where
  "enemy_update e g =
     (let r1 = (srect e)\<lparr>rect_y := rect_y (srect e) + e_speed e\<rparr>
      in if SCREEN_HEIGHT < rect_top r1 then
           (let (nx, g1) = randint 0 (SCREEN_WIDTH - rect_w r1) g;
                (ny, g2) = randint (-100) (-40) g1
            in (e\<lparr>srect := r1\<lparr>rect_x := nx, rect_y := ny\<rparr>\<rparr>, g2))
         else (e\<lparr>srect := r1\<rparr>, g))"

section \<open>Obstacle\<close>

text \<open>An obstacle is a sprite and nothing more: a 100x30 rect that never moves.\<close>

type_synonym obstacle = sprite

definition Obstacle :: "int \<Rightarrow> int \<Rightarrow> obstacle" where
  "Obstacle x y = \<lparr>srect = \<lparr>rect_x = x, rect_y = y, rect_w = 100, rect_h = 30\<rparr>\<rparr>"

declare Bullet_def [shooter_defs] Obstacle_def [shooter_defs]

section \<open>Well-formed enemies\<close>

text \<open>What every enemy the game creates satisfies: the 50x50 size and a speed in \<open>[1, 3]\<close>.\<close>

definition enemy_ok :: "enemy \<Rightarrow> bool" where
  "enemy_ok e \<longleftrightarrow> rect_w (srect e) = 50 \<and> rect_h (srect e) = 50 \<and> 1 \<le> e_speed e \<and> e_speed e \<le> 3"

text \<open>The sizes and speed of the two other entity classes, as their constructors set them.\<close>

definition bullet_ok :: "bullet \<Rightarrow> bool" where
  "bullet_ok b \<longleftrightarrow> rect_w (srect b) = 10 \<and> rect_h (srect b) = 20 \<and> b_speed b = 7"

definition obstacle_ok :: "obstacle \<Rightarrow> bool" where
  "obstacle_ok ob \<longleftrightarrow> rect_w (srect ob) = 100 \<and> rect_h (srect ob) = 30"

lemma Enemy_ok: "enemy_ok (fst (Enemy x y g))"
  using randint_bounds [of 1 3 g]
  by (simp add: Enemy_def enemy_ok_def split_beta)

lemma Enemy_fields:
  "srect (fst (Enemy x y g)) = \<lparr>rect_x = x, rect_y = y, rect_w = 50, rect_h = 50\<rparr>"
  by (simp add: Enemy_def split_beta)

lemma Enemy_rng [simp]:
  "rand_src (snd (Enemy x y g)) = rand_src g"
  "rand_pos (snd (Enemy x y g)) = Suc (rand_pos g)"
  by (simp_all add: Enemy_def split_beta)

text \<open>One step of an enemy, both branches, read off the definition.\<close>

lemma enemy_update_move:
  "\<not> SCREEN_HEIGHT < rect_y (srect e) + e_speed e \<Longrightarrow>
   enemy_update e g = (e\<lparr>srect := (srect e)\<lparr>rect_y := rect_y (srect e) + e_speed e\<rparr>\<rparr>, g)"
  by (simp add: enemy_update_def rect_top_def Let_def)

lemma enemy_update_recycle:
  "SCREEN_HEIGHT < rect_y (srect e) + e_speed e \<Longrightarrow>
   enemy_update e g =
     (e\<lparr>srect := (srect e)\<lparr>rect_x := fst (randint 0 (SCREEN_WIDTH - rect_w (srect e)) g),
                            rect_y := fst (randint (-100) (-40) (snd (randint 0 (SCREEN_WIDTH - rect_w (srect e)) g)))\<rparr>\<rparr>,
      snd (randint (-100) (-40) (snd (randint 0 (SCREEN_WIDTH - rect_w (srect e)) g))))"
  by (simp add: enemy_update_def rect_top_def split_beta Let_def)

lemma enemy_update_ok:
  "enemy_ok e \<Longrightarrow> enemy_ok (fst (enemy_update e g))"
  by (simp add: enemy_update_def enemy_ok_def Let_def split_beta)

lemma enemy_update_rng_src [simp]:
  "rand_src (snd (enemy_update e g)) = rand_src g"
  by (simp add: enemy_update_def Let_def split_beta)

lemma Bullet_ok: "bullet_ok (Bullet cx ty)"
  by (simp add: Bullet_def bullet_ok_def)

lemma Obstacle_ok: "obstacle_ok (Obstacle x y)"
  by (simp add: Obstacle_def obstacle_ok_def)

text \<open>A surviving bullet has moved up by its speed and its bottom edge is still on or below \<open>y = 0\<close>.\<close>

lemma bullet_update_Some:
  "bullet_update b = Some b' \<Longrightarrow>
   srect b' = (srect b)\<lparr>rect_y := rect_y (srect b) - b_speed b\<rparr> \<and> b_speed b' = b_speed b \<and>
   0 \<le> rect_y (srect b') + rect_h (srect b')"
  by (auto simp: bullet_update_def rect_bottom_def Let_def split: if_splits)

lemma bullet_update_ok: "bullet_update b = Some b' \<Longrightarrow> bullet_ok b \<Longrightarrow> bullet_ok b'"
  by (drule bullet_update_Some) (simp add: bullet_ok_def)

text \<open>
  C9: An enemy whose top edge passes below the screen is recycled, not removed: it keeps
  its speed and size and reappears with \<open>x\<close> in \<open>[0, SCREEN_WIDTH - 50]\<close> and
  \<open>y\<close> in \<open>[-100, -40]\<close>, above the visible area.
\<close>

theorem enemy_recycle_in_range:
  assumes "enemy_ok e" and "SCREEN_HEIGHT < rect_y (srect e) + e_speed e"
  shows "0 \<le> rect_x (srect (fst (enemy_update e g))) \<and>
         rect_x (srect (fst (enemy_update e g))) \<le> SCREEN_WIDTH - 50 \<and>
         -100 \<le> rect_y (srect (fst (enemy_update e g))) \<and>
         rect_y (srect (fst (enemy_update e g))) \<le> -40 \<and>
         e_speed (fst (enemy_update e g)) = e_speed e \<and> enemy_ok (fst (enemy_update e g))"
proof -
  let ?w = "rect_w (srect e)"
  have w: "?w = 50" using assms(1) by (simp add: enemy_ok_def)
  have "0 \<le> SCREEN_WIDTH - ?w" using w by (simp add: SCREEN_WIDTH_def)
  then have x: "0 \<le> fst (randint 0 (SCREEN_WIDTH - ?w) g) \<and> fst (randint 0 (SCREEN_WIDTH - ?w) g) \<le> SCREEN_WIDTH - ?w"
    by (rule randint_bounds)
  have y: "-100 \<le> fst (randint (-100) (-40) (snd (randint 0 (SCREEN_WIDTH - ?w) g))) \<and>
           fst (randint (-100) (-40) (snd (randint 0 (SCREEN_WIDTH - ?w) g))) \<le> -40"
    by (rule randint_bounds) simp
  from x y w assms show ?thesis
    by (simp add: enemy_update_recycle enemy_ok_def)
qed

theorem enemy_recycle_in_range_witness:
  "enemy_ok \<lparr>srect = \<lparr>rect_x = 120, rect_y = 599, rect_w = 50, rect_h = 50\<rparr>, e_speed = 2\<rparr> \<and>
   SCREEN_HEIGHT < 599 + 2 \<and>
   rect_y (srect (fst (enemy_update \<lparr>srect = \<lparr>rect_x = 120, rect_y = 599, rect_w = 50, rect_h = 50\<rparr>, e_speed = 2\<rparr>
                                     \<lparr>rand_src = (\<lambda>n. 7), rand_pos = 0\<rparr>))) \<le> -40"
proof -
  let ?e = "\<lparr>srect = \<lparr>rect_x = 120, rect_y = 599, rect_w = 50, rect_h = 50\<rparr>, e_speed = 2\<rparr>"
  have h1: "enemy_ok ?e" by (simp add: enemy_ok_def)
  have h2: "SCREEN_HEIGHT < rect_y (srect ?e) + e_speed ?e" by (simp add: SCREEN_HEIGHT_def)
  show ?thesis
    using h1 h2 enemy_recycle_in_range [OF h1 h2, of "\<lparr>rand_src = (\<lambda>n. 7), rand_pos = 0\<rparr>"] by simp
qed

text \<open>
  C10: A game bullet (10x20, speed 7) expires exactly when its bottom edge, after the
  move, is above the screen: it is removed iff its top was above \<open>y = -13\<close>; a bullet
  whose bottom lands on \<open>-1\<close> is removed, one whose bottom lands on \<open>0\<close> survives.
\<close>

theorem bullet_update_expiry:
  assumes "rect_h (srect b) = 20" and "b_speed b = 7"
  shows "bullet_update b = None \<longleftrightarrow> rect_y (srect b) + 13 < 0"
  using assms by (simp add: bullet_update_def rect_bottom_def)

theorem bullet_update_expiry_witness:
  "rect_h (srect (Bullet 25 (-14))) = 20 \<and> b_speed (Bullet 25 (-14)) = 7 \<and>
   bullet_update (Bullet 25 (-14)) = None \<and> bullet_update (Bullet 25 (-13)) \<noteq> None"
proof -
  have a: "rect_h (srect (Bullet 25 (-14))) = 20" "b_speed (Bullet 25 (-14)) = 7"
    and b: "rect_h (srect (Bullet 25 (-13))) = 20" "b_speed (Bullet 25 (-13)) = 7"
    by (simp_all add: Bullet_def)
  show ?thesis
    using a bullet_update_expiry [OF a] bullet_update_expiry [OF b] by (simp add: Bullet_def)
qed

end
