(* ===== verification/Player.thy ===== *)
theory Player
  imports Sprites
begin

text \<open>
  The \<open>Player\<close> class of src/main.py (lines 142--183): a 50x50 sprite with speed 5
  and the group of the bullets it has fired. The keyboard state that
  \<open>pygame.key.get_pressed()\<close> returns is the record \<open>keys\<close> of the five keys the
  game reads. The invariant \<open>player_ok\<close> (position on screen and on the 5-pixel grid
  of the spawn point) is kept by every player operation.
\<close>

record keys =
  key_left :: bool
  key_right :: bool
  key_up :: bool
  key_down :: bool
  key_space :: bool

record player = sprite +
  p_speed :: int
  bullets :: "bullet list"

definition SPAWN_X :: int where "SPAWN_X = SCREEN_WIDTH div 2"
definition SPAWN_Y :: int where "SPAWN_Y = SCREEN_HEIGHT - 60"

declare SPAWN_X_def [shooter_consts] SPAWN_Y_def [shooter_consts]

text \<open>\<open>Player()\<close>: the rect of the 50x50 rocket image at the spawn point, no bullets.\<close>

definition Player :: player where
  "Player = \<lparr>srect = \<lparr>rect_x = SPAWN_X, rect_y = SPAWN_Y, rect_w = 50, rect_h = 50\<rparr>,
             p_speed = 5, bullets = []\<rparr>"

definition move_x :: "int \<Rightarrow> 'a sprite_scheme \<Rightarrow> 'a sprite_scheme" where
  "move_x d s = s\<lparr>srect := (srect s)\<lparr>rect_x := rect_x (srect s) + d\<rparr>\<rparr>"

definition move_y :: "int \<Rightarrow> 'a sprite_scheme \<Rightarrow> 'a sprite_scheme" where
  "move_y d s = s\<lparr>srect := (srect s)\<lparr>rect_y := rect_y (srect s) + d\<rparr>\<rparr>"

text \<open>\<open>Player.shoot\<close>: a bullet at the top centre, added at the end of the group.\<close>

definition shoot :: "player \<Rightarrow> player" where
  "shoot p = p\<lparr>bullets := bullets p @ [Bullet (rect_centerx (srect p)) (rect_top (srect p))]\<rparr>"

text \<open>
  \<open>Player.handle_keys\<close>: four guarded moves, each testing the rect as the moves
  before it left it, then the shot.
\<close>

definition handle_keys :: "keys \<Rightarrow> player \<Rightarrow> player" where
  "handle_keys k p =
     (let p1 = (if key_left k \<and> 0 < rect_left (srect p) then move_x (- p_speed p) p else p);
          p2 = (if key_right k \<and> rect_right (srect p1) < SCREEN_WIDTH then move_x (p_speed p1) p1 else p1);
          p3 = (if key_up k \<and> 0 < rect_top (srect p2) then move_y (- p_speed p2) p2 else p2);
          p4 = (if key_down k \<and> rect_bottom (srect p3) < SCREEN_HEIGHT then move_y (p_speed p3) p3 else p3)
      in if key_space k then shoot p4 else p4)"

text \<open>\<open>Player.update\<close>: \<open>self.bullets.update()\<close>, each bullet in group order, the expired ones killed.\<close>

definition update_player :: "player \<Rightarrow> player" where
  "update_player p = p\<lparr>bullets := List.map_filter bullet_update (bullets p)\<rparr>"

text \<open>\<open>Player.reset\<close>: back to the spawn point; the bullets stay.\<close>

definition player_reset :: "player \<Rightarrow> player" where
  "player_reset p = p\<lparr>srect := (srect p)\<lparr>rect_x := SPAWN_X, rect_y := SPAWN_Y\<rparr>\<rparr>"

declare move_x_def [shooter_defs] move_y_def [shooter_defs] shoot_def [shooter_defs]
  player_reset_def [shooter_defs] update_player_def [shooter_defs]

section \<open>The player invariant\<close>

text \<open>
  On screen is not inductive by itself: a guard tests \<open>left > 0\<close> and then moves by
  the whole speed, so a player at \<open>x = 3\<close> would leave the screen. What the code keeps
  is that the player sits on the 5-pixel grid of its spawn point \<open>(400, 540)\<close>, and on
  that grid the guards stop it exactly at the edges.
\<close>

definition player_ok :: "player \<Rightarrow> bool" where
  "player_ok p \<longleftrightarrow>
     rect_w (srect p) = 50 \<and> rect_h (srect p) = 50 \<and> p_speed p = 5 \<and>
     0 \<le> rect_x (srect p) \<and> rect_x (srect p) + 50 \<le> SCREEN_WIDTH \<and> 5 dvd rect_x (srect p) \<and>
     0 \<le> rect_y (srect p) \<and> rect_y (srect p) + 50 \<le> SCREEN_HEIGHT \<and> 5 dvd rect_y (srect p)"

definition on_screen :: "rect \<Rightarrow> bool" where
  "on_screen r \<longleftrightarrow> 0 \<le> rect_x r \<and> rect_x r + rect_w r \<le> SCREEN_WIDTH \<and>
                   0 \<le> rect_y r \<and> rect_y r + rect_h r \<le> SCREEN_HEIGHT"

lemma player_ok_on_screen: "player_ok p \<Longrightarrow> on_screen (srect p)"
  by (simp add: player_ok_def on_screen_def)

lemma Player_ok: "player_ok Player"
  by (simp add: player_ok_def Player_def shooter_consts)

lemma player_reset_ok: "player_ok p \<Longrightarrow> player_ok (player_reset p)"
  by (simp add: player_ok_def player_reset_def shooter_consts)

lemma update_player_ok: "player_ok p \<Longrightarrow> player_ok (update_player p)"
  by (simp add: player_ok_def update_player_def)

lemma shoot_ok: "player_ok p \<Longrightarrow> player_ok (shoot p)"
  by (simp add: player_ok_def shoot_def)

text \<open>One guarded move on the grid stays on the grid and on screen.\<close>

lemma grid_step_down:
  "0 < (x::int) \<Longrightarrow> 5 dvd x \<Longrightarrow> 0 \<le> x - 5 \<and> 5 dvd (x - 5)"
  by (auto elim!: dvdE)
lemma grid_step_up:
  assumes "(x::int) + 50 < m" "5 dvd x" "5 dvd m"
  shows "x + 5 + 50 \<le> m \<and> 5 dvd (x + 5)"
proof -
  obtain k j where x: "x = 5 * k" and m: "m = 5 * j" using assms(2,3) by (auto elim!: dvdE)
  with assms(1) have "k + 10 < j" by simp
  with x m show ?thesis by simp
qed
lemma move_left_ok:
  "player_ok p \<Longrightarrow> player_ok (if b \<and> 0 < rect_left (srect p) then move_x (- p_speed p) p else p)"
  using grid_step_down [of "rect_x (srect p)"]
  by (simp add: player_ok_def move_x_def rect_left_def)

lemma move_right_ok:
  "player_ok p \<Longrightarrow> player_ok (if b \<and> rect_right (srect p) < SCREEN_WIDTH then move_x (p_speed p) p else p)"
  using grid_step_up [of "rect_x (srect p)" 800]
  by (simp add: player_ok_def move_x_def rect_right_def SCREEN_WIDTH_def)

lemma move_up_ok:
  "player_ok p \<Longrightarrow> player_ok (if b \<and> 0 < rect_top (srect p) then move_y (- p_speed p) p else p)"
  using grid_step_down [of "rect_y (srect p)"]
  by (simp add: player_ok_def move_y_def rect_top_def)

lemma move_down_ok:
  "player_ok p \<Longrightarrow> player_ok (if b \<and> rect_bottom (srect p) < SCREEN_HEIGHT then move_y (p_speed p) p else p)"
  using grid_step_up [of "rect_y (srect p)" 600]
  by (simp add: player_ok_def move_y_def rect_bottom_def SCREEN_HEIGHT_def)

lemma handle_keys_ok: "player_ok p \<Longrightarrow> player_ok (handle_keys k p)"
  unfolding handle_keys_def Let_def
  by (simp add: move_left_ok move_right_ok move_up_ok move_down_ok shoot_ok)

text \<open>One call of \<open>handle_keys\<close> moves the player by at most one speed step per axis.\<close>

lemma handle_keys_srect:
  assumes "player_ok p"
  shows "\<bar>rect_x (srect (handle_keys k p)) - rect_x (srect p)\<bar> \<le> 5 \<and>
         \<bar>rect_y (srect (handle_keys k p)) - rect_y (srect p)\<bar> \<le> 5 \<and>
         rect_w (srect (handle_keys k p)) = 50 \<and> rect_h (srect (handle_keys k p)) = 50"
  using assms by (auto simp: handle_keys_def Let_def shooter_defs player_ok_def)
text \<open>
  Each \<open>Player.update\<close> moves every bullet up by 7 and kills it once its bottom edge is
  above the screen, so after \<open>n\<close> updates a surviving bullet is at most \<open>Y - 7 n\<close>
  and at least \<open>-20\<close>.
\<close>

lemma update_player_bullets_descend:
  assumes "\<forall>b \<in> set (bullets p). bullet_ok b \<and> rect_y (srect b) \<le> Y"
  shows "\<forall>b \<in> set (bullets ((update_player ^^ n) p)).
           bullet_ok b \<and> rect_y (srect b) \<le> Y - 7 * int n \<and> (0 < n \<longrightarrow> -20 \<le> rect_y (srect b))"
proof (induction n)
  case 0
  then show ?case using assms by simp
next
  case (Suc n)
  show ?case
  proof
    fix b assume "b \<in> set (bullets ((update_player ^^ Suc n) p))"
    then obtain b0 where b0: "b0 \<in> set (bullets ((update_player ^^ n) p))" "bullet_update b0 = Some b"
      by (auto simp: update_player_def in_set_map_filter)
    from Suc.IH b0(1) have "bullet_ok b0" "rect_y (srect b0) \<le> Y - 7 * int n" by auto
    with bullet_update_Some [OF b0(2)] bullet_update_ok [OF b0(2)]
    show "bullet_ok b \<and> rect_y (srect b) \<le> Y - 7 * int (Suc n) \<and> (0 < Suc n \<longrightarrow> -20 \<le> rect_y (srect b))"
      by (auto simp: bullet_ok_def)
  qed
qed

text \<open>
  C18: \<open>Player.reset\<close> puts the player on the spawn point, keeps its bullets (they stay
  in flight across a lost life) and is idempotent.
\<close>

theorem player_reset_spawn:
  "rect_x (srect (player_reset p)) = SPAWN_X \<and> rect_y (srect (player_reset p)) = SPAWN_Y \<and>
   bullets (player_reset p) = bullets p \<and> player_reset (player_reset p) = player_reset p"
  by (simp add: player_reset_def)

text \<open>
  C19: Holding fire adds exactly one bullet per call of \<open>handle_keys\<close>, at the end of
  the group, at the top centre of the player after this call's moves; without fire the
  bullets are untouched.
\<close>

theorem handle_keys_fires:
  "bullets (handle_keys k p) =
     bullets p @ (if key_space k
                  then [Bullet (rect_centerx (srect (handle_keys k p))) (rect_top (srect (handle_keys k p)))]
                  else [])"
  by (simp add: handle_keys_def Let_def shooter_defs)

text \<open>
  C24: Bullets cannot stay in flight forever: if every bullet of the group is a game
  bullet with top edge at most \<open>Y\<close>, then after any number \<open>n\<close> of updates with
  \<open>Y + 20 < 7 n\<close> (and no new shot) the group is empty.
\<close>

theorem bullets_expire:
  assumes "\<forall>b \<in> set (bullets p). bullet_ok b \<and> rect_y (srect b) \<le> Y"
    and "Y + 20 < 7 * int (Suc n)"
  shows "bullets ((update_player ^^ Suc n) p) = []"
proof -
  have "\<forall>b \<in> set (bullets ((update_player ^^ Suc n) p)). -20 \<le> rect_y (srect b) \<and>
          rect_y (srect b) \<le> Y - 7 * int (Suc n)"
    using update_player_bullets_descend [OF assms(1), of "Suc n"] by simp
  with assms(2) have "\<forall>b \<in> set (bullets ((update_player ^^ Suc n) p)). False" by force
  then show ?thesis by simp
qed

theorem bullets_expire_witness:
  "bullets ((update_player ^^ 82) (Player\<lparr>bullets := [Bullet 425 540]\<rparr>)) = []"
proof -
  have "\<forall>b \<in> set (bullets (Player\<lparr>bullets := [Bullet 425 540]\<rparr>)). bullet_ok b \<and> rect_y (srect b) \<le> 540"
    by (simp add: Bullet_def bullet_ok_def)
  from bullets_expire [OF this, of 81] show ?thesis by (simp add: numeral_eq_Suc)
qed

end
