(* ===== verification/Scoreboard.thy ===== *)
theory Scoreboard
  imports Prelude
begin

text \<open>
  The \<open>Scoreboard\<close> class of src/main.py (lines 319--338): two counters and the
  game-over test. \<open>draw\<close> is rendering only.
\<close>

record scoreboard =
  score :: int
  lives :: int

definition Scoreboard :: scoreboard where
  "Scoreboard = \<lparr>score = 0, lives = 3\<rparr>"

definition increase_score :: "scoreboard \<Rightarrow> scoreboard" where
  "increase_score s = s\<lparr>score := score s + 10\<rparr>"

definition decrease_life :: "scoreboard \<Rightarrow> scoreboard" where
  "decrease_life s = s\<lparr>lives := lives s - 1\<rparr>"

definition is_game_over :: "scoreboard \<Rightarrow> bool" where
  "is_game_over s \<longleftrightarrow> lives s \<le> 0"

declare increase_score_def [shooter_defs] decrease_life_def [shooter_defs]
  is_game_over_def [shooter_defs] Scoreboard_def [shooter_defs]

text \<open>
  The order on scoreboards that every game step respects: the score grows by
  multiples of 10 and the lives never grow.
\<close>

definition sb_le :: "scoreboard \<Rightarrow> scoreboard \<Rightarrow> bool" where
  "sb_le s t \<longleftrightarrow> score s \<le> score t \<and> 10 dvd (score t - score s) \<and> lives t \<le> lives s"

lemma sb_le_refl [simp, intro]: "sb_le s s"
  by (simp add: sb_le_def)

lemma sb_le_trans [trans]:
  assumes "sb_le s t" and "sb_le t u"
  shows "sb_le s u"
proof -
  from assms have d1: "10 dvd (score t - score s)" and d2: "10 dvd (score u - score t)"
    by (simp_all add: sb_le_def)
  have "10 dvd ((score u - score t) + (score t - score s))"
    by (rule dvd_add [OF d2 d1])
  then have "10 dvd (score u - score s)" by simp
  with assms show ?thesis by (auto simp: sb_le_def)
qed

lemma sb_le_increase_score [simp, intro]: "sb_le s (increase_score s)"
  by (simp add: sb_le_def increase_score_def)

lemma sb_le_decrease_life [simp, intro]: "sb_le s (decrease_life s)"
  by (simp add: sb_le_def decrease_life_def)

end
