(* ===== verification/Level.thy ===== *)
theory Level
  imports Player Scoreboard "HOL-Library.Sublist" "HOL-Library.Multiset"
begin

text \<open>
  The \<open>Level\<close> class and its three subclasses (src/main.py lines 234--316). A level
  owns an enemy group and an obstacle group; its \<open>update\<close> moves the enemies, moves
  the player's bullets, resolves collisions against the player and the scoreboard,
  and spawns at most one enemy. Here a group is the list of its
  sprites' values; theory \<open>Sprite_Groups\<close> models the groups as references to shared
  objects, with \<open>all_sprites\<close>, and refines this model. Groups are lists in insertion order, the order in which pygame
  iterates them.
\<close>

record level =
  enemies :: "enemy list"
  obstacles :: "obstacle list"

section \<open>Creating entities at random places\<close>

text \<open>
  \<open>Enemy(random.randint(0, SCREEN_WIDTH - 50), random.randint(-100, -40))\<close>, the
  expression of \<open>spawn_enemies\<close> and of the three constructors: the arguments are
  drawn first, left to right, then the constructor draws the speed.
\<close>

definition random_enemy :: "rng \<Rightarrow> enemy \<times> rng" where
  "random_enemy g =
     (let (x, g1) = randint 0 (SCREEN_WIDTH - 50) g;
          (y, g2) = randint (-100) (-40) g1
      in Enemy x y g2)"

definition random_obstacle :: "rng \<Rightarrow> obstacle \<times> rng" where
  "random_obstacle g =
     (let (x, g1) = randint 0 (SCREEN_WIDTH - 100) g;
          (y, g2) = randint 100 (SCREEN_HEIGHT - 30) g1
      in (Obstacle x y, g2))"

text \<open>The \<open>for i in range(n)\<close> loops of the constructors, each adding at the end.\<close>

fun make_enemies :: "nat \<Rightarrow> rng \<Rightarrow> enemy list \<times> rng" where
  "make_enemies 0 g = ([], g)"
| "make_enemies (Suc n) g =
     (let (e, g1) = random_enemy g;
          (es, g2) = make_enemies n g1
      in (e # es, g2))"

fun make_obstacles :: "nat \<Rightarrow> rng \<Rightarrow> obstacle list \<times> rng" where
  "make_obstacles 0 g = ([], g)"
| "make_obstacles (Suc n) g =
     (let (o1, g1) = random_obstacle g;
          (os, g2) = make_obstacles n g1
      in (o1 # os, g2))"

text \<open>\<open>Level.__init__\<close> followed by the subclass loops: enemies first, then obstacles.\<close>

definition Level_init :: "nat \<Rightarrow> nat \<Rightarrow> rng \<Rightarrow> level \<times> rng" where
  "Level_init ne no g =
     (let (es, g1) = make_enemies ne g;
          (os, g2) = make_obstacles no g1
      in (\<lparr>enemies = es, obstacles = os\<rparr>, g2))"

definition Level1 :: "rng \<Rightarrow> level \<times> rng" where "Level1 g = Level_init 5 3 g"
definition Level2 :: "rng \<Rightarrow> level \<times> rng" where "Level2 g = Level_init 7 5 g"
definition Level3 :: "rng \<Rightarrow> level \<times> rng" where "Level3 g = Level_init 10 7 g"

section \<open>One tick of a level\<close>

text \<open>\<open>self.enemies.update()\<close>: every enemy in group order, the random source threaded.\<close>

fun update_enemies :: "enemy list \<Rightarrow> rng \<Rightarrow> enemy list \<times> rng" where
  "update_enemies [] g = ([], g)"
| "update_enemies (e # es) g =
     (let (e', g1) = enemy_update e g;
          (es', g2) = update_enemies es g1
      in (e' # es', g2))"

text \<open>
  The bullet loop of \<open>check_collisions\<close>: \<open>for bullet in player.bullets\<close> walks a
  snapshot of the group; a bullet that hits the first colliding live enemy kills
  itself and that enemy and scores 10; later bullets test the enemies that are left.
\<close>

fun check_bullets :: "bullet list \<Rightarrow> enemy list \<Rightarrow> scoreboard \<Rightarrow> bullet list \<times> enemy list \<times> scoreboard" where
  "check_bullets [] es sb = ([], es, sb)"
| "check_bullets (b # bs) es sb =
     (case collide_index b es of
        Some i \<Rightarrow> check_bullets bs (remove_at i es) (increase_score sb)
      | None \<Rightarrow> (let (bs', es', sb') = check_bullets bs es sb in (b # bs', es', sb')))"

text \<open>
  \<open>Level.check_collisions\<close>: an enemy touching the player costs a life and resets
  the player; then an obstacle touching the (possibly reset) player does the same;
  then the bullets.
\<close>

definition check_collisions :: "level \<Rightarrow> player \<Rightarrow> scoreboard \<Rightarrow> level \<times> player \<times> scoreboard" where
  "check_collisions l p sb =
     (let (p1, sb1) = (if spritecollideany p (enemies l) \<noteq> None
                       then (player_reset p, decrease_life sb) else (p, sb));
          (p2, sb2) = (if spritecollideany p1 (obstacles l) \<noteq> None
                       then (player_reset p1, decrease_life sb1) else (p1, sb1));
          (bs, es, sb3) = check_bullets (bullets p2) (enemies l) sb2
      in (l\<lparr>enemies := es\<rparr>, p2\<lparr>bullets := bs\<rparr>, sb3))"

text \<open>\<open>Level.spawn_enemies\<close>: one new enemy, at the end of the group, when fewer than 5 are left.\<close>

definition spawn_enemies :: "level \<Rightarrow> rng \<Rightarrow> level \<times> rng" where
  "spawn_enemies l g =
     (if length (enemies l) < 5
      then (let (e, g1) = random_enemy g in (l\<lparr>enemies := enemies l @ [e]\<rparr>, g1))
      else (l, g))"

text \<open>\<open>Level.update(player, scoreboard)\<close>, in the order of the source.\<close>

definition level_update :: "level \<Rightarrow> player \<Rightarrow> scoreboard \<Rightarrow> rng \<Rightarrow> level \<times> player \<times> scoreboard \<times> rng" where
  "level_update l p sb g =
     (let (es, g1) = update_enemies (enemies l) g;
          p1 = update_player p;
          (l2, p2, sb2) = check_collisions (l\<lparr>enemies := es\<rparr>) p1 sb;
          (l3, g3) = spawn_enemies l2 g1
      in (l3, p2, sb2, g3))"

text \<open>\<open>Level.is_completed\<close>: never true; levels are left by score, in \<open>Game.run\<close>. Nothing calls it.\<close>

definition is_completed :: "level \<Rightarrow> player \<Rightarrow> bool" where
  "is_completed l p = False"

text \<open>
  Consecutive ticks of one level with no keyboard input: the part of the game loop
  that the level sees, used to state what the spawn policy achieves over time.
\<close>

fun level_ticks :: "nat \<Rightarrow> level \<Rightarrow> player \<Rightarrow> scoreboard \<Rightarrow> rng \<Rightarrow> level \<times> player \<times> scoreboard \<times> rng" where
  "level_ticks 0 l p sb g = (l, p, sb, g)"
| "level_ticks (Suc n) l p sb g =
     (case level_update l p sb g of (l', p', sb', g') \<Rightarrow> level_ticks n l' p' sb' g')"

section \<open>Counting lemmas\<close>

lemma random_enemy_ok: "enemy_ok (fst (random_enemy g))"
  by (simp add: random_enemy_def split_beta Enemy_ok)

lemma random_enemy_place:
  "0 \<le> rect_x (srect (fst (random_enemy g))) \<and> rect_x (srect (fst (random_enemy g))) \<le> SCREEN_WIDTH - 50 \<and>
   -100 \<le> rect_y (srect (fst (random_enemy g))) \<and> rect_y (srect (fst (random_enemy g))) \<le> -40"
  using randint_bounds [of 0 "SCREEN_WIDTH - 50" g]
        randint_bounds [of "-100" "-40" "snd (randint 0 (SCREEN_WIDTH - 50) g)"]
  by (simp add: random_enemy_def split_beta Enemy_fields SCREEN_WIDTH_def)

lemma random_enemy_rng [simp]: "rand_src (snd (random_enemy g)) = rand_src g"
  by (simp add: random_enemy_def split_beta)

lemma make_enemies_length [simp]: "length (fst (make_enemies n g)) = n"
  by (induction n arbitrary: g) (simp_all add: split_beta)

lemma make_enemies_ok: "\<forall>e \<in> set (fst (make_enemies n g)). enemy_ok e"
  by (induction n arbitrary: g) (simp_all add: split_beta random_enemy_ok)

lemma make_obstacles_length [simp]: "length (fst (make_obstacles n g)) = n"
  by (induction n arbitrary: g) (simp_all add: split_beta)

lemma Level_init_lengths:
  "length (enemies (fst (Level_init ne no g))) = ne \<and> length (obstacles (fst (Level_init ne no g))) = no"
  by (simp add: Level_init_def split_beta)

lemma Level_init_ok: "\<forall>e \<in> set (enemies (fst (Level_init ne no g))). enemy_ok e"
  by (simp add: Level_init_def split_beta make_enemies_ok)

lemma update_enemies_length [simp]: "length (fst (update_enemies es g)) = length es"
  by (induction es arbitrary: g) (simp_all add: split_beta)

lemma update_enemies_ok:
  "\<forall>e \<in> set es. enemy_ok e \<Longrightarrow> \<forall>e \<in> set (fst (update_enemies es g)). enemy_ok e"
  by (induction es arbitrary: g) (simp_all add: split_beta enemy_update_ok)

lemma update_enemies_rng [simp]: "rand_src (snd (update_enemies es g)) = rand_src g"
  by (induction es arbitrary: g) (simp_all add: split_beta)

lemma collide_index_Some:
  "collide_index s es = Some i \<Longrightarrow> i < length es"
  by (simp add: collide_index_def first_index_Some)

text \<open>What the bullet loop does to the counts: \<open>k\<close> hits, each removing one bullet and one enemy and scoring 10.\<close>

lemma check_bullets_counts:
  "check_bullets bs es sb = (bs', es', sb') \<Longrightarrow>
   \<exists>k. length bs = length bs' + k \<and> length es = length es' + k \<and>
       sb' = sb\<lparr>score := score sb + 10 * int k\<rparr>"
proof (induction bs es sb arbitrary: bs' es' sb' rule: check_bullets.induct)
  case (1 es sb)
  then show ?case by auto
next
  case (2 b bs es sb)
  show ?case
  proof (cases "collide_index b es")
    case None
    then obtain cs where cs: "check_bullets bs es sb = (cs, es', sb')" and "bs' = b # cs"
      using "2.prems" by (auto split: prod.splits)
    with "2.IH"(1) [OF None cs] show ?thesis by auto
  next
    case (Some i)
    with "2.prems" have cs: "check_bullets bs (remove_at i es) (increase_score sb) = (bs', es', sb')"
      by simp
    from collide_index_Some [OF Some]
    have len: "length (remove_at i es) = length es - 1" "0 < length es" by auto
    from "2.IH"(2) [OF Some cs] obtain k where
      k: "length bs = length bs' + k" "length (remove_at i es) = length es' + k"
         "sb' = (increase_score sb)\<lparr>score := score (increase_score sb) + 10 * int k\<rparr>"
      by blast
    from k(2) len have "length es = length es' + Suc k" by arith
    with k(1,3) show ?thesis
      by (intro exI [of _ "Suc k"]) (simp add: increase_score_def)
  qed
qed

lemma check_bullets_subset:
  "check_bullets bs es sb = (bs', es', sb') \<Longrightarrow> set es' \<subseteq> set es"
proof (induction bs es sb arbitrary: bs' es' sb' rule: check_bullets.induct)
  case (1 es sb)
  then show ?case by auto
next
  case (2 b bs es sb)
  then show ?case
    using set_remove_at_subset by (fastforce split: option.splits prod.splits)
qed

section \<open>One level tick: counts and invariants\<close>

lemma collision_penalty:
  assumes "(if c then (player_reset q, decrease_life s) else (q, s)) = (q', s')"
  shows "q' = (if c then player_reset q else q) \<and>
         s' = s\<lparr>lives := lives s - (if c then 1 else 0)\<rparr> \<and> bullets q' = bullets q \<and>
         (player_ok q \<longrightarrow> player_ok q')"
  using assms player_reset_ok
  by (cases c) (auto simp: decrease_life_def player_reset_def)

text \<open>The three stages of \<open>check_collisions\<close>, named.\<close>

lemma check_collisions_stages:
  assumes "check_collisions l p sb = (l', p', sb')"
  obtains p1 sb1 p2 sb2 bs es where
    "(if spritecollideany p (enemies l) \<noteq> None
      then (player_reset p, decrease_life sb) else (p, sb)) = (p1, sb1)"
    "(if spritecollideany p1 (obstacles l) \<noteq> None
      then (player_reset p1, decrease_life sb1) else (p1, sb1)) = (p2, sb2)"
    "check_bullets (bullets p2) (enemies l) sb2 = (bs, es, sb')"
    "l' = l\<lparr>enemies := es\<rparr>" "p' = p2\<lparr>bullets := bs\<rparr>"
proof -
  obtain p1 sb1 where h1: "(if spritecollideany p (enemies l) \<noteq> None
                          then (player_reset p, decrease_life sb) else (p, sb)) = (p1, sb1)"
    by (cases "if spritecollideany p (enemies l) \<noteq> None
               then (player_reset p, decrease_life sb) else (p, sb)")
  obtain p2 sb2 where h2: "(if spritecollideany p1 (obstacles l) \<noteq> None
                          then (player_reset p1, decrease_life sb1) else (p1, sb1)) = (p2, sb2)"
    by (cases "if spritecollideany p1 (obstacles l) \<noteq> None
               then (player_reset p1, decrease_life sb1) else (p1, sb1)")
  obtain bs es sb3 where h3: "check_bullets (bullets p2) (enemies l) sb2 = (bs, es, sb3)"
    by (cases "check_bullets (bullets p2) (enemies l) sb2")
  from assms h1 h2 h3 have "l' = l\<lparr>enemies := es\<rparr>" "p' = p2\<lparr>bullets := bs\<rparr>" "sb' = sb3"
    by (simp_all add: check_collisions_def)
  with h1 h2 h3 that show ?thesis by blast
qed

lemma check_collisions_counts:
  assumes "check_collisions l p sb = (l', p', sb')"
  shows "\<exists>k d. k \<le> length (bullets p) \<and> length (enemies l) = length (enemies l') + k \<and>
              d \<le> 2 \<and> sb' = sb\<lparr>score := score sb + 10 * int k, lives := lives sb - int d\<rparr> \<and>
              obstacles l' = obstacles l \<and> set (enemies l') \<subseteq> set (enemies l) \<and>
              (player_ok p \<longrightarrow> player_ok p')"
proof -
  obtain p1 sb1 p2 sb2 bs es where
    h1: "(if spritecollideany p (enemies l) \<noteq> None
          then (player_reset p, decrease_life sb) else (p, sb)) = (p1, sb1)"
    and h2: "(if spritecollideany p1 (obstacles l) \<noteq> None
          then (player_reset p1, decrease_life sb1) else (p1, sb1)) = (p2, sb2)"
    and h3: "check_bullets (bullets p2) (enemies l) sb2 = (bs, es, sb')"
    and res: "l' = l\<lparr>enemies := es\<rparr>" "p' = p2\<lparr>bullets := bs\<rparr>"
    by (rule check_collisions_stages [OF assms])
  from collision_penalty [OF h1] collision_penalty [OF h2]
  obtain d where d: "d \<le> 2" "sb2 = sb\<lparr>lives := lives sb - int d\<rparr>" "bullets p2 = bullets p"
    and ok: "player_ok p \<longrightarrow> player_ok p2"
    by (intro that [of "(if spritecollideany p (enemies l) \<noteq> None then 1 else 0) +
                         (if spritecollideany p1 (obstacles l) \<noteq> None then 1 else 0)"]) auto
  from check_bullets_counts [OF h3] obtain k where
    k: "length (bullets p2) = length bs + k" "length (enemies l) = length es + k"
       "sb' = sb2\<lparr>score := score sb2 + 10 * int k\<rparr>"
    by blast
  have "set es \<subseteq> set (enemies l)" by (rule check_bullets_subset [OF h3])
  with res d k ok show ?thesis
    by (intro exI [of _ k] exI [of _ d]) (auto simp: player_ok_def)
qed

text \<open>
  Where the player ends up and what it costs: the enemy test, then the obstacle test
  on the player as the enemy test left it.
\<close>

lemma check_collisions_player:
  assumes "check_collisions l p sb = (l', p', sb')"
  shows "let c1 = spritecollideany p (enemies l) \<noteq> None;
             p1 = (if c1 then player_reset p else p);
             c2 = spritecollideany p1 (obstacles l) \<noteq> None
         in srect p' = srect (if c2 then player_reset p1 else p1) \<and>
            lives sb' = lives sb - (if c1 then 1 else 0) - (if c2 then 1 else 0)"
proof -
  obtain p1 sb1 p2 sb2 bs es where
    h1: "(if spritecollideany p (enemies l) \<noteq> None
          then (player_reset p, decrease_life sb) else (p, sb)) = (p1, sb1)"
    and h2: "(if spritecollideany p1 (obstacles l) \<noteq> None
          then (player_reset p1, decrease_life sb1) else (p1, sb1)) = (p2, sb2)"
    and h3: "check_bullets (bullets p2) (enemies l) sb2 = (bs, es, sb')"
    and res: "l' = l\<lparr>enemies := es\<rparr>" "p' = p2\<lparr>bullets := bs\<rparr>"
    by (rule check_collisions_stages [OF assms])
  from check_bullets_counts [OF h3] have "lives sb' = lives sb2" by auto
  with collision_penalty [OF h1] collision_penalty [OF h2] res show ?thesis
    by (simp add: Let_def)
qed

lemma spawn_enemies_length:
  "length (enemies (fst (spawn_enemies l g))) = length (enemies l) + (if length (enemies l) < 5 then 1 else 0)"
  by (simp add: spawn_enemies_def split_beta)

lemma spawn_enemies_obstacles [simp]:
  "obstacles (fst (spawn_enemies l g)) = obstacles l"
  by (simp add: spawn_enemies_def split_beta)

lemma spawn_enemies_ok:
  "\<forall>e \<in> set (enemies l). enemy_ok e \<Longrightarrow> \<forall>e \<in> set (enemies (fst (spawn_enemies l g))). enemy_ok e"
  by (simp add: spawn_enemies_def split_beta random_enemy_ok)

lemma length_map_filter_le: "length (List.map_filter f xs) \<le> length xs"
  by (induction xs) (simp_all add: List.map_filter_simps split: option.splits)

lemma update_player_bullets_le: "length (bullets (update_player p)) \<le> length (bullets p)"
  by (simp add: update_player_def length_map_filter_le)


text \<open>The stages of one level tick, named.\<close>

lemma level_update_stages:
  assumes "level_update l p sb g = (l', p', sb', g')"
  obtains es g1 l2 where
    "update_enemies (enemies l) g = (es, g1)"
    "check_collisions (l\<lparr>enemies := es\<rparr>) (update_player p) sb = (l2, p', sb')"
    "spawn_enemies l2 g1 = (l', g')"
proof -
  obtain es g1 where u: "update_enemies (enemies l) g = (es, g1)"
    by (cases "update_enemies (enemies l) g")
  obtain l2 p2 sb2 where c: "check_collisions (l\<lparr>enemies := es\<rparr>) (update_player p) sb = (l2, p2, sb2)"
    by (cases "check_collisions (l\<lparr>enemies := es\<rparr>) (update_player p) sb")
  obtain l3 g3 where sp: "spawn_enemies l2 g1 = (l3, g3)"
    by (cases "spawn_enemies l2 g1")
  from assms u c sp have "l' = l3" "p' = p2" "sb' = sb2" "g' = g3"
    by (simp_all add: level_update_def)
  with u c sp that show ?thesis by blast
qed

text \<open>
  C2: One level tick kills some number \<open>k\<close> of enemies, at most one per bullet: the
  score grows by exactly \<open>10 * k\<close>, at most two lives are lost, and the enemy group
  ends with the survivors plus one spawned enemy if fewer than 5 survived.
\<close>

theorem level_update_counts:
  assumes "level_update l p sb g = (l', p', sb', g')"
  shows "\<exists>k d. k \<le> length (bullets p) \<and> k \<le> length (enemies l) \<and> d \<le> 2 \<and>
     sb' = sb\<lparr>score := score sb + 10 * int k, lives := lives sb - int d\<rparr> \<and>
     length (enemies l') = (length (enemies l) - k) + (if length (enemies l) - k < 5 then 1 else 0)"
proof -
  obtain es g1 l2 where u: "update_enemies (enemies l) g = (es, g1)"
    and c: "check_collisions (l\<lparr>enemies := es\<rparr>) (update_player p) sb = (l2, p', sb')"
    and sp: "spawn_enemies l2 g1 = (l', g')"
    using level_update_stages [OF assms] by blast
  from u have len: "length es = length (enemies l)"
    using update_enemies_length [of "enemies l" g] by simp
  from check_collisions_counts [OF c] obtain k d where
    k: "k \<le> length (bullets (update_player p))" "length es = length (enemies l2) + k"
       "d \<le> 2" "sb' = sb\<lparr>score := score sb + 10 * int k, lives := lives sb - int d\<rparr>"
    by auto
  from sp have "length (enemies l') = length (enemies l2) + (if length (enemies l2) < 5 then 1 else 0)"
    using spawn_enemies_length [of l2 g1] by simp
  moreover have "length (enemies l2) = length (enemies l) - k" "k \<le> length (enemies l)"
    using k(2) len by arith+
  moreover have "k \<le> length (bullets p)"
    using k(1) update_player_bullets_le [of p] by arith
  ultimately show ?thesis using k(3,4)
    by (intro exI [of _ k] exI [of _ d]) simp
qed

lemma level_update_ok:
  assumes "level_update l p sb g = (l', p', sb', g')"
    and "player_ok p" and "\<forall>e \<in> set (enemies l). enemy_ok e"
  shows "player_ok p' \<and> (\<forall>e \<in> set (enemies l'). enemy_ok e) \<and> obstacles l' = obstacles l"
proof -
  obtain es g1 l2 where u: "update_enemies (enemies l) g = (es, g1)"
    and c: "check_collisions (l\<lparr>enemies := es\<rparr>) (update_player p) sb = (l2, p', sb')"
    and sp: "spawn_enemies l2 g1 = (l', g')"
    using level_update_stages [OF assms(1)] by blast
  from u assms(3) have "\<forall>e \<in> set es. enemy_ok e"
    using update_enemies_ok [of "enemies l" g] by simp
  moreover from check_collisions_counts [OF c] have
    "set (enemies l2) \<subseteq> set es" "obstacles l2 = obstacles l"
    "player_ok (update_player p) \<longrightarrow> player_ok p'"
    by auto
  ultimately have "\<forall>e \<in> set (enemies l2). enemy_ok e" "player_ok p'"
    using update_player_ok [OF assms(2)] by auto
  with sp \<open>obstacles l2 = obstacles l\<close> show ?thesis
    using spawn_enemies_ok [of l2 g1] spawn_enemies_obstacles [of l2 g1] by simp
qed

text \<open>An empty level at the start: nothing is killed and the spawn adds the first enemy.\<close>

theorem level_update_counts_witness:
  "level_update \<lparr>enemies = [], obstacles = []\<rparr> Player Scoreboard \<lparr>rand_src = (\<lambda>n. 0), rand_pos = 0\<rparr> =
     (\<lparr>enemies = [\<lparr>srect = \<lparr>rect_x = 0, rect_y = -100, rect_w = 50, rect_h = 50\<rparr>, e_speed = 1\<rparr>],
       obstacles = []\<rparr>, Player, Scoreboard, \<lparr>rand_src = (\<lambda>n. 0), rand_pos = 3\<rparr>) \<and>
   score Scoreboard = 0"
proof -
  have h: "level_update \<lparr>enemies = [], obstacles = []\<rparr> Player Scoreboard \<lparr>rand_src = (\<lambda>n. 0), rand_pos = 0\<rparr> =
     (\<lparr>enemies = [\<lparr>srect = \<lparr>rect_x = 0, rect_y = -100, rect_w = 50, rect_h = 50\<rparr>, e_speed = 1\<rparr>],
       obstacles = []\<rparr>, Player, Scoreboard, \<lparr>rand_src = (\<lambda>n. 0), rand_pos = 3\<rparr>)"
    by (simp add: level_update_def check_collisions_def spawn_enemies_def random_enemy_def Enemy_def
                  randint_def spritecollideany_def update_player_def Player_def List.map_filter_def)
  from level_update_counts [OF h] have "score Scoreboard = score Scoreboard + 10 * 0"
    by (auto simp: Player_def)
  with h show ?thesis by (simp add: Scoreboard_def)
qed

lemma subseq_remove_at: "subseq (remove_at i xs) xs"
proof -
  have "drop i xs = take 1 (drop i xs) @ drop (Suc i) xs"
    using append_take_drop_id [of 1 "drop i xs"] by simp
  then have "subseq (drop (Suc i) xs) (drop i xs)"
    by (metis subseq_drop_many subseq_order.refl)
  then have "subseq (take i xs @ drop (Suc i) xs) (take i xs @ drop i xs)"
    by (simp only: subseq_append')
  then show ?thesis by (simp add: remove_at_def)
qed

lemma collide_index_None:
  "collide_index s es = None \<Longrightarrow> e \<in> set es \<Longrightarrow> \<not> colliderect (srect s) (srect e)"
  by (simp add: collide_index_def)

lemma check_bullets_order:
  assumes "check_bullets bs es sb = (bs', es', sb')"
  shows "subseq bs' bs \<and> subseq es' es \<and>
         (\<forall>b \<in> set bs'. \<forall>e \<in> set es'. \<not> colliderect (srect b) (srect e))"
  using assms
proof (induction bs es sb arbitrary: bs' es' sb' rule: check_bullets.induct)
  case (1 es sb)
  then show ?case by auto
next
  case (2 b bs es sb)
  show ?case
  proof (cases "collide_index b es")
    case None
    then obtain cs where cs: "check_bullets bs es sb = (cs, es', sb')" and bs': "bs' = b # cs"
      using "2.prems" by (auto split: prod.splits)
    from "2.IH"(1) [OF None cs] have ih: "subseq cs bs" "subseq es' es"
      "\<forall>b \<in> set cs. \<forall>e \<in> set es'. \<not> colliderect (srect b) (srect e)" by auto
    have "set es' \<subseteq> set es" by (rule check_bullets_subset [OF cs])
    with ih bs' collide_index_None [OF None] show ?thesis by auto
  next
    case (Some i)
    with "2.prems" have cs: "check_bullets bs (remove_at i es) (increase_score sb) = (bs', es', sb')"
      by simp
    from "2.IH"(2) [OF Some cs] have "subseq bs' bs" "subseq es' (remove_at i es)"
      "\<forall>b \<in> set bs'. \<forall>e \<in> set es'. \<not> colliderect (srect b) (srect e)" by auto
    with subseq_remove_at [of i es] show ?thesis
      by (auto intro: subseq_order.order_trans)
  qed
qed

lemma mset_remove_at:
  "i < length xs \<Longrightarrow> mset xs = add_mset (xs ! i) (mset (remove_at i xs))"
  by (subst id_take_nth_drop [of i xs]) (simp_all add: remove_at_def)

text \<open>
  The hits of the bullet loop: pairs of a killed bullet and the enemy it killed, each
  pair overlapping; the killed bullets and enemies are exactly what the two groups
  lose, and each hit scores 10.
\<close>

lemma check_bullets_hits:
  assumes "check_bullets bs es sb = (bs', es', sb')"
  shows "\<exists>hits. mset bs = mset bs' + mset (map fst hits) \<and> mset es = mset es' + mset (map snd hits) \<and>
                (\<forall>(b, e) \<in> set hits. colliderect (srect b) (srect e)) \<and>
                sb' = sb\<lparr>score := score sb + 10 * int (length hits)\<rparr>"
  using assms
proof (induction bs es sb arbitrary: bs' es' sb' rule: check_bullets.induct)
  case (1 es sb)
  then show ?case by (intro exI [of _ "[]"]) auto
next
  case (2 b bs es sb)
  show ?case
  proof (cases "collide_index b es")
    case None
    then obtain cs where cs: "check_bullets bs es sb = (cs, es', sb')" and bs': "bs' = b # cs"
      using "2.prems" by (auto split: prod.splits)
    from "2.IH"(1) [OF None cs] bs' show ?thesis by auto
  next
    case (Some i)
    with "2.prems" have cs: "check_bullets bs (remove_at i es) (increase_score sb) = (bs', es', sb')"
      by simp
    from "2.IH"(2) [OF Some cs] obtain hits where
      h: "mset bs = mset bs' + mset (map fst hits)" "mset (remove_at i es) = mset es' + mset (map snd hits)"
         "\<forall>(b, e) \<in> set hits. colliderect (srect b) (srect e)"
         "sb' = (increase_score sb)\<lparr>score := score (increase_score sb) + 10 * int (length hits)\<rparr>"
      by blast
    from first_index_Some [OF Some [unfolded collide_index_def]]
    have i: "i < length es" "colliderect (srect b) (srect (es ! i))" by auto
    show ?thesis
    proof (intro exI [of _ "(b, es ! i) # hits"] conjI)
      show "mset (b # bs) = mset bs' + mset (map fst ((b, es ! i) # hits))" using h(1) by simp
      show "mset es = mset es' + mset (map snd ((b, es ! i) # hits))"
        using h(2) mset_remove_at [OF i(1)] by simp
      show "\<forall>(b', e) \<in> set ((b, es ! i) # hits). colliderect (srect b') (srect e)" using h(3) i(2) by auto
      show "sb' = sb\<lparr>score := score sb + 10 * int (length ((b, es ! i) # hits))\<rparr>"
        using h(4) by (simp add: increase_score_def)
    qed
  qed
qed

text \<open>
  C17: The bullet loop keeps the surviving bullets and enemies in their group order,
  and no surviving bullet overlaps a surviving enemy afterwards. What the two groups
  lose is a list of hits: each hit is a killed bullet paired with the enemy it killed,
  the two overlap, and each hit scores exactly 10. A bullet that misses is never
  killed, and an enemy is never killed without a bullet.
\<close>

theorem check_bullets_survivors:
  assumes "check_bullets bs es sb = (bs', es', sb')"
  shows "subseq bs' bs \<and> subseq es' es \<and>
         (\<forall>b \<in> set bs'. \<forall>e \<in> set es'. \<not> colliderect (srect b) (srect e)) \<and>
         (\<exists>hits. mset bs = mset bs' + mset (map fst hits) \<and> mset es = mset es' + mset (map snd hits) \<and>
                 (\<forall>(b, e) \<in> set hits. colliderect (srect b) (srect e)) \<and>
                 sb' = sb\<lparr>score := score sb + 10 * int (length hits)\<rparr>)"
  using check_bullets_order [OF assms] check_bullets_hits [OF assms] by blast

theorem check_bullets_survivors_witness:
  "check_bullets [Bullet 15 100, Bullet 615 100]
     [\<lparr>srect = \<lparr>rect_x = 0, rect_y = 100, rect_w = 50, rect_h = 50\<rparr>, e_speed = 1\<rparr>] Scoreboard =
   ([Bullet 615 100], [], increase_score Scoreboard) \<and> subseq [Bullet 615 100] [Bullet 15 100, Bullet 615 100]"
proof -
  have h: "check_bullets [Bullet 15 100, Bullet 615 100]
     [\<lparr>srect = \<lparr>rect_x = 0, rect_y = 100, rect_w = 50, rect_h = 50\<rparr>, e_speed = 1\<rparr>] Scoreboard =
   ([Bullet 615 100], [], increase_score Scoreboard)"
    by (simp add: collide_index_def colliderect_def Bullet_def)
  from check_bullets_survivors [OF h] h show ?thesis by simp
qed

lemma level_update_unarmed:
  assumes "level_update l p sb g = (l', p', sb', g')" and "bullets p = []"
  shows "bullets p' = [] \<and>
         length (enemies l') = length (enemies l) + (if length (enemies l) < 5 then 1 else 0)"
proof -
  obtain es g1 l2 where u: "update_enemies (enemies l) g = (es, g1)"
    and c: "check_collisions (l\<lparr>enemies := es\<rparr>) (update_player p) sb = (l2, p', sb')"
    and sp: "spawn_enemies l2 g1 = (l', g')"
    using level_update_stages [OF assms(1)] by blast
  obtain p1 sb1 p2 sb2 bs es2 where
    h1: "(if spritecollideany (update_player p) (enemies (l\<lparr>enemies := es\<rparr>)) \<noteq> None
          then (player_reset (update_player p), decrease_life sb) else (update_player p, sb)) = (p1, sb1)"
    and h2: "(if spritecollideany p1 (obstacles (l\<lparr>enemies := es\<rparr>)) \<noteq> None
          then (player_reset p1, decrease_life sb1) else (p1, sb1)) = (p2, sb2)"
    and h3: "check_bullets (bullets p2) (enemies (l\<lparr>enemies := es\<rparr>)) sb2 = (bs, es2, sb')"
    and res: "l2 = (l\<lparr>enemies := es\<rparr>)\<lparr>enemies := es2\<rparr>" "p' = p2\<lparr>bullets := bs\<rparr>"
    by (rule check_collisions_stages [OF c])
  have "bullets p1 = bullets (update_player p)" "bullets p2 = bullets p1"
    using collision_penalty [OF h1] collision_penalty [OF h2] by blast+
  with assms(2) have "bullets p2 = []" by (simp add: update_player_def)
  with h3 res have "bs = []" "es2 = es" by auto
  moreover from u have "length es = length (enemies l)"
    using update_enemies_length [of "enemies l" g] by simp
  ultimately show ?thesis
    using res sp spawn_enemies_length [of l2 g1] by simp
qed

text \<open>
  C20: The spawn floor is restored: with no bullets in flight, a level with \<open>n\<close>
  enemies has \<open>min 5 (n + t)\<close> of them after \<open>t\<close> ticks, or keeps its \<open>n\<close> if it
  already had 5 or more.
\<close>

theorem level_ticks_refill:
  assumes "bullets p = []"
  shows "length (enemies (fst (level_ticks t l p sb g))) =
           max (length (enemies l)) (min 5 (length (enemies l) + t))"
  using assms
proof (induction t arbitrary: l p sb g)
  case 0
  then show ?case by simp
next
  case (Suc t)
  obtain l' p' sb' g' where lu: "level_update l p sb g = (l', p', sb', g')"
    by (cases "level_update l p sb g")
  from level_update_unarmed [OF lu Suc.prems] have
    b: "bullets p' = []" and
    n: "length (enemies l') = length (enemies l) + (if length (enemies l) < 5 then 1 else 0)"
    by auto
  from Suc.IH [OF b, of l' sb' g'] n lu show ?case by auto
qed

theorem level_ticks_refill_witness:
  "bullets Player = [] \<and>
   length (enemies (fst (level_ticks 3 \<lparr>enemies = [], obstacles = []\<rparr> Player Scoreboard
                          \<lparr>rand_src = (\<lambda>n. 0), rand_pos = 0\<rparr>))) = 3"
proof -
  have b: "bullets Player = []" by (simp add: Player_def)
  from level_ticks_refill [OF b, of 3 "\<lparr>enemies = [], obstacles = []\<rparr>" Scoreboard
                                   "\<lparr>rand_src = (\<lambda>n. 0), rand_pos = 0\<rparr>"] b
  show ?thesis by simp
qed

section \<open>Sizes of the entities a level holds\<close>

lemma make_obstacles_ok: "\<forall>ob \<in> set (fst (make_obstacles n g)). obstacle_ok ob"
  by (induction n arbitrary: g) (simp_all add: split_beta random_obstacle_def Obstacle_ok)

lemma Level_init_obstacles_ok: "\<forall>ob \<in> set (obstacles (fst (Level_init ne no g))). obstacle_ok ob"
  by (simp add: Level_init_def split_beta make_obstacles_ok)

lemma check_bullets_bullets:
  "check_bullets bs es sb = (bs', es', sb') \<Longrightarrow> set bs' \<subseteq> set bs"
proof (induction bs es sb arbitrary: bs' es' sb' rule: check_bullets.induct)
  case (1 es sb)
  then show ?case by auto
next
  case (2 b bs es sb)
  then show ?case by (fastforce split: option.splits prod.splits)
qed

text \<open>The bullets after a level tick are among the bullets that survived \<open>Player.update\<close>.\<close>

lemma level_update_bullets:
  assumes "level_update l p sb g = (l', p', sb', g')"
  shows "set (bullets p') \<subseteq> set (bullets (update_player p))"
proof -
  obtain es g1 l2 where c: "check_collisions (l\<lparr>enemies := es\<rparr>) (update_player p) sb = (l2, p', sb')"
    using level_update_stages [OF assms] by blast
  obtain p1 sb1 p2 sb2 bs es2 where
    h1: "(if spritecollideany (update_player p) (enemies (l\<lparr>enemies := es\<rparr>)) \<noteq> None
          then (player_reset (update_player p), decrease_life sb) else (update_player p, sb)) = (p1, sb1)"
    and h2: "(if spritecollideany p1 (obstacles (l\<lparr>enemies := es\<rparr>)) \<noteq> None
          then (player_reset p1, decrease_life sb1) else (p1, sb1)) = (p2, sb2)"
    and h3: "check_bullets (bullets p2) (enemies (l\<lparr>enemies := es\<rparr>)) sb2 = (bs, es2, sb')"
    and res: "p' = p2\<lparr>bullets := bs\<rparr>"
    by (rule check_collisions_stages [OF c])
  have "bullets p1 = bullets (update_player p)" "bullets p2 = bullets p1"
    using collision_penalty [OF h1] collision_penalty [OF h2] by blast+
  with check_bullets_bullets [OF h3] res show ?thesis by simp
qed

end
