(* ===== verification/Game.thy ===== *)
theory Game
  imports Level
begin

text \<open>
  The \<open>Game\<close> class of src/main.py (lines 24--139) and the program's entry point
  (lines 341--344). One iteration of \<open>Game.run\<close>'s \<open>while self.running\<close> loop is
  \<open>game_iteration\<close>: the event poll (\<open>handle_events\<close>), the play update
  (\<open>play_tick\<close>) and the side effect of \<open>draw\<close> on the game state (the two
  button rects that \<open>display_buttons\<close> stores). The loop itself is \<open>run\<close>, over
  the finite list of frames the environment supplies; each frame is the event queue
  and the keyboard state of that iteration. Rendering, fonts and the clock are not
  state the logic reads and are left out.
\<close>

datatype event = Quit | KeyDown | MouseButtonDown "int \<times> int" | OtherEvent

record frame =
  events :: "event list"
  pressed :: keys

text \<open>The one exception the loop can raise: reading a button attribute before \<open>draw\<close> created it.\<close>

datatype error = AttributeError

record game =
  levels :: "level list"
  current_level_index :: nat
  player :: player
  scoreboard :: scoreboard
  running :: bool
  game_over :: bool
  won :: bool
  show_instructions :: bool
  play_again_button :: "rect option"
  exit_button :: "rect option"
  rng_state :: rng

text \<open>\<open>self.current_level\<close> is an alias of \<open>self.levels[self.current_level_index]\<close>.\<close>

definition current_level :: "game \<Rightarrow> level" where
  "current_level gm = levels gm ! current_level_index gm"

text \<open>
  \<open>Game.__init__\<close> on a fresh object: the three levels are all built here, in order,
  each drawing from the random source. A fresh object has no button attributes yet.
\<close>

definition Game :: "rng \<Rightarrow> game" where
  "Game g0 =
     (let (l1, g1) = Level1 g0;
          (l2, g2) = Level2 g1;
          (l3, g3) = Level3 g2
      in \<lparr>levels = [l1, l2, l3], current_level_index = 0, player = Player,
          scoreboard = Scoreboard, running = True, game_over = False, won = False,
          show_instructions = True, play_again_button = None, exit_button = None,
          rng_state = g3\<rparr>)"

text \<open>
  \<open>Game.reset_game\<close>: \<open>self.__init__()\<close> on the same object, so the button
  attributes of the old state survive, then the instructions are skipped.
\<close>

definition reset_game :: "game \<Rightarrow> game" where
  "reset_game gm =
     (Game (rng_state gm))\<lparr>play_again_button := play_again_button gm,
                            exit_button := exit_button gm,
                            show_instructions := False\<rparr>"

definition PLAY_AGAIN_RECT :: rect where
  "PLAY_AGAIN_RECT = \<lparr>rect_x = SCREEN_WIDTH div 2 - 100, rect_y = SCREEN_HEIGHT div 2 + 50,
                      rect_w = 200, rect_h = 50\<rparr>"

definition EXIT_RECT :: rect where
  "EXIT_RECT = \<lparr>rect_x = SCREEN_WIDTH div 2 - 100, rect_y = SCREEN_HEIGHT div 2 + 120,
                rect_w = 200, rect_h = 50\<rparr>"

text \<open>
  One event of the \<open>for event in pygame.event.get()\<close> loop. The click position is
  the mouse position at the time the event is handled (\<open>pygame.mouse.get_pos()\<close>).
  The exit test reads \<open>self.exit_button\<close> after a possible reset.
\<close>

fun handle_event :: "game \<Rightarrow> event \<Rightarrow> error + game" where
  "handle_event gm Quit = Inr (gm\<lparr>running := False\<rparr>)"
| "handle_event gm KeyDown =
     Inr (if show_instructions gm then gm\<lparr>show_instructions := False\<rparr> else gm)"
| "handle_event gm (MouseButtonDown pos) =
     (if game_over gm \<or> won gm then
        (case play_again_button gm of
           None \<Rightarrow> Inl AttributeError
         | Some pa \<Rightarrow>
             (let gm1 = (if collidepoint pa pos then reset_game gm else gm)
              in case exit_button gm1 of
                   None \<Rightarrow> Inl AttributeError
                 | Some ex \<Rightarrow> Inr (if collidepoint ex pos then gm1\<lparr>running := False\<rparr> else gm1)))
      else Inr gm)"
| "handle_event gm OtherEvent = Inr gm"

fun handle_events :: "game \<Rightarrow> event list \<Rightarrow> error + game" where
  "handle_events gm [] = Inr gm"
| "handle_events gm (ev # evs) =
     (case handle_event gm ev of
        Inl err \<Rightarrow> Inl err
      | Inr gm' \<Rightarrow> handle_events gm' evs)"

text \<open>
  The play update of one iteration (lines 54--67): the keys, the current level's
  update, then the \<open>if/elif\<close> chain: game over first, then the win, then the
  level advances, at most one of them.
\<close>

definition play_tick :: "keys \<Rightarrow> game \<Rightarrow> game" where
  "play_tick k gm =
     (let i = current_level_index gm;
          p1 = handle_keys k (player gm);
          (l', p2, sb', g') = level_update (levels gm ! i) p1 (scoreboard gm) (rng_state gm);
          gm1 = gm\<lparr>levels := (levels gm)[i := l'], player := p2, scoreboard := sb',
                   rng_state := g'\<rparr>
      in if is_game_over sb' then gm1\<lparr>game_over := True\<rparr>
         else if 500 \<le> score sb' then gm1\<lparr>won := True\<rparr>
         else if 300 \<le> score sb' \<and> i = 1
           then gm1\<lparr>current_level_index := Suc i, player := player_reset p2\<rparr>
         else if 100 \<le> score sb' \<and> i = 0
           then gm1\<lparr>current_level_index := Suc i, player := player_reset p2\<rparr>
         else gm1)"

text \<open>
  What \<open>draw\<close> changes in the state: \<open>display_won\<close> and \<open>display_game_over\<close>
  call \<open>display_buttons\<close>, which stores the two button rects.
\<close>

definition draw :: "game \<Rightarrow> game" where
  "draw gm =
     (if show_instructions gm then gm
      else if won gm \<or> game_over gm
        then gm\<lparr>play_again_button := Some PLAY_AGAIN_RECT, exit_button := Some EXIT_RECT\<rparr>
      else gm)"

text \<open>One iteration of the \<open>while self.running\<close> loop.\<close>

definition game_iteration :: "game \<Rightarrow> frame \<Rightarrow> error + game" where
  "game_iteration gm fr =
     (case handle_events gm (events fr) of
        Inl err \<Rightarrow> Inl err
      | Inr gm1 \<Rightarrow>
          (let gm2 = (if \<not> show_instructions gm1 \<and> \<not> game_over gm1 \<and> \<not> won gm1
                      then play_tick (pressed fr) gm1 else gm1)
           in Inr (draw gm2)))"

text \<open>
  \<open>Game.run\<close> over the frames the environment supplies: the loop test comes before
  each iteration; when the input ends, the state reached so far is the result.
\<close>

fun run :: "game \<Rightarrow> frame list \<Rightarrow> error + game" where
  "run gm [] = Inr gm"
| "run gm (fr # frs) =
     (if running gm then
        (case game_iteration gm fr of
           Inl err \<Rightarrow> Inl err
         | Inr gm' \<Rightarrow> run gm' frs)
      else Inr gm)"

text \<open>The entry point: \<open>game = Game(); game.run()\<close>.\<close>

definition main :: "rng \<Rightarrow> frame list \<Rightarrow> error + game" where
  "main g0 frs = run (Game g0) frs"

section \<open>Invariants and reachable states\<close>

text \<open>
  \<open>game_inv\<close> holds at every point of an iteration: three levels, an index in
  range, the player and enemy invariants, no game-over or win screen while the
  instructions show, and the two button attributes either both absent or both at
  their rects. \<open>buttons_ready\<close> holds at the loop head: once the game is over or
  won, the buttons exist, so a click cannot raise \<open>AttributeError\<close>.
\<close>

definition game_inv :: "game \<Rightarrow> bool" where
  "game_inv gm \<longleftrightarrow>
     length (levels gm) = 3 \<and> current_level_index gm < 3 \<and> player_ok (player gm) \<and>
     (\<forall>l \<in> set (levels gm). \<forall>e \<in> set (enemies l). enemy_ok e) \<and>
     (game_over gm \<or> won gm \<longrightarrow> \<not> show_instructions gm) \<and>
     (play_again_button gm, exit_button gm) \<in> {(None, None), (Some PLAY_AGAIN_RECT, Some EXIT_RECT)}"

definition buttons_ready :: "game \<Rightarrow> bool" where
  "buttons_ready gm \<longleftrightarrow> (game_over gm \<or> won gm \<longrightarrow> play_again_button gm \<noteq> None)"

text \<open>The states at the head of the \<open>while\<close> loop.\<close>

inductive reachable :: "game \<Rightarrow> bool" where
  init: "reachable (Game g0)"
| step: "reachable gm \<Longrightarrow> running gm \<Longrightarrow> game_iteration gm fr = Inr gm' \<Longrightarrow> reachable gm'"

section \<open>Lemmas\<close>

lemma play_tick_obtain:
  obtains l' p2 sb' g' where
    "level_update (levels gm ! current_level_index gm) (handle_keys k (player gm))
       (scoreboard gm) (rng_state gm) = (l', p2, sb', g')"
  by (cases "level_update (levels gm ! current_level_index gm) (handle_keys k (player gm))
       (scoreboard gm) (rng_state gm)") auto

lemma Game_fields:
  "length (levels (Game g0)) = 3 \<and> current_level_index (Game g0) = 0 \<and> player (Game g0) = Player \<and>
   scoreboard (Game g0) = Scoreboard \<and> running (Game g0) \<and> \<not> game_over (Game g0) \<and>
   \<not> won (Game g0) \<and> show_instructions (Game g0) \<and>
   play_again_button (Game g0) = None \<and> exit_button (Game g0) = None"
  by (simp add: Game_def split_beta)

lemma Game_levels_ok:
  "\<forall>l \<in> set (levels (Game g0)). \<forall>e \<in> set (enemies l). enemy_ok e"
  by (simp add: Game_def split_beta Level1_def Level2_def Level3_def Level_init_ok)

lemma Game_inv: "game_inv (Game g0)"
  using Game_fields [of g0] Game_levels_ok [of g0]
  by (simp add: game_inv_def Player_ok)

lemma reset_game_inv: "game_inv gm \<Longrightarrow> game_inv (reset_game gm)"
  using Game_fields [of "rng_state gm"] Game_levels_ok [of "rng_state gm"]
  by (auto simp: game_inv_def reset_game_def Player_ok)

lemma reset_game_flags:
  "\<not> game_over (reset_game gm) \<and> \<not> won (reset_game gm) \<and> running (reset_game gm) \<and>
   \<not> show_instructions (reset_game gm)"
  using Game_fields [of "rng_state gm"] by (simp add: reset_game_def)

lemma handle_event_ok:
  assumes "game_inv gm" "buttons_ready gm"
  shows "\<exists>gm'. handle_event gm ev = Inr gm' \<and> game_inv gm' \<and> buttons_ready gm'"
proof (cases ev)
  case (MouseButtonDown pos)
  show ?thesis
  proof (cases "game_over gm \<or> won gm")
    case True
    with assms have pa: "play_again_button gm = Some PLAY_AGAIN_RECT" "exit_button gm = Some EXIT_RECT"
      by (auto simp: game_inv_def buttons_ready_def)
    have "game_inv (if collidepoint PLAY_AGAIN_RECT pos then reset_game gm else gm)"
      using assms(1) reset_game_inv by simp
    moreover have "exit_button (if collidepoint PLAY_AGAIN_RECT pos then reset_game gm else gm) = Some EXIT_RECT"
      using pa by (simp add: reset_game_def)
    moreover have "buttons_ready (if collidepoint PLAY_AGAIN_RECT pos then reset_game gm else gm)"
      using assms(2) reset_game_flags [of gm] by (simp add: buttons_ready_def)
    ultimately show ?thesis using MouseButtonDown True pa
      by (auto simp: game_inv_def buttons_ready_def)
  next
    case False
    with MouseButtonDown assms show ?thesis by simp
  qed
qed (use assms in \<open>auto simp: game_inv_def buttons_ready_def\<close>)

lemma handle_events_ok:
  "game_inv gm \<Longrightarrow> buttons_ready gm \<Longrightarrow>
   \<exists>gm'. handle_events gm evs = Inr gm' \<and> game_inv gm' \<and> buttons_ready gm'"
proof (induction evs arbitrary: gm)
  case Nil
  then show ?case by simp
next
  case (Cons ev evs)
  from handle_event_ok [OF Cons.prems] obtain gm1 where
    "handle_event gm ev = Inr gm1" "game_inv gm1" "buttons_ready gm1" by blast
  with Cons.IH [of gm1] show ?case by simp
qed


lemma play_tick_inv:
  assumes "game_inv gm" "\<not> show_instructions gm"
  shows "game_inv (play_tick k gm)"
proof -
  obtain l' p2 sb' g' where lu: "level_update (levels gm ! current_level_index gm)
      (handle_keys k (player gm)) (scoreboard gm) (rng_state gm) = (l', p2, sb', g')"
    by (rule play_tick_obtain)
  let ?i = "current_level_index gm"
  from assms(1) have i: "?i < length (levels gm)" by (simp add: game_inv_def)
  then have "levels gm ! ?i \<in> set (levels gm)" by simp
  with assms(1) have "\<forall>e \<in> set (enemies (levels gm ! ?i)). enemy_ok e"
    unfolding game_inv_def by blast
  with level_update_ok [OF lu] handle_keys_ok assms(1)
  have ok: "player_ok p2" "\<forall>e \<in> set (enemies l'). enemy_ok e"
    by (simp_all add: game_inv_def)
  have "\<forall>l \<in> set ((levels gm)[?i := l']). \<forall>e \<in> set (enemies l). enemy_ok e"
    using ok(2) assms(1) set_update_subset_insert [of "levels gm" ?i l']
    by (auto simp: game_inv_def)
  with assms ok player_reset_ok [OF ok(1)] show ?thesis
    by (simp add: play_tick_def lu Let_def game_inv_def)
qed

lemma draw_inv: "game_inv gm \<Longrightarrow> game_inv (draw gm) \<and> buttons_ready (draw gm)"
  by (auto simp: draw_def game_inv_def buttons_ready_def)

lemma game_iteration_ok:
  assumes "game_inv gm" "buttons_ready gm"
  shows "\<exists>gm'. game_iteration gm fr = Inr gm' \<and> game_inv gm' \<and> buttons_ready gm'"
proof -
  from handle_events_ok [OF assms] obtain gm1 where
    h: "handle_events gm (events fr) = Inr gm1" "game_inv gm1" by blast
  have "game_inv (if \<not> show_instructions gm1 \<and> \<not> game_over gm1 \<and> \<not> won gm1
                  then play_tick (pressed fr) gm1 else gm1)"
    using h(2) play_tick_inv by simp
  with h(1) draw_inv show ?thesis by (simp add: game_iteration_def)
qed

lemma reachable_inv: "reachable gm \<Longrightarrow> game_inv gm \<and> buttons_ready gm"
proof (induction rule: reachable.induct)
  case (init g0)
  then show ?case using Game_inv Game_fields [of g0] by (simp add: buttons_ready_def)
next
  case (step gm fr gm')
  then show ?case using game_iteration_ok [of gm fr] by auto
qed

lemma run_reachable:
  "reachable gm \<Longrightarrow> \<exists>gm'. run gm frs = Inr gm' \<and> reachable gm'"
proof (induction frs arbitrary: gm)
  case Nil
  then show ?case by simp
next
  case (Cons fr frs)
  show ?case
  proof (cases "running gm")
    case True
    from reachable_inv [OF Cons.prems] game_iteration_ok [of gm fr] obtain gm1 where
      "game_iteration gm fr = Inr gm1" by blast
    moreover from this Cons.prems True have "reachable gm1" by (rule reachable.step [rotated 2])
    ultimately show ?thesis using Cons.IH [of gm1] True by simp
  next
    case False
    with Cons.prems show ?thesis by simp
  qed
qed

lemma play_tick_scoreboard:
  "\<exists>k d. d \<le> 2 \<and> scoreboard (play_tick k' gm) =
     (scoreboard gm)\<lparr>score := score (scoreboard gm) + 10 * int k, lives := lives (scoreboard gm) - int d\<rparr>"
proof -
  obtain l' p2 sb' g' where lu: "level_update (levels gm ! current_level_index gm)
      (handle_keys k' (player gm)) (scoreboard gm) (rng_state gm) = (l', p2, sb', g')"
    by (rule play_tick_obtain)
  obtain es g1 l2 where
    c: "check_collisions ((levels gm ! current_level_index gm)\<lparr>enemies := es\<rparr>)
          (update_player (handle_keys k' (player gm))) (scoreboard gm) = (l2, p2, sb')"
    using level_update_stages [OF lu] by blast
  from check_collisions_counts [OF c] obtain k d where
    "d \<le> 2" "sb' = (scoreboard gm)\<lparr>score := score (scoreboard gm) + 10 * int k,
                                     lives := lives (scoreboard gm) - int d\<rparr>"
    by blast
  moreover have "scoreboard (play_tick k' gm) = sb'"
    by (simp add: play_tick_def lu Let_def)
  ultimately show ?thesis by blast
qed

lemma play_tick_fields:
  "show_instructions (play_tick k gm) = show_instructions gm \<and>
   running (play_tick k gm) = running gm \<and>
   play_again_button (play_tick k gm) = play_again_button gm \<and>
   exit_button (play_tick k gm) = exit_button gm"
proof -
  obtain l' p2 sb' g' where lu: "level_update (levels gm ! current_level_index gm)
      (handle_keys k (player gm)) (scoreboard gm) (rng_state gm) = (l', p2, sb', g')"
    by (rule play_tick_obtain)
  then show ?thesis by (simp add: play_tick_def lu Let_def)
qed

lemma handle_events_append:
  "handle_events gm (xs @ ys) =
     (case handle_events gm xs of Inl err \<Rightarrow> Inl err | Inr gm' \<Rightarrow> handle_events gm' ys)"
  by (induction xs arbitrary: gm) (simp_all split: sum.splits)

lemma draw_fields:
  "running (draw gm) = running gm \<and> levels (draw gm) = levels gm \<and> player (draw gm) = player gm \<and>
   scoreboard (draw gm) = scoreboard gm \<and> show_instructions (draw gm) = show_instructions gm \<and>
   current_level_index (draw gm) = current_level_index gm \<and> game_over (draw gm) = game_over gm \<and>
   won (draw gm) = won gm"
  by (simp add: draw_def)

lemma draw_instructions: "show_instructions gm \<Longrightarrow> draw gm = gm"
  by (simp add: draw_def)

text \<open>While the instructions show and no key is pressed, events touch only the running flag.\<close>

lemma handle_events_instructions:
  assumes "show_instructions gm" "\<not> game_over gm" "\<not> won gm" "KeyDown \<notin> set evs"
    and "handle_events gm evs = Inr gm'"
  shows "show_instructions gm' \<and> \<not> game_over gm' \<and> \<not> won gm' \<and>
         levels gm' = levels gm \<and> player gm' = player gm \<and> scoreboard gm' = scoreboard gm"
  using assms
proof (induction evs arbitrary: gm)
  case Nil
  then show ?case by simp
next
  case (Cons ev evs)
  define r where "r = (if ev = Quit then False else running gm)"
  from Cons.prems have r: "handle_event gm ev = Inr (gm\<lparr>running := r\<rparr>)"
    by (cases ev) (simp_all add: r_def)
  with Cons.prems have "handle_events (gm\<lparr>running := r\<rparr>) evs = Inr gm'" by simp
  with Cons.IH [of "gm\<lparr>running := r\<rparr>"] Cons.prems show ?case by simp
qed

lemma handle_event_scoreboard:
  "handle_event gm ev = Inr gm' \<Longrightarrow>
   scoreboard gm' = scoreboard gm \<or> scoreboard gm' = Scoreboard"
  using Game_fields [of "rng_state gm"]
  by (cases ev) (auto simp: reset_game_def Let_def split: option.splits if_splits)

end
