(* ===== verification/Game_Invariants.thy ===== *)
theory Game_Invariants
  imports Game
begin

text \<open>
  Invariants of the game session beyond \<open>game_inv\<close>: how the scoreboard, the
  game-over and win flags and the level index of \<open>Game\<close> (src/main.py lines
  24--67) relate at the head of the \<open>while self.running\<close> loop
  (\<open>session_inv\<close>), and that every sprite the game holds has the size and speed
  its class gives it (\<open>sprites_ok\<close>). Both are read off the part of the state the
  play update uses (\<open>play_state\<close>), so every operation that leaves that part alone
  keeps them.
\<close>

definition play_state ::
  "game \<Rightarrow> level list \<times> nat \<times> player \<times> scoreboard \<times> bool \<times> bool" where
  "play_state gm = (levels gm, current_level_index gm, player gm, scoreboard gm, game_over gm, won gm)"

text \<open>
  \<open>session_inv\<close>: the lives stay in \<open>[-1, 3]\<close>, the score is a non-negative
  multiple of 10, the game is over exactly when no life is left, a won game has 500
  points and is not over, and a game still in play has fewer than 500 points and has
  left the first level once it has 100.
\<close>

definition session_inv :: "game \<Rightarrow> bool" where
  "session_inv gm \<longleftrightarrow>
     -1 \<le> lives (scoreboard gm) \<and> lives (scoreboard gm) \<le> 3 \<and>
     0 \<le> score (scoreboard gm) \<and> 10 dvd score (scoreboard gm) \<and>
     (game_over gm \<longleftrightarrow> lives (scoreboard gm) \<le> 0) \<and>
     (won gm \<longrightarrow> 500 \<le> score (scoreboard gm) \<and> \<not> game_over gm) \<and>
     (\<not> game_over gm \<and> \<not> won gm \<longrightarrow>
        score (scoreboard gm) < 500 \<and> (100 \<le> score (scoreboard gm) \<longrightarrow> 1 \<le> current_level_index gm))"

definition sprites_ok :: "game \<Rightarrow> bool" where
  "sprites_ok gm \<longleftrightarrow>
     (\<forall>b \<in> set (bullets (player gm)). bullet_ok b) \<and>
     (\<forall>l \<in> set (levels gm). \<forall>ob \<in> set (obstacles l). obstacle_ok ob)"

section \<open>Operations that keep the play state\<close>

lemma play_state_invs:
  "play_state gm' = play_state gm \<Longrightarrow> session_inv gm' = session_inv gm \<and> sprites_ok gm' = sprites_ok gm"
  by (simp add: play_state_def session_inv_def sprites_ok_def)

lemma Game_session_inv: "session_inv (Game g0) \<and> sprites_ok (Game g0)"
proof -
  have "\<forall>l \<in> set (levels (Game g0)). \<forall>ob \<in> set (obstacles l). obstacle_ok ob"
    by (simp add: Game_def split_beta Level1_def Level2_def Level3_def Level_init_obstacles_ok)
  then show ?thesis using Game_fields [of g0]
    by (simp add: session_inv_def sprites_ok_def Scoreboard_def Player_def)
qed

lemma play_state_flags [simp]:
  "play_state (gm\<lparr>running := r\<rparr>) = play_state gm"
  "play_state (gm\<lparr>show_instructions := s\<rparr>) = play_state gm"
  by (simp_all add: play_state_def)

lemma reset_game_play_state [simp]: "play_state (reset_game gm) = play_state (Game (rng_state gm))"
  by (simp add: play_state_def reset_game_def)

text \<open>An event leaves the play state alone or replaces it by a fresh game's.\<close>

lemma handle_event_play_state:
  "handle_event gm ev = Inr gm' \<Longrightarrow>
   play_state gm' = play_state gm \<or> play_state gm' = play_state (Game (rng_state gm))"
  by (cases ev) (auto simp: Let_def split: option.splits if_splits)

lemma handle_events_session_inv:
  "handle_events gm evs = Inr gm' \<Longrightarrow> session_inv gm \<Longrightarrow> sprites_ok gm \<Longrightarrow>
   session_inv gm' \<and> sprites_ok gm'"
proof (induction evs arbitrary: gm)
  case Nil
  then show ?case by simp
next
  case (Cons ev evs)
  then obtain gm1 where h: "handle_event gm ev = Inr gm1" "handle_events gm1 evs = Inr gm'"
    by (auto split: sum.splits)
  from handle_event_play_state [OF h(1)] Cons.prems(2,3) Game_session_inv [of "rng_state gm"]
  have "session_inv gm1 \<and> sprites_ok gm1" using play_state_invs by metis
  with Cons.IH [OF h(2)] show ?case by blast
qed

lemma draw_play_state: "play_state (draw gm) = play_state gm"
  by (simp add: play_state_def draw_def)

section \<open>The play update\<close>

lemma handle_keys_bullets_ok:
  "\<forall>b \<in> set (bullets p). bullet_ok b \<Longrightarrow> \<forall>b \<in> set (bullets (handle_keys k p)). bullet_ok b"
  by (simp add: handle_keys_def Let_def shooter_defs bullet_ok_def)

lemma update_player_bullets_ok:
  "\<forall>b \<in> set (bullets p). bullet_ok b \<Longrightarrow> \<forall>b \<in> set (bullets (update_player p)). bullet_ok b"
  using bullet_update_ok by (fastforce simp: update_player_def in_set_map_filter)

lemma play_tick_session_inv:
  assumes "session_inv gm" "\<not> game_over gm" "\<not> won gm"
  shows "session_inv (play_tick k gm)"
proof -
  obtain l' p2 sb' g' where lu: "level_update (levels gm ! current_level_index gm)
      (handle_keys k (player gm)) (scoreboard gm) (rng_state gm) = (l', p2, sb', g')"
    by (rule play_tick_obtain)
  obtain n d where d: "d \<le> 2" and sb: "scoreboard (play_tick k gm) =
      (scoreboard gm)\<lparr>score := score (scoreboard gm) + 10 * int n, lives := lives (scoreboard gm) - int d\<rparr>"
    using play_tick_scoreboard [of k gm] by blast
  have "sb' = scoreboard (play_tick k gm)" by (simp add: play_tick_def lu Let_def)
  with sb have sb': "score sb' = score (scoreboard gm) + 10 * int n"
    "lives sb' = lives (scoreboard gm) - int d" by simp_all
  from assms(1,2) have "1 \<le> lives (scoreboard gm)" "lives (scoreboard gm) \<le> 3"
    "0 \<le> score (scoreboard gm)" "10 dvd score (scoreboard gm)"
    by (auto simp: session_inv_def)
  with d sb' have b: "-1 \<le> lives sb'" "lives sb' \<le> 3" "0 \<le> score sb'" "10 dvd score sb'"
    by auto
  from assms have "100 \<le> score (scoreboard gm) \<longrightarrow> 1 \<le> current_level_index gm"
    by (simp add: session_inv_def)
  with assms(2,3) b sb' show ?thesis
    by (auto simp: play_tick_def lu Let_def session_inv_def is_game_over_def)
qed

lemma play_tick_sprites_ok:
  assumes "sprites_ok gm" "game_inv gm"
  shows "sprites_ok (play_tick k gm)"
proof -
  obtain l' p2 sb' g' where lu: "level_update (levels gm ! current_level_index gm)
      (handle_keys k (player gm)) (scoreboard gm) (rng_state gm) = (l', p2, sb', g')"
    by (rule play_tick_obtain)
  let ?i = "current_level_index gm"
  from assms(2) have i: "?i < length (levels gm)" and ok: "player_ok (player gm)"
    and es: "\<forall>e \<in> set (enemies (levels gm ! ?i)). enemy_ok e"
    by (auto simp: game_inv_def)
  from level_update_ok [OF lu handle_keys_ok [OF ok] es] have "obstacles l' = obstacles (levels gm ! ?i)"
    by simp
  with i assms(1) have obs: "\<forall>l \<in> set ((levels gm)[?i := l']). \<forall>ob \<in> set (obstacles l). obstacle_ok ob"
    using set_update_subset_insert [of "levels gm" ?i l'] by (force simp: sprites_ok_def)
  from assms(1) have "\<forall>b \<in> set (bullets (player gm)). bullet_ok b" by (simp add: sprites_ok_def)
  from update_player_bullets_ok [OF handle_keys_bullets_ok [OF this]]
  have "\<forall>b \<in> set (bullets (update_player (handle_keys k (player gm)))). bullet_ok b" .
  with level_update_bullets [OF lu] have "\<forall>b \<in> set (bullets p2). bullet_ok b" by blast
  with obs show ?thesis
    by (simp add: play_tick_def lu Let_def sprites_ok_def player_reset_def)
qed

section \<open>Reachable states\<close>

lemma game_iteration_session_inv:
  assumes "game_inv gm" "buttons_ready gm" "session_inv gm" "sprites_ok gm"
    and "game_iteration gm fr = Inr gm'"
  shows "session_inv gm' \<and> sprites_ok gm'"
proof -
  from handle_events_ok [OF assms(1,2)] obtain gm1 where
    h: "handle_events gm (events fr) = Inr gm1" "game_inv gm1" by blast
  from handle_events_session_inv [OF h(1) assms(3,4)] have s: "session_inv gm1" "sprites_ok gm1"
    by simp_all
  let ?gm2 = "if \<not> show_instructions gm1 \<and> \<not> game_over gm1 \<and> \<not> won gm1
              then play_tick (pressed fr) gm1 else gm1"
  have "session_inv ?gm2 \<and> sprites_ok ?gm2"
    using s h(2) play_tick_session_inv play_tick_sprites_ok by simp
  moreover from assms(5) h(1) have "gm' = draw ?gm2" by (simp add: game_iteration_def)
  ultimately show ?thesis using play_state_invs [OF draw_play_state] by simp
qed

lemma reachable_session_inv: "reachable gm \<Longrightarrow> session_inv gm \<and> sprites_ok gm"
proof (induction rule: reachable.induct)
  case (init g0)
  then show ?case by (rule Game_session_inv)
next
  case (step gm fr gm')
  with reachable_inv [OF step.hyps(1)] show ?case
    using game_iteration_session_inv by blast
qed

section \<open>Properties of every reachable state\<close>

text \<open>
  C25: At the head of the game loop the lives stay within \<open>[-1, 3]\<close> and the score
  is a non-negative multiple of 10. The bound admits \<open>-1\<close>, not only \<open>0\<close>: one
  collision step can cost two lives (C21), also when only one is left.
\<close>

theorem reachable_scoreboard_bounds:
  assumes "reachable gm"
  shows "-1 \<le> lives (scoreboard gm) \<and> lives (scoreboard gm) \<le> 3 \<and>
         0 \<le> score (scoreboard gm) \<and> 10 dvd score (scoreboard gm)"
  using reachable_session_inv [OF assms] by (simp add: session_inv_def)

theorem reachable_scoreboard_bounds_witness:
  "reachable (Game \<lparr>rand_src = (\<lambda>n. 0), rand_pos = 0\<rparr>) \<and>
   -1 \<le> lives (scoreboard (Game \<lparr>rand_src = (\<lambda>n. 0), rand_pos = 0\<rparr>))"
  using reachable_scoreboard_bounds [OF reachable.init] reachable.init by blast

text \<open>
  C26: The outcome flags agree with the scoreboard at the head of the loop: the game is
  over exactly when no life is left; a won game has at least 500 points and is not
  over; a game still in play has fewer than 500 points and, once it has 100, is past
  the first level.
\<close>

theorem reachable_outcome:
  assumes "reachable gm"
  shows "(game_over gm \<longleftrightarrow> lives (scoreboard gm) \<le> 0) \<and>
         (won gm \<longrightarrow> 500 \<le> score (scoreboard gm) \<and> \<not> game_over gm) \<and>
         (\<not> game_over gm \<and> \<not> won gm \<longrightarrow>
            score (scoreboard gm) < 500 \<and> (100 \<le> score (scoreboard gm) \<longrightarrow> 1 \<le> current_level_index gm))"
  using reachable_session_inv [OF assms] by (auto simp: session_inv_def)

theorem reachable_outcome_witness:
  "reachable (Game \<lparr>rand_src = (\<lambda>n. 0), rand_pos = 0\<rparr>) \<and>
   \<not> game_over (Game \<lparr>rand_src = (\<lambda>n. 0), rand_pos = 0\<rparr>) \<and>
   score (scoreboard (Game \<lparr>rand_src = (\<lambda>n. 0), rand_pos = 0\<rparr>)) < 500"
proof -
  have r: "reachable (Game \<lparr>rand_src = (\<lambda>n. 0), rand_pos = 0\<rparr>)" by (rule reachable.init)
  from reachable_outcome [OF r] r Game_fields [of "\<lparr>rand_src = (\<lambda>n. 0), rand_pos = 0\<rparr>"]
  show ?thesis by simp
qed

text \<open>
  C27: Every sprite of a reachable state has the size and speed of its class: the
  player is 50x50 with speed 5, every bullet 10x20 with speed 7, every enemy of every
  level 50x50 with a speed in \<open>[1, 3]\<close>, every obstacle 100x30.
\<close>

theorem reachable_sprite_types:
  assumes "reachable gm"
  shows "rect_w (srect (player gm)) = 50 \<and> rect_h (srect (player gm)) = 50 \<and> p_speed (player gm) = 5 \<and>
         (\<forall>b \<in> set (bullets (player gm)). bullet_ok b) \<and>
         (\<forall>l \<in> set (levels gm). (\<forall>e \<in> set (enemies l). enemy_ok e) \<and>
                               (\<forall>ob \<in> set (obstacles l). obstacle_ok ob))"
  using reachable_inv [OF assms] reachable_session_inv [OF assms]
  by (simp add: game_inv_def player_ok_def sprites_ok_def)

theorem reachable_sprite_types_witness:
  "reachable (Game \<lparr>rand_src = (\<lambda>n. 0), rand_pos = 0\<rparr>) \<and>
   p_speed (player (Game \<lparr>rand_src = (\<lambda>n. 0), rand_pos = 0\<rparr>)) = 5"
  using reachable_sprite_types [OF reachable.init] reachable.init by blast

end
