(* ===== verification/Controller.thy ===== *)
theory Controller
  imports Game_Invariants
begin

text \<open>
  The top-level state machine of the game as an abstract specification, and the
  refinement of it by the loop of \<open>Game.run\<close> (src/main.py lines 37--85). The
  abstract state is the screen the game is on with the level index; the screen is
  read off the game state the way \<open>Game.draw\<close> chooses what to paint (lines
  74--84). The abstract steps are the transitions of the controller: any key leaves
  the instructions, a level advance, losing, winning, and "play again" from either
  end screen back to the first level. One iteration of the concrete loop is a
  sequence of abstract steps, and one play update at most one.
\<close>

datatype mode = ShowingInstructions | Playing | GameOver | Won

text \<open>The branch \<open>Game.draw\<close> takes: instructions first, then the win screen, then game over.\<close>

definition mode_of :: "game \<Rightarrow> mode" where
  "mode_of gm =
     (if show_instructions gm then ShowingInstructions
      else if won gm then Won
      else if game_over gm then GameOver
      else Playing)"

type_synonym ctrl = "mode \<times> nat"

definition abs_ctrl :: "game \<Rightarrow> ctrl" where
  "abs_ctrl gm = (mode_of gm, current_level_index gm)"

inductive ctrl_step :: "ctrl \<Rightarrow> ctrl \<Rightarrow> bool" where
  start: "ctrl_step (ShowingInstructions, i) (Playing, i)"
| advance: "i < 2 \<Longrightarrow> ctrl_step (Playing, i) (Playing, Suc i)"
| lose: "ctrl_step (Playing, i) (GameOver, i)"
| win: "ctrl_step (Playing, i) (Won, i)"
| again: "m = GameOver \<or> m = Won \<Longrightarrow> ctrl_step (m, i) (Playing, 0)"

inductive_cases ctrl_step_from_GameOver: "ctrl_step (GameOver, i) t"
inductive_cases ctrl_step_from_Won: "ctrl_step (Won, i) t"
inductive_simps ctrl_step_to_instructions: "ctrl_step s (ShowingInstructions, j)"

section \<open>The abstract machine\<close>

lemma ctrl_step_not_instructions: "\<not> ctrl_step s (ShowingInstructions, j)"
  by (simp add: ctrl_step_to_instructions)

lemma ctrl_steps_not_instructions:
  "ctrl_step\<^sup>*\<^sup>* s t \<Longrightarrow> fst s \<noteq> ShowingInstructions \<Longrightarrow> fst t \<noteq> ShowingInstructions"
  by (induction rule: rtranclp_induct) (auto simp: ctrl_step_to_instructions)

text \<open>An end screen is left only by "play again", which restarts at the first level.\<close>

lemma ctrl_step_end_screen:
  "ctrl_step (m, i) t \<Longrightarrow> m = GameOver \<or> m = Won \<Longrightarrow> t = (Playing, 0)"
  by (auto elim: ctrl_step_from_GameOver ctrl_step_from_Won)

section \<open>Simulation\<close>

lemma mode_of_instructions: "mode_of gm = ShowingInstructions \<longleftrightarrow> show_instructions gm"
  by (simp add: mode_of_def)

lemma abs_ctrl_flags [simp]:
  "abs_ctrl (gm\<lparr>running := r\<rparr>) = abs_ctrl gm"
  by (simp add: abs_ctrl_def mode_of_def)

lemma abs_ctrl_draw [simp]: "abs_ctrl (draw gm) = abs_ctrl gm"
  by (simp add: abs_ctrl_def mode_of_def draw_fields)

lemma abs_ctrl_reset_game: "abs_ctrl (reset_game gm) = (Playing, 0)"
  using reset_game_flags [of gm] Game_fields [of "rng_state gm"]
  by (simp add: abs_ctrl_def mode_of_def reset_game_def)

text \<open>One event is at most one abstract step.\<close>

lemma handle_event_sim:
  assumes "game_inv gm" "handle_event gm ev = Inr gm'"
  shows "abs_ctrl gm' = abs_ctrl gm \<or> ctrl_step (abs_ctrl gm) (abs_ctrl gm')"
proof (cases ev)
  case KeyDown
  with assms show ?thesis
    by (auto simp: abs_ctrl_def mode_of_def game_inv_def intro: ctrl_step.start)
next
  case (MouseButtonDown pos)
  show ?thesis
  proof (cases "game_over gm \<or> won gm")
    case True
    with assms(1) have "mode_of gm = GameOver \<or> mode_of gm = Won"
      by (auto simp: mode_of_def game_inv_def)
    then have "ctrl_step (abs_ctrl gm) (Playing, 0)"
      by (auto simp: abs_ctrl_def intro: ctrl_step.again)
    then have "ctrl_step (abs_ctrl gm) (abs_ctrl (reset_game gm))"
      by (simp add: abs_ctrl_reset_game)
    with assms(2) MouseButtonDown True show ?thesis
      by (auto simp: Let_def split: option.splits if_splits)
  next
    case False
    with assms(2) MouseButtonDown show ?thesis by simp
  qed
qed (use assms in auto)

lemma handle_events_sim:
  "game_inv gm \<Longrightarrow> buttons_ready gm \<Longrightarrow> handle_events gm evs = Inr gm' \<Longrightarrow>
   ctrl_step\<^sup>*\<^sup>* (abs_ctrl gm) (abs_ctrl gm')"
proof (induction evs arbitrary: gm)
  case Nil
  then show ?case by simp
next
  case (Cons ev evs)
  from handle_event_ok [OF Cons.prems(1,2), of ev] obtain gm1 where
    h: "handle_event gm ev = Inr gm1" "game_inv gm1" "buttons_ready gm1" by blast
  with Cons.prems(3) have "handle_events gm1 evs = Inr gm'" by simp
  with Cons.IH [OF h(2,3)] handle_event_sim [OF Cons.prems(1) h(1)] show ?case
    by (auto intro: converse_rtranclp_into_rtranclp)
qed

text \<open>
  One play update is at most one abstract step: the \<open>if/elif\<close> chain of lines
  56--67 fires at most one of game over, win and level advance.
\<close>

lemma play_tick_sim:
  assumes "game_inv gm" "mode_of gm = Playing"
  shows "abs_ctrl (play_tick k gm) = abs_ctrl gm \<or> ctrl_step (abs_ctrl gm) (abs_ctrl (play_tick k gm))"
proof -
  obtain l' p2 sb' g' where lu: "level_update (levels gm ! current_level_index gm)
      (handle_keys k (player gm)) (scoreboard gm) (rng_state gm) = (l', p2, sb', g')"
    by (rule play_tick_obtain)
  from assms(2) have f: "\<not> show_instructions gm" "\<not> won gm" "\<not> game_over gm"
    by (auto simp: mode_of_def split: if_splits)
  then show ?thesis
    by (auto simp: play_tick_def lu Let_def abs_ctrl_def mode_of_def assms(2)
             intro: ctrl_step.intros)
qed

lemma game_iteration_sim:
  assumes "game_inv gm" "buttons_ready gm" "game_iteration gm fr = Inr gm'"
  shows "ctrl_step\<^sup>*\<^sup>* (abs_ctrl gm) (abs_ctrl gm')"
proof -
  from handle_events_ok [OF assms(1,2)] obtain gm1 where
    h: "handle_events gm (events fr) = Inr gm1" "game_inv gm1" "buttons_ready gm1" by blast
  let ?gm2 = "if \<not> show_instructions gm1 \<and> \<not> game_over gm1 \<and> \<not> won gm1
              then play_tick (pressed fr) gm1 else gm1"
  have "ctrl_step\<^sup>*\<^sup>* (abs_ctrl gm1) (abs_ctrl ?gm2)"
  proof (cases "\<not> show_instructions gm1 \<and> \<not> game_over gm1 \<and> \<not> won gm1")
    case True
    then have "mode_of gm1 = Playing" by (simp add: mode_of_def)
    from play_tick_sim [OF h(2) this, of "pressed fr"] True show ?thesis by auto
  qed auto
  moreover from assms(3) h(1) have "gm' = draw ?gm2" by (simp add: game_iteration_def)
  ultimately show ?thesis
    using handle_events_sim [OF assms(1,2) h(1)] by simp
qed

lemma run_sim:
  "reachable gm \<Longrightarrow> run gm frs = Inr gm' \<Longrightarrow> ctrl_step\<^sup>*\<^sup>* (abs_ctrl gm) (abs_ctrl gm')"
proof (induction frs arbitrary: gm)
  case Nil
  then show ?case by simp
next
  case (Cons fr frs)
  show ?case
  proof (cases "running gm")
    case True
    from reachable_inv [OF Cons.prems(1)] game_iteration_ok [of gm fr] obtain gm1 where
      it: "game_iteration gm fr = Inr gm1" by blast
    with Cons.prems(2) True have r: "run gm1 frs = Inr gm'" by simp
    from Cons.prems(1) True it have "reachable gm1" by (rule reachable.step)
    from Cons.IH [OF this r] game_iteration_sim [OF _ _ it] reachable_inv [OF Cons.prems(1)]
    show ?thesis by (auto intro: rtranclp_trans)
  next
    case False
    with Cons.prems show ?thesis by simp
  qed
qed

lemma abs_ctrl_Game: "abs_ctrl (Game g0) = (ShowingInstructions, 0)"
  using Game_fields [of g0] by (simp add: abs_ctrl_def mode_of_def)

text \<open>Nothing steps into the instructions screen, so a run that ends there started there and stayed.\<close>

lemma ctrl_steps_to_instructions:
  "ctrl_step\<^sup>*\<^sup>* s (ShowingInstructions, j) \<Longrightarrow> s = (ShowingInstructions, j)"
  by (erule rtranclp.cases) (auto simp: ctrl_step_to_instructions)

section \<open>Refinement\<close>

text \<open>
  C28: The program refines the controller specification: whatever frames the
  environment supplies, if \<open>Game().run()\<close> returns, the screen and level it ends on
  are reached from the instructions screen at the first level by the transitions of
  the state machine (start, level advance, lose, win, play again), and nothing else.
\<close>

theorem main_refines:
  assumes "main g0 frs = Inr gm"
  shows "ctrl_step\<^sup>*\<^sup>* (ShowingInstructions, 0) (abs_ctrl gm)"
  using run_sim [OF reachable.init assms [unfolded main_def]] by (simp add: abs_ctrl_Game)

theorem main_refines_witness:
  "main \<lparr>rand_src = (\<lambda>n. 0), rand_pos = 0\<rparr>
     [\<lparr>events = [KeyDown, Quit], pressed = \<lparr>key_left = False, key_right = False, key_up = False,
                                           key_down = False, key_space = False\<rparr>\<rparr>] =
     Inr (draw (play_tick \<lparr>key_left = False, key_right = False, key_up = False, key_down = False,
                            key_space = False\<rparr>
                 ((Game \<lparr>rand_src = (\<lambda>n. 0), rand_pos = 0\<rparr>)\<lparr>show_instructions := False, running := False\<rparr>))) \<and>
   ctrl_step\<^sup>*\<^sup>* (ShowingInstructions, 0)
     (abs_ctrl (draw (play_tick \<lparr>key_left = False, key_right = False, key_up = False, key_down = False,
                                 key_space = False\<rparr>
                 ((Game \<lparr>rand_src = (\<lambda>n. 0), rand_pos = 0\<rparr>)\<lparr>show_instructions := False, running := False\<rparr>))))"
proof -
  let ?g = "\<lparr>rand_src = (\<lambda>n. 0 :: int), rand_pos = 0\<rparr>"
  let ?k = "\<lparr>key_left = False, key_right = False, key_up = False, key_down = False, key_space = False\<rparr>"
  have m: "main ?g [\<lparr>events = [KeyDown, Quit], pressed = ?k\<rparr>] =
           Inr (draw (play_tick ?k ((Game ?g)\<lparr>show_instructions := False, running := False\<rparr>)))"
    using Game_fields [of ?g] play_tick_fields [of ?k "(Game ?g)\<lparr>show_instructions := False, running := False\<rparr>"]
    by (simp add: main_def game_iteration_def draw_fields)
  from main_refines [OF m] m show ?thesis by simp
qed

text \<open>
  C29: The instructions screen is shown only at the start: a run from a reachable
  state that ends on the instructions screen started on it, at the same level, so a
  game that has left the instructions (by a key or by "play again") never shows them
  again.
\<close>

theorem run_instructions_only_at_start:
  assumes "reachable gm" "run gm frs = Inr gm'" "show_instructions gm'"
  shows "show_instructions gm \<and> current_level_index gm' = current_level_index gm"
proof -
  from assms(3) have "abs_ctrl gm' = (ShowingInstructions, current_level_index gm')"
    by (simp add: abs_ctrl_def mode_of_def)
  with run_sim [OF assms(1,2)] have "abs_ctrl gm = (ShowingInstructions, current_level_index gm')"
    using ctrl_steps_to_instructions by metis
  then show ?thesis by (auto simp: abs_ctrl_def mode_of_instructions [symmetric])
qed

theorem run_instructions_only_at_start_witness:
  "reachable (Game \<lparr>rand_src = (\<lambda>n. 0), rand_pos = 0\<rparr>) \<and>
   run (Game \<lparr>rand_src = (\<lambda>n. 0), rand_pos = 0\<rparr>)
     [\<lparr>events = [MouseButtonDown (400, 375)], pressed = \<lparr>key_left = False, key_right = False,
        key_up = False, key_down = False, key_space = True\<rparr>\<rparr>] = Inr (Game \<lparr>rand_src = (\<lambda>n. 0), rand_pos = 0\<rparr>) \<and>
   show_instructions (Game \<lparr>rand_src = (\<lambda>n. 0), rand_pos = 0\<rparr>)"
proof -
  let ?g = "\<lparr>rand_src = (\<lambda>n. 0 :: int), rand_pos = 0\<rparr>"
  let ?fr = "\<lparr>events = [MouseButtonDown (400, 375)], pressed = \<lparr>key_left = False, key_right = False,
              key_up = False, key_down = False, key_space = True\<rparr>\<rparr>"
  have r: "reachable (Game ?g)" by (rule reachable.init)
  have run: "run (Game ?g) [?fr] = Inr (Game ?g)"
    using Game_fields [of ?g] by (simp add: game_iteration_def draw_def)
  have s: "show_instructions (Game ?g)" using Game_fields [of ?g] by simp
  from run_instructions_only_at_start [OF r run s] r run s show ?thesis by simp
qed

end
