(* ===== verification/Bullet_Loop.thy ===== *)
theory Bullet_Loop
  imports Level
begin

text \<open>
  The bullet loop of \<open>Level.check_collisions\<close> (src/main.py lines 255--260) read
  the way Python runs it, as a reference for \<open>check_bullets\<close>. The \<open>for\<close>
  statement walks a snapshot of \<open>player.bullets\<close> (a pygame group iterates a copy
  of its member list) while the loop body mutates the live groups: \<open>bullet.kill()\<close>
  and \<open>enemy_hit.kill()\<close> remove those sprites from the live bullet and enemy groups,
  and the score grows. \<open>bullet_loop\<close> is that loop as a fold over the snapshot with
  the live groups in its state; \<open>check_bullets\<close> is the recursive formulation the
  rest of the development uses. They agree on every input.
\<close>

definition bullet_loop_body ::
  "bullet \<Rightarrow> bullet list \<times> enemy list \<times> scoreboard \<Rightarrow> bullet list \<times> enemy list \<times> scoreboard" where
  "bullet_loop_body b st =
     (case st of (live, es, sb) \<Rightarrow>
        (case spritecollideany b es of
           None \<Rightarrow> (live, es, sb)
         | Some e \<Rightarrow> (remove1 b live, remove1 e es, increase_score sb)))"

definition bullet_loop :: "bullet list \<Rightarrow> enemy list \<Rightarrow> scoreboard \<Rightarrow> bullet list \<times> enemy list \<times> scoreboard" where
  "bullet_loop bs es sb = fold bullet_loop_body bs (bs, es, sb)"

section \<open>Equivalence with the recursive model\<close>

text \<open>
  The loop invariant: the live bullet group is the bullets of the snapshot already
  walked that missed, followed by the bullets still to walk. A bullet that missed the
  enemies then also misses the fewer enemies left later, so it differs from every
  bullet that hits, and \<open>remove1\<close> of a hitting bullet removes that bullet.
\<close>

lemma bullet_loop_fold:
  assumes "\<forall>k \<in> set kept. collide_index k es = None"
  shows "fold bullet_loop_body rest (kept @ rest, es, sb) =
           (case check_bullets rest es sb of (bs', es', sb') \<Rightarrow> (kept @ bs', es', sb'))"
  using assms
proof (induction rest arbitrary: kept es sb)
  case Nil
  then show ?case by simp
next
  case (Cons b rest)
  show ?case
  proof (cases "collide_index b es")
    case None
    then have "bullet_loop_body b (kept @ b # rest, es, sb) = ((kept @ [b]) @ rest, es, sb)"
      by (simp add: bullet_loop_body_def spritecollideany_collide_index)
    moreover have "\<forall>k \<in> set (kept @ [b]). collide_index k es = None"
      using Cons.prems None by simp
    ultimately show ?thesis
      using Cons.IH [of "kept @ [b]" es sb] None by (simp split: prod.splits)
  next
    case (Some i)
    from first_index_Some [OF Some [unfolded collide_index_def]]
    have hit: "\<exists>e \<in> set es. colliderect (srect b) (srect e)" by auto
    with Cons.prems have "b \<notin> set kept" by (auto simp: collide_index_def)
    then have live: "remove1 b (kept @ b # rest) = kept @ rest" by (simp add: remove1_append)
    from Some have "remove1 (es ! i) es = remove_at i es"
      by (simp add: collide_index_def remove1_first_index)
    with Some live have "bullet_loop_body b (kept @ b # rest, es, sb) =
                           (kept @ rest, remove_at i es, increase_score sb)"
      by (simp add: bullet_loop_body_def spritecollideany_collide_index)
    moreover have "\<forall>k \<in> set kept. collide_index k (remove_at i es) = None"
      using Cons.prems set_remove_at_subset [of i es] by (auto simp: collide_index_def)
    ultimately show ?thesis
      using Cons.IH [of kept "remove_at i es" "increase_score sb"] Some by simp
  qed
qed

text \<open>
  C30: The recursive model of the bullet loop is equivalent to the loop as Python runs
  it (a walk over a snapshot of the bullet group that kills sprites in the live
  groups): same surviving bullets in the same order, same surviving enemies, same
  scoreboard.
\<close>

theorem bullet_loop_eq_check_bullets: "bullet_loop bs es sb = check_bullets bs es sb"
  using bullet_loop_fold [of "[]" es bs sb] by (simp add: bullet_loop_def split: prod.splits)

end
