(* ===== verification/Render.thy ===== *)
theory Render
  imports Game_Invariants
begin

text \<open>
  What the program paints (src/main.py lines 11--17, 72--135, 152--155, 177--179,
  189--190, 211--215, 227--228, 268--271, 331--335). A frame is the list of calls
  made on the screen surface, in order: fills, blits of an image or of a rendered
  text at a position, rectangles, and the final flip. Images are surfaces with their
  size, background and the shapes drawn on them; the font is an opaque renderer, so a
  rendered text is the string and its colour. \<open>str_int\<close> is Python's \<open>str\<close> of an
  integer, as the f-strings of the score, lives and level texts use it.
\<close>

type_synonym color = "nat \<times> nat \<times> nat"

definition WHITE :: color where "WHITE = (255, 255, 255)"
definition BLACK :: color where "BLACK = (0, 0, 0)"
definition RED :: color where "RED = (255, 0, 0)"
definition GREEN :: color where "GREEN = (0, 255, 0)"
definition BLUE :: color where "BLUE = (0, 0, 255)"
definition GRAY :: color where "GRAY = (169, 169, 169)"

datatype shape = Polygon color "(int \<times> int) list" | Circle color "int \<times> int" int | Box color rect

text \<open>A surface: its size, its background (\<open>None\<close> for a transparent \<open>SRCALPHA\<close> surface) and what was drawn on it.\<close>

record surface =
  surf_size :: "int \<times> int"
  surf_fill :: "color option"
  surf_shapes :: "shape list"

datatype picture = Image surface | Text string color

datatype draw_op = Fill color | Blit picture "int \<times> int" | Draw_rect color rect | Flip

section \<open>Images of the sprites\<close>

definition create_rocket :: surface where
  "create_rocket = \<lparr>surf_size = (50, 50), surf_fill = None,
                    surf_shapes = [Polygon BLUE [(25, 0), (50, 50), (0, 50)]]\<rparr>"

definition create_bomb :: surface where
  "create_bomb = \<lparr>surf_size = (50, 50), surf_fill = None,
                  surf_shapes = [Circle RED (25, 25) 25,
                                 Box BLACK \<lparr>rect_x = 20, rect_y = 0, rect_w = 10, rect_h = 20\<rparr>]\<rparr>"

definition bullet_image :: surface where
  "bullet_image = \<lparr>surf_size = (10, 20), surf_fill = Some BLACK, surf_shapes = []\<rparr>"

definition obstacle_image :: surface where
  "obstacle_image = \<lparr>surf_size = (100, 30), surf_fill = Some GREEN, surf_shapes = []\<rparr>"

text \<open>\<open>screen.blit(image, rect)\<close> and \<open>Group.draw\<close>: the image at the top-left corner of the rect.\<close>

definition blit_sprite :: "surface \<Rightarrow> 'a sprite_scheme \<Rightarrow> draw_op" where
  "blit_sprite img s = Blit (Image img) (rect_x (srect s), rect_y (srect s))"

section \<open>Integer formatting\<close>

definition digit_char :: "nat \<Rightarrow> char" where
  "digit_char d = ''0123456789'' ! d"

fun nat_str :: "nat \<Rightarrow> string" where
  "nat_str n = (if n < 10 then [digit_char n] else nat_str (n div 10) @ [digit_char (n mod 10)])"

definition str_int :: "int \<Rightarrow> string" where
  "str_int i = (if i < 0 then CHR ''-'' # nat_str (nat (- i)) else nat_str (nat i))"

text \<open>Reading a decimal back, to state that the texts determine the numbers they show.\<close>

definition digit_val :: "char \<Rightarrow> nat option" where
  "digit_val c = (let n = (of_char c :: nat) in if 48 \<le> n \<and> n < 58 then Some (n - 48) else None)"

fun read_nat_acc :: "nat \<Rightarrow> string \<Rightarrow> nat option" where
  "read_nat_acc acc [] = Some acc"
| "read_nat_acc acc (c # cs) = (case digit_val c of None \<Rightarrow> None | Some d \<Rightarrow> read_nat_acc (10 * acc + d) cs)"

definition read_int :: "string \<Rightarrow> int option" where
  "read_int s =
     (case s of
        [] \<Rightarrow> None
      | c # cs \<Rightarrow> if c = CHR ''-'' then (if cs = [] then None else map_option (\<lambda>n. - int n) (read_nat_acc 0 cs))
                 else map_option int (read_nat_acc 0 s))"

section \<open>The screens\<close>

definition instructions :: "string list" where
  "instructions =
     [''Welcome to the Shooter!'', ''Instructions:'', ''Use arrow keys to move the player.'',
      ''Press SPACE to shoot bullets.'', ''Avoid enemies and obstacles.'',
      ''Score points by shooting enemies.'', ''Reach 100 points to get to Level 2.'',
      ''Reach 300 points to get to Level 3.'', ''Reach 500 points to win the game!'',
      ''Press any key to start...'']"

text \<open>The \<open>for line in instructions\<close> loop, \<open>y_offset\<close> starting at 100 and growing by 40.\<close>

fun blit_lines :: "int \<Rightarrow> string list \<Rightarrow> draw_op list" where
  "blit_lines y [] = []"
| "blit_lines y (line # lines) = Blit (Text line BLACK) (50, y) # blit_lines (y + 40) lines"

definition display_instructions :: "draw_op list" where
  "display_instructions = blit_lines 100 instructions"

definition display_buttons :: "draw_op list" where
  "display_buttons =
     [Draw_rect GRAY PLAY_AGAIN_RECT, Draw_rect GRAY EXIT_RECT,
      Blit (Text ''Play Again'' BLACK) (rect_x PLAY_AGAIN_RECT + 50, rect_y PLAY_AGAIN_RECT + 10),
      Blit (Text ''Exit'' BLACK) (rect_x EXIT_RECT + 80, rect_y EXIT_RECT + 10)]"

definition display_game_over :: "game \<Rightarrow> draw_op list" where
  "display_game_over gm =
     [Blit (Text ''GAME OVER'' BLACK) (SCREEN_WIDTH div 2 - 100, SCREEN_HEIGHT div 2 - 50),
      Blit (Text (''Score: '' @ str_int (score (scoreboard gm))) BLACK) (SCREEN_WIDTH div 2 - 100, SCREEN_HEIGHT div 2)]
     @ display_buttons"

definition display_won :: "game \<Rightarrow> draw_op list" where
  "display_won gm =
     [Blit (Text ''YOU WON!'' BLACK) (SCREEN_WIDTH div 2 - 100, SCREEN_HEIGHT div 2 - 50),
      Blit (Text (''Score: '' @ str_int (score (scoreboard gm))) BLACK) (SCREEN_WIDTH div 2 - 100, SCREEN_HEIGHT div 2)]
     @ display_buttons"

definition display_level :: "game \<Rightarrow> draw_op list" where
  "display_level gm =
     [Blit (Text (''Level: '' @ str_int (int (current_level_index gm) + 1)) BLACK) (SCREEN_WIDTH div 2 - 50, 10)]"

definition scoreboard_draw :: "scoreboard \<Rightarrow> draw_op list" where
  "scoreboard_draw sb =
     [Blit (Text (''Score: '' @ str_int (score sb)) BLACK) (10, 10),
      Blit (Text (''Lives: '' @ str_int (lives sb)) BLACK) (SCREEN_WIDTH - 100, 10)]"

definition player_draw :: "player \<Rightarrow> draw_op list" where
  "player_draw p = blit_sprite create_rocket p # map (blit_sprite bullet_image) (bullets p)"

text \<open>
  \<open>Level.draw\<close>: the enemy group, then the obstacle group. The third call,
  \<open>self.all_sprites.draw(screen)\<close>, paints the same sprites again at the same
  places; the \<open>all_sprites\<close> group is not part of this level model (theory
  \<open>Sprite_Groups\<close> has it and \<open>g_level_draw\<close> with the third call).
\<close>

definition level_draw :: "level \<Rightarrow> draw_op list" where
  "level_draw l = map (blit_sprite create_bomb) (enemies l) @ map (blit_sprite obstacle_image) (obstacles l)"

text \<open>The calls \<open>Game.draw\<close> makes on the screen; \<open>draw\<close> is what it changes in the state.\<close>

definition draw_frame :: "game \<Rightarrow> draw_op list" where
  "draw_frame gm =
     Fill WHITE #
     (if show_instructions gm then display_instructions
      else if won gm then display_won gm
      else if game_over gm then display_game_over gm
      else level_draw (current_level gm) @ player_draw (player gm) @ scoreboard_draw (scoreboard gm)
           @ display_level gm)
     @ [Flip]"

section \<open>Reading back what is printed\<close>

declare nat_str.simps [simp del]

lemma nat_str_small: "n < 10 \<Longrightarrow> nat_str n = [digit_char n]"
  by (simp add: nat_str.simps)

lemma nat_str_big: "\<not> n < 10 \<Longrightarrow> nat_str n = nat_str (n div 10) @ [digit_char (n mod 10)]"
  by (subst nat_str.simps) simp

lemma digit_val_digit_char_all: "\<forall>d \<in> set [0..<10]. digit_val (digit_char d) = Some d"
  by (simp add: upt_rec digit_char_def digit_val_def)

lemma digit_val_digit_char [simp]: "d < 10 \<Longrightarrow> digit_val (digit_char d) = Some d"
  using digit_val_digit_char_all by simp

lemma digit_char_not_minus: "d < 10 \<Longrightarrow> digit_char d \<noteq> CHR ''-''"
  using digit_val_digit_char [of d] by (auto simp: digit_val_def)

lemma read_nat_acc_append:
  "read_nat_acc acc (xs @ ys) = (case read_nat_acc acc xs of None \<Rightarrow> None | Some a \<Rightarrow> read_nat_acc a ys)"
  by (induction xs arbitrary: acc) (simp_all split: option.splits)

lemma read_nat_acc_nat_str:
  "read_nat_acc acc (nat_str n) = Some (acc * 10 ^ length (nat_str n) + n)"
proof (induction n arbitrary: acc rule: nat_str.induct)
  case (1 n)
  show ?case
  proof (cases "n < 10")
    case True
    then show ?thesis by (simp add: nat_str_small)
  next
    case False
    have "10 * (acc * 10 ^ length (nat_str (n div 10)) + n div 10) + n mod 10 =
          acc * 10 ^ Suc (length (nat_str (n div 10))) + n"
      by (simp add: algebra_simps)
    with False "1.IH" [OF False, of acc] show ?thesis
      by (simp add: nat_str_big [OF False] read_nat_acc_append)
  qed
qed

lemma nat_str_Cons: "\<exists>d cs. d < 10 \<and> nat_str n = digit_char d # cs"
proof (induction n rule: nat_str.induct)
  case (1 n)
  then show ?case by (cases "n < 10") (auto simp: nat_str_small nat_str_big)
qed

section \<open>What a frame contains\<close>

lemma blit_lines_set:
  "op \<in> set (blit_lines y ls) \<Longrightarrow>
   \<exists>t y'. op = Blit (Text t BLACK) (50, y') \<and> t \<in> set ls \<and> y \<le> y' \<and> y' < y + 40 * int (length ls)"
  by (induction ls arbitrary: y) fastforce+

lemma blit_sprite_Blit: "blit_sprite img s = Blit (Image img) (rect_x (srect s), rect_y (srect s))"
  by (rule blit_sprite_def)

lemmas frame_defs = draw_frame_def display_won_def display_game_over_def display_buttons_def
  display_level_def scoreboard_draw_def player_draw_def level_draw_def blit_sprite_def

text \<open>Which part of \<open>Game.draw\<close> painted a text of the frame.\<close>

lemma frame_text_cases:
  assumes "Blit (Text t c) pos \<in> set (draw_frame gm)"
  shows "(show_instructions gm \<and> Blit (Text t c) pos \<in> set display_instructions) \<or>
         (\<not> show_instructions gm \<and> won gm \<and> Blit (Text t c) pos \<in> set (display_won gm)) \<or>
         (\<not> show_instructions gm \<and> \<not> won gm \<and> game_over gm \<and>
            Blit (Text t c) pos \<in> set (display_game_over gm)) \<or>
         (\<not> show_instructions gm \<and> \<not> won gm \<and> \<not> game_over gm \<and>
            Blit (Text t c) pos \<in> set (scoreboard_draw (scoreboard gm) @ display_level gm))"
  using assms by (auto simp: draw_frame_def level_draw_def player_draw_def blit_sprite_def split: if_splits)

lemma instructions_text:
  "Blit (Text t c) (x, y) \<in> set display_instructions \<Longrightarrow> t \<in> set instructions \<and> x = 50 \<and> 100 \<le> y \<and> y < 500"
  using blit_lines_set [of "Blit (Text t c) (x, y)" 100 instructions]
  by (auto simp: display_instructions_def instructions_def)

lemma won_text:
  "Blit (Text t c) (x, y) \<in> set (display_won gm) \<Longrightarrow>
   t = ''YOU WON!'' \<and> c = BLACK \<and> x = 300 \<and> y = 250 \<or>
   t = ''Score: '' @ str_int (score (scoreboard gm)) \<and> c = BLACK \<and> x = 300 \<and> y = 300 \<or>
   t = ''Play Again'' \<and> c = BLACK \<and> x = 350 \<and> y = 360 \<or>
   t = ''Exit'' \<and> c = BLACK \<and> x = 380 \<and> y = 430"
  by (simp add: display_won_def display_buttons_def PLAY_AGAIN_RECT_def EXIT_RECT_def shooter_consts)

lemma game_over_text:
  "Blit (Text t c) (x, y) \<in> set (display_game_over gm) \<Longrightarrow>
   t = ''GAME OVER'' \<and> c = BLACK \<and> x = 300 \<and> y = 250 \<or>
   t = ''Score: '' @ str_int (score (scoreboard gm)) \<and> c = BLACK \<and> x = 300 \<and> y = 300 \<or>
   t = ''Play Again'' \<and> c = BLACK \<and> x = 350 \<and> y = 360 \<or>
   t = ''Exit'' \<and> c = BLACK \<and> x = 380 \<and> y = 430"
  by (simp add: display_game_over_def display_buttons_def PLAY_AGAIN_RECT_def EXIT_RECT_def shooter_consts)

lemma hud_text:
  "Blit (Text t c) (x, y) \<in> set (scoreboard_draw sb @ display_level gm) \<Longrightarrow>
   t = ''Score: '' @ str_int (score sb) \<and> c = BLACK \<and> x = 10 \<and> y = 10 \<or>
   t = ''Lives: '' @ str_int (lives sb) \<and> c = BLACK \<and> x = 700 \<and> y = 10 \<or>
   t = ''Level: '' @ str_int (int (current_level_index gm) + 1) \<and> c = BLACK \<and> x = 350 \<and> y = 10"
  by (simp add: scoreboard_draw_def display_level_def shooter_consts)

lemma no_rect_instructions: "Draw_rect c r \<notin> set display_instructions"
  using blit_lines_set [of "Draw_rect c r" 100 instructions] by (auto simp: display_instructions_def)

lemma no_image_instructions: "Blit (Image img) (x, y) \<notin> set display_instructions"
  using blit_lines_set [of "Blit (Image img) (x, y)" 100 instructions] by (auto simp: display_instructions_def)

lemma str_int_digit: "0 \<le> i \<Longrightarrow> i < 10 \<Longrightarrow> str_int i = [digit_char (nat i)]"
  by (simp add: str_int_def nat_str_small)

section \<open>Properties of the frames\<close>

lemma read_int_str_int: "read_int (str_int i) = Some i"
proof (cases "i < 0")
  case True
  obtain d cs where "d < 10" "nat_str (nat (- i)) = digit_char d # cs" using nat_str_Cons by blast
  with True read_nat_acc_nat_str [of 0 "nat (- i)"] show ?thesis
    by (simp add: str_int_def read_int_def)
next
  case False
  obtain d cs where "d < 10" "nat_str (nat i) = digit_char d # cs" using nat_str_Cons by blast
  with False read_nat_acc_nat_str [of 0 "nat i"] show ?thesis
    by (simp add: str_int_def read_int_def digit_char_not_minus)
qed

text \<open>Which images a frame paints: only on the play screen, the level's and the player's sprites.\<close>

lemma frame_images:
  "Blit (Image img) (x, y) \<in> set (draw_frame gm) \<Longrightarrow>
   \<not> show_instructions gm \<and> \<not> won gm \<and> \<not> game_over gm \<and>
   Blit (Image img) (x, y) \<in> set (level_draw (current_level gm) @ player_draw (player gm))"
  using no_image_instructions [of img x y]
  by (auto simp: draw_frame_def display_won_def display_game_over_def display_buttons_def
                 scoreboard_draw_def display_level_def split: if_splits)

text \<open>
  The state after the first frame of a game from the all-zero random source, when that
  frame holds one key press and no key is held: the play screen, the player at the
  spawn point and the first level's five enemies one pixel lower than created.
\<close>

lemma first_tick:
  "reachable (draw (play_tick \<lparr>key_left = False, key_right = False, key_up = False, key_down = False, key_space = False\<rparr>
      ((Game \<lparr>rand_src = (\<lambda>n. 0), rand_pos = 0\<rparr>)\<lparr>show_instructions := False\<rparr>))) \<and>
   \<not> show_instructions (draw (play_tick \<lparr>key_left = False, key_right = False, key_up = False, key_down = False, key_space = False\<rparr>
      ((Game \<lparr>rand_src = (\<lambda>n. 0), rand_pos = 0\<rparr>)\<lparr>show_instructions := False\<rparr>))) \<and> \<not> won (draw (play_tick \<lparr>key_left = False, key_right = False, key_up = False, key_down = False, key_space = False\<rparr>
      ((Game \<lparr>rand_src = (\<lambda>n. 0), rand_pos = 0\<rparr>)\<lparr>show_instructions := False\<rparr>))) \<and> \<not> game_over (draw (play_tick \<lparr>key_left = False, key_right = False, key_up = False, key_down = False, key_space = False\<rparr>
      ((Game \<lparr>rand_src = (\<lambda>n. 0), rand_pos = 0\<rparr>)\<lparr>show_instructions := False\<rparr>))) \<and>
   player (draw (play_tick \<lparr>key_left = False, key_right = False, key_up = False, key_down = False, key_space = False\<rparr>
      ((Game \<lparr>rand_src = (\<lambda>n. 0), rand_pos = 0\<rparr>)\<lparr>show_instructions := False\<rparr>))) = Player \<and>
   \<lparr>srect = \<lparr>rect_x = 0, rect_y = -99, rect_w = 50, rect_h = 50\<rparr>, e_speed = 1\<rparr>
     \<in> set (enemies (current_level (draw (play_tick \<lparr>key_left = False, key_right = False, key_up = False, key_down = False, key_space = False\<rparr>
      ((Game \<lparr>rand_src = (\<lambda>n. 0), rand_pos = 0\<rparr>)\<lparr>show_instructions := False\<rparr>)))))"
proof -
  let ?g = "\<lparr>rand_src = (\<lambda>n. 0 :: int), rand_pos = 0\<rparr>"
  let ?k = "\<lparr>key_left = False, key_right = False, key_up = False, key_down = False, key_space = False\<rparr>"
  let ?gm0 = "(Game ?g)\<lparr>show_instructions := False\<rparr>"
  let ?X = "draw (play_tick ?k ?gm0)"
  have it: "game_iteration (Game ?g) \<lparr>events = [KeyDown], pressed = ?k\<rparr> = Inr ?X"
    using Game_fields [of ?g] by (simp add: game_iteration_def)
  have r: "reachable ?X"
    using reachable.step [OF reachable.init [of ?g] _ it] Game_fields [of ?g] by simp
  have hk: "handle_keys ?k Player = Player" by (simp add: handle_keys_def Let_def)
  have l0: "levels (Game ?g) ! 0 = fst (Level1 ?g)" by (simp add: Game_def split_beta)
  obtain l' p2 sb' g' where lu: "level_update (levels (Game ?g) ! 0) Player Scoreboard (rng_state (Game ?g)) =
      (l', p2, sb', g')"
    by (cases "level_update (levels (Game ?g) ! 0) Player Scoreboard (rng_state (Game ?g))") auto
  have "fst (snd (level_update (fst (Level1 ?g)) Player Scoreboard (rng_state (Game ?g)))) = Player \<and>
        fst (snd (snd (level_update (fst (Level1 ?g)) Player Scoreboard (rng_state (Game ?g))))) = Scoreboard \<and>
        \<lparr>srect = \<lparr>rect_x = 0, rect_y = -99, rect_w = 50, rect_h = 50\<rparr>, e_speed = 1\<rparr>
          \<in> set (enemies (fst (level_update (fst (Level1 ?g)) Player Scoreboard (rng_state (Game ?g)))))"
    by (simp add: Level1_def Level_init_def random_obstacle_def level_update_def check_collisions_def
        spawn_enemies_def random_enemy_def Enemy_def randint_def spritecollideany_def update_player_def
        List.map_filter_def Player_def Bullet_def bullet_update_def enemy_update_def collide_index_def
        colliderect_def Obstacle_def shooter_defs shooter_consts Let_def split_beta eval_nat_numeral)
  with lu l0 have p: "p2 = Player" "sb' = Scoreboard"
    "\<lparr>srect = \<lparr>rect_x = 0, rect_y = -99, rect_w = 50, rect_h = 50\<rparr>, e_speed = 1\<rparr> \<in> set (enemies l')"
    by simp_all
  have sb: "lives Scoreboard = 3" "score Scoreboard = 0" by (simp_all add: Scoreboard_def)
  have "\<not> won (play_tick ?k ?gm0) \<and> \<not> game_over (play_tick ?k ?gm0) \<and>
        \<not> show_instructions (play_tick ?k ?gm0) \<and> player (play_tick ?k ?gm0) = Player \<and>
        current_level (play_tick ?k ?gm0) = l'"
    using Game_fields [of ?g]
    by (simp add: play_tick_def hk lu p sb Let_def is_game_over_def current_level_def)
  with r p(3) show ?thesis by (simp add: draw_fields current_level_def)
qed

text \<open>
  C31: The scoreboard's texts can be read back: dropping the seven-character labels
  \<open>Score: \<close> and \<open>Lives: \<close> from the two texts \<open>Scoreboard.draw\<close> blits and
  reading the rest as an integer gives back the score and the lives, whatever their
  values (negative lives included).
\<close>

theorem scoreboard_draw_roundtrip:
  "map (\<lambda>op. case op of Blit (Text t c) pos \<Rightarrow> read_int (drop 7 t) | _ \<Rightarrow> None) (scoreboard_draw sb) =
     [Some (score sb), Some (lives sb)]"
  by (simp add: scoreboard_draw_def read_int_str_int)

text \<open>
  C32: What the player sees as a button is where a click is tested: every rectangle a
  frame draws is gray and is one of the two button rects that \<open>draw\<close> leaves in the
  state, which the next event loop passes to \<open>collidepoint\<close>.
\<close>

theorem frame_buttons_are_click_targets:
  assumes "Draw_rect c r \<in> set (draw_frame gm)"
  shows "c = GRAY \<and> (play_again_button (draw gm) = Some r \<or> exit_button (draw gm) = Some r)"
proof -
  from assms no_rect_instructions [of c r]
  have "\<not> show_instructions gm \<and> (won gm \<or> game_over gm) \<and> Draw_rect c r \<in> set display_buttons"
    by (auto simp: draw_frame_def display_won_def display_game_over_def level_draw_def player_draw_def
                   blit_sprite_def scoreboard_draw_def display_level_def split: if_splits)
  then show ?thesis by (auto simp: display_buttons_def draw_def)
qed

theorem frame_buttons_are_click_targets_witness:
  "Draw_rect GRAY PLAY_AGAIN_RECT \<in> set (draw_frame ((Game \<lparr>rand_src = (\<lambda>n. 0), rand_pos = 0\<rparr>)
      \<lparr>show_instructions := False, game_over := True\<rparr>)) \<and>
   play_again_button (draw ((Game \<lparr>rand_src = (\<lambda>n. 0), rand_pos = 0\<rparr>)
      \<lparr>show_instructions := False, game_over := True\<rparr>)) = Some PLAY_AGAIN_RECT"
proof -
  let ?gm = "(Game \<lparr>rand_src = (\<lambda>n. 0 :: int), rand_pos = 0\<rparr>)\<lparr>show_instructions := False, game_over := True\<rparr>"
  have m: "Draw_rect GRAY PLAY_AGAIN_RECT \<in> set (draw_frame ?gm)"
    using Game_fields [of "\<lparr>rand_src = (\<lambda>n. 0 :: int), rand_pos = 0\<rparr>"]
    by (simp add: draw_frame_def display_game_over_def display_buttons_def)
  from frame_buttons_are_click_targets [OF m] m show ?thesis
    by (auto simp: draw_def PLAY_AGAIN_RECT_def EXIT_RECT_def)
qed

text \<open>
  C33: Every text of every frame is anchored inside the window: the instruction lines
  at \<open>x = 50\<close>, \<open>y\<close> from 100 to 460, the end-screen and button labels, and the
  score, lives and level line at the top.
\<close>

theorem frame_text_on_screen:
  assumes "Blit (Text t c) (x, y) \<in> set (draw_frame gm)"
  shows "0 \<le> x \<and> x < SCREEN_WIDTH \<and> 0 \<le> y \<and> y < SCREEN_HEIGHT"
  using frame_text_cases [OF assms] instructions_text [of t c x y] won_text [of t c x y gm]
    game_over_text [of t c x y gm] hud_text [of t c x y "scoreboard gm" gm]
  by (auto simp: shooter_consts)

theorem frame_text_on_screen_witness:
  "Blit (Text ''Welcome to the Shooter!'' BLACK) (50, 100) \<in> set (draw_frame (Game \<lparr>rand_src = (\<lambda>n. 0), rand_pos = 0\<rparr>)) \<and>
   (50 :: int) < SCREEN_WIDTH \<and> (100 :: int) < SCREEN_HEIGHT"
proof -
  have m: "Blit (Text ''Welcome to the Shooter!'' BLACK) (50, 100) \<in>
             set (draw_frame (Game \<lparr>rand_src = (\<lambda>n. 0 :: int), rand_pos = 0\<rparr>))"
    using Game_fields [of "\<lparr>rand_src = (\<lambda>n. 0 :: int), rand_pos = 0\<rparr>"]
    by (simp add: draw_frame_def display_instructions_def instructions_def)
  from frame_text_on_screen [OF m] m show ?thesis by simp
qed

text \<open>
  C34: The lives and level texts only ever show 1, 2 or 3: they are painted only on
  the play screen, where a reachable state has between one and three lives and a
  level index below 3. The lives counter that can reach \<open>-1\<close> is never displayed
  below 1 (the end screens show only the score).
\<close>

theorem reachable_hud_counts:
  assumes "reachable gm" and "Blit (Text t c) (x, y) \<in> set (draw_frame gm)"
  shows "(take 7 t = ''Lives: '' \<longrightarrow> t \<in> {''Lives: 1'', ''Lives: 2'', ''Lives: 3''}) \<and>
         (take 7 t = ''Level: '' \<longrightarrow> t \<in> {''Level: 1'', ''Level: 2'', ''Level: 3''})"
proof -
  from reachable_session_inv [OF assms(1)] reachable_inv [OF assms(1)]
  have inv: "\<not> game_over gm \<longrightarrow> 1 \<le> lives (scoreboard gm) \<and> lives (scoreboard gm) \<le> 3"
    "current_level_index gm < 3"
    by (auto simp: session_inv_def game_inv_def)
  have lives: "\<not> game_over gm \<Longrightarrow> str_int (lives (scoreboard gm)) \<in> {''1'', ''2'', ''3''}"
  proof -
    assume "\<not> game_over gm"
    with inv(1) have "lives (scoreboard gm) \<in> {1, 2, 3}" by auto
    then show ?thesis by (auto simp: str_int_digit digit_char_def)
  qed
  have level: "str_int (int (current_level_index gm) + 1) \<in> {''1'', ''2'', ''3''}"
  proof -
    from inv(2) have "int (current_level_index gm) + 1 \<in> {1, 2, 3}" by auto
    then show ?thesis by (auto simp: str_int_digit digit_char_def)
  qed
  consider (instr) "Blit (Text t c) (x, y) \<in> set display_instructions"
    | (won) "Blit (Text t c) (x, y) \<in> set (display_won gm)"
    | (over) "Blit (Text t c) (x, y) \<in> set (display_game_over gm)"
    | (hud) "\<not> game_over gm" "Blit (Text t c) (x, y) \<in> set (scoreboard_draw (scoreboard gm) @ display_level gm)"
    using frame_text_cases [OF assms(2)] by blast
  then show ?thesis
  proof cases
    case instr
    then have "t \<in> set instructions" by (simp add: instructions_text)
    then show ?thesis by (simp add: instructions_def) (elim disjE; simp)
  next
    case won
    from won_text [OF this] show ?thesis by (elim disjE; simp)
  next
    case over
    from game_over_text [OF this] show ?thesis by (elim disjE; simp)
  next
    case hud
    from hud_text [OF hud(2)] lives [OF hud(1)] level show ?thesis by (elim disjE; auto)
  qed
qed

theorem reachable_hud_counts_witness:
  "reachable (Game \<lparr>rand_src = (\<lambda>n. 0), rand_pos = 0\<rparr>) \<and>
   Blit (Text ''Welcome to the Shooter!'' BLACK) (50, 100) \<in> set (draw_frame (Game \<lparr>rand_src = (\<lambda>n. 0), rand_pos = 0\<rparr>)) \<and>
   take 7 ''Welcome to the Shooter!'' \<noteq> ''Lives: ''"
proof -
  have r: "reachable (Game \<lparr>rand_src = (\<lambda>n. 0 :: int), rand_pos = 0\<rparr>)" by (rule reachable.init)
  have m: "Blit (Text ''Welcome to the Shooter!'' BLACK) (50, 100) \<in>
             set (draw_frame (Game \<lparr>rand_src = (\<lambda>n. 0 :: int), rand_pos = 0\<rparr>))"
    using Game_fields [of "\<lparr>rand_src = (\<lambda>n. 0 :: int), rand_pos = 0\<rparr>"]
    by (simp add: draw_frame_def display_instructions_def instructions_def)
  from reachable_hud_counts [OF r m] r m show ?thesis by simp
qed

text \<open>
  C35: Every image a frame of a reachable state paints is drawn at the top-left corner
  of a sprite of the state (the player, one of its bullets, or an enemy or obstacle of
  the current level) and has exactly that sprite's size: the rects the collision code
  tests are the boxes the player sees.
\<close>

theorem reachable_images_fit_rects:
  assumes "reachable gm" and "Blit (Image img) (x, y) \<in> set (draw_frame gm)"
  shows "\<exists>r \<in> {srect (player gm)} \<union> srect ` set (bullets (player gm)) \<union>
                 srect ` set (enemies (current_level gm)) \<union> srect ` set (obstacles (current_level gm)).
           x = rect_x r \<and> y = rect_y r \<and> surf_size img = (rect_w r, rect_h r)"
proof -
  from reachable_inv [OF assms(1)] reachable_session_inv [OF assms(1)]
  have inv: "player_ok (player gm)" "\<forall>b \<in> set (bullets (player gm)). bullet_ok b"
    "\<forall>e \<in> set (enemies (current_level gm)). enemy_ok e"
    "\<forall>ob \<in> set (obstacles (current_level gm)). obstacle_ok ob"
    by (auto simp: game_inv_def sprites_ok_def current_level_def)
  from frame_images [OF assms(2)]
  have "Blit (Image img) (x, y) \<in> set (level_draw (current_level gm) @ player_draw (player gm))" by blast
  with inv show ?thesis
    by (fastforce simp: level_draw_def player_draw_def blit_sprite_def create_rocket_def create_bomb_def
                        bullet_image_def obstacle_image_def player_ok_def bullet_ok_def enemy_ok_def
                        obstacle_ok_def)
qed

theorem reachable_images_fit_rects_witness:
  "reachable (draw (play_tick \<lparr>key_left = False, key_right = False, key_up = False, key_down = False, key_space = False\<rparr>
      ((Game \<lparr>rand_src = (\<lambda>n. 0), rand_pos = 0\<rparr>)\<lparr>show_instructions := False\<rparr>))) \<and>
   Blit (Image create_rocket) (400, 540) \<in> set (draw_frame (draw (play_tick \<lparr>key_left = False, key_right = False, key_up = False, key_down = False, key_space = False\<rparr>
      ((Game \<lparr>rand_src = (\<lambda>n. 0), rand_pos = 0\<rparr>)\<lparr>show_instructions := False\<rparr>))))"
proof -
  from first_tick have r: "reachable (draw (play_tick \<lparr>key_left = False, key_right = False, key_up = False, key_down = False, key_space = False\<rparr>
      ((Game \<lparr>rand_src = (\<lambda>n. 0), rand_pos = 0\<rparr>)\<lparr>show_instructions := False\<rparr>)))" by blast
  from first_tick have m: "Blit (Image create_rocket) (400, 540) \<in> set (draw_frame (draw (play_tick \<lparr>key_left = False, key_right = False, key_up = False, key_down = False, key_space = False\<rparr>
      ((Game \<lparr>rand_src = (\<lambda>n. 0), rand_pos = 0\<rparr>)\<lparr>show_instructions := False\<rparr>))))"
    by (simp add: draw_frame_def player_draw_def blit_sprite_def Player_def shooter_defs shooter_consts)
  from reachable_images_fit_rects [OF r m] r m show ?thesis by blast
qed

end
