(* ===== verification/Enemy_Motion.thy ===== *)
theory Enemy_Motion
  imports Render
begin

text \<open>
  Where the enemies and obstacles of src/main.py can be, and how long an enemy takes to
  fall through the screen. \<open>Enemy.update\<close> (lines 217--221) moves an enemy down by
  its speed and sends it back above the screen once its top passes the bottom edge;
  the constructors place enemies in \<open>[0, SCREEN_WIDTH - 50] \<times> [-100, -40]\<close> and
  obstacles in \<open>[0, SCREEN_WIDTH - 100] \<times> [100, SCREEN_HEIGHT - 30]\<close>
  (lines 264, 281, 286). \<open>levels_in_band\<close> is the resulting band of positions, an
  invariant of every reachable state; \<open>enemy_steps\<close> iterates \<open>Enemy.update\<close> on
  one enemy, and an enemy is recycled within 701 of its updates.
\<close>

definition enemy_in_band :: "enemy \<Rightarrow> bool" where
  "enemy_in_band e \<longleftrightarrow>
     0 \<le> rect_x (srect e) \<and> rect_x (srect e) \<le> SCREEN_WIDTH - 50 \<and>
     -100 \<le> rect_y (srect e) \<and> rect_y (srect e) \<le> SCREEN_HEIGHT"

definition obstacle_in_band :: "obstacle \<Rightarrow> bool" where
  "obstacle_in_band ob \<longleftrightarrow>
     0 \<le> rect_x (srect ob) \<and> rect_x (srect ob) \<le> SCREEN_WIDTH - 100 \<and>
     100 \<le> rect_y (srect ob) \<and> rect_y (srect ob) \<le> SCREEN_HEIGHT - 30"

definition levels_in_band :: "game \<Rightarrow> bool" where
  "levels_in_band gm \<longleftrightarrow>
     (\<forall>l \<in> set (levels gm). (\<forall>e \<in> set (enemies l). enemy_in_band e) \<and>
                            (\<forall>ob \<in> set (obstacles l). obstacle_in_band ob))"

text \<open>\<open>n\<close> calls of \<open>Enemy.update\<close> on one enemy, the random source threaded.\<close>

fun enemy_steps :: "nat \<Rightarrow> enemy \<Rightarrow> rng \<Rightarrow> enemy \<times> rng" where
  "enemy_steps 0 e g = (e, g)"
| "enemy_steps (Suc n) e g = (case enemy_update e g of (e', g') \<Rightarrow> enemy_steps n e' g')"

section \<open>The band of positions\<close>

lemma enemy_update_band:
  assumes "enemy_ok e" "enemy_in_band e"
  shows "enemy_in_band (fst (enemy_update e g))"
proof (cases "SCREEN_HEIGHT < rect_y (srect e) + e_speed e")
  case True
  let ?w = "SCREEN_WIDTH - rect_w (srect e)"
  have "0 \<le> ?w" using assms(1) by (simp add: enemy_ok_def SCREEN_WIDTH_def)
  with True assms(1) randint_bounds [of 0 ?w g] randint_bounds [of "-100" "-40" "snd (randint 0 ?w g)"]
  show ?thesis
    by (simp add: enemy_update_recycle enemy_in_band_def enemy_ok_def SCREEN_HEIGHT_def)
next
  case False
  with assms show ?thesis
    by (simp add: enemy_update_move enemy_in_band_def enemy_ok_def)
qed

lemma update_enemies_band:
  "\<forall>e \<in> set es. enemy_ok e \<and> enemy_in_band e \<Longrightarrow> \<forall>e \<in> set (fst (update_enemies es g)). enemy_in_band e"
  by (induction es arbitrary: g) (simp_all add: split_beta enemy_update_band)

lemma random_enemy_band: "enemy_in_band (fst (random_enemy g))"
  using random_enemy_place [of g] by (simp add: enemy_in_band_def SCREEN_HEIGHT_def)

lemma random_obstacle_band: "obstacle_in_band (fst (random_obstacle g))"
  using randint_bounds [of 0 "SCREEN_WIDTH - 100" g]
        randint_bounds [of 100 "SCREEN_HEIGHT - 30" "snd (randint 0 (SCREEN_WIDTH - 100) g)"]
  by (simp add: random_obstacle_def split_beta Obstacle_def obstacle_in_band_def shooter_consts)

lemma Level_init_band:
  "(\<forall>e \<in> set (enemies (fst (Level_init ne no g))). enemy_in_band e) \<and>
   (\<forall>ob \<in> set (obstacles (fst (Level_init ne no g))). obstacle_in_band ob)"
proof -
  have "\<forall>e \<in> set (fst (make_enemies n g)). enemy_in_band e" for n g
    by (induction n arbitrary: g) (simp_all add: split_beta random_enemy_band)
  moreover have "\<forall>ob \<in> set (fst (make_obstacles n g)). obstacle_in_band ob" for n g
    by (induction n arbitrary: g) (simp_all add: split_beta random_obstacle_band)
  ultimately show ?thesis by (simp add: Level_init_def split_beta)
qed

lemma level_update_band:
  assumes "level_update l p sb g = (l', p', sb', g')"
    and "\<forall>e \<in> set (enemies l). enemy_ok e \<and> enemy_in_band e"
  shows "(\<forall>e \<in> set (enemies l'). enemy_in_band e) \<and> obstacles l' = obstacles l"
proof -
  obtain es g1 l2 where u: "update_enemies (enemies l) g = (es, g1)"
    and c: "check_collisions (l\<lparr>enemies := es\<rparr>) (update_player p) sb = (l2, p', sb')"
    and sp: "spawn_enemies l2 g1 = (l', g')"
    using level_update_stages [OF assms(1)] by blast
  from u assms(2) have "\<forall>e \<in> set es. enemy_in_band e"
    using update_enemies_band [of "enemies l" g] by simp
  moreover from check_collisions_counts [OF c] have
    "set (enemies l2) \<subseteq> set es" "obstacles l2 = obstacles l" by auto
  ultimately have "\<forall>e \<in> set (enemies l2). enemy_in_band e" "obstacles l2 = obstacles l" by auto
  with sp show ?thesis
    by (auto simp: spawn_enemies_def split_beta random_enemy_band split: if_splits)
qed

lemma Game_band: "levels_in_band (Game g0)"
  using Level_init_band
  by (simp add: levels_in_band_def Game_def split_beta Level1_def Level2_def Level3_def)

lemma play_state_band: "play_state gm' = play_state gm \<Longrightarrow> levels_in_band gm' = levels_in_band gm"
  by (simp add: play_state_def levels_in_band_def)

lemma handle_events_band:
  "handle_events gm evs = Inr gm' \<Longrightarrow> levels_in_band gm \<Longrightarrow> levels_in_band gm'"
proof (induction evs arbitrary: gm)
  case Nil
  then show ?case by simp
next
  case (Cons ev evs)
  then obtain gm1 where h: "handle_event gm ev = Inr gm1" "handle_events gm1 evs = Inr gm'"
    by (auto split: sum.splits)
  from handle_event_play_state [OF h(1)] Cons.prems(2) Game_band [of "rng_state gm"]
  have "levels_in_band gm1" using play_state_band by metis
  with Cons.IH [OF h(2)] show ?case .
qed

lemma play_tick_band:
  assumes "game_inv gm" "levels_in_band gm"
  shows "levels_in_band (play_tick k gm)"
proof -
  obtain l' p2 sb' g' where lu: "level_update (levels gm ! current_level_index gm)
      (handle_keys k (player gm)) (scoreboard gm) (rng_state gm) = (l', p2, sb', g')"
    by (rule play_tick_obtain)
  let ?i = "current_level_index gm"
  from assms(1) have i: "?i < length (levels gm)" by (simp add: game_inv_def)
  then have li: "levels gm ! ?i \<in> set (levels gm)" by simp
  with assms have "\<forall>e \<in> set (enemies (levels gm ! ?i)). enemy_ok e \<and> enemy_in_band e"
    unfolding game_inv_def levels_in_band_def by blast
  from level_update_band [OF lu this] li assms(2)
  have "(\<forall>e \<in> set (enemies l'). enemy_in_band e) \<and> (\<forall>ob \<in> set (obstacles l'). obstacle_in_band ob)"
    by (auto simp: levels_in_band_def)
  with assms(2) have "levels_in_band (gm\<lparr>levels := (levels gm)[?i := l']\<rparr>)"
    using set_update_subset_insert [of "levels gm" ?i l'] by (force simp: levels_in_band_def)
  then show ?thesis
    by (simp add: play_tick_def lu Let_def levels_in_band_def)
qed

lemma reachable_band: "reachable gm \<Longrightarrow> levels_in_band gm"
proof (induction rule: reachable.induct)
  case (init g0)
  then show ?case by (rule Game_band)
next
  case (step gm fr gm')
  from handle_events_ok [of gm "events fr"] reachable_inv [OF step.hyps(1)] obtain gm1 where
    h: "handle_events gm (events fr) = Inr gm1" "game_inv gm1" by blast
  from handle_events_band [OF h(1) step.IH] have b: "levels_in_band gm1" .
  let ?gm2 = "if \<not> show_instructions gm1 \<and> \<not> game_over gm1 \<and> \<not> won gm1
              then play_tick (pressed fr) gm1 else gm1"
  have "levels_in_band ?gm2" using b h(2) play_tick_band by simp
  moreover from step.hyps(3) h(1) have "gm' = draw ?gm2" by (simp add: game_iteration_def)
  ultimately show ?case using play_state_band [OF draw_play_state] by simp
qed

section \<open>Falling through the screen\<close>

lemma enemy_update_speed [simp]: "e_speed (fst (enemy_update e g)) = e_speed e"
  by (simp add: enemy_update_def Let_def split_beta)

lemma enemy_steps_snoc:
  "enemy_steps (Suc n) e g = enemy_update (fst (enemy_steps n e g)) (snd (enemy_steps n e g))"
  by (induction n arbitrary: e g) (simp_all add: split_beta)

text \<open>As long as no update recycles it, an enemy falls by exactly its speed per update.\<close>

lemma enemy_steps_fall:
  "(\<forall>k < n. \<not> SCREEN_HEIGHT < rect_y (srect (fst (enemy_steps k e g))) + e_speed e) \<Longrightarrow>
   rect_y (srect (fst (enemy_steps n e g))) = rect_y (srect e) + int n * e_speed e \<and>
   e_speed (fst (enemy_steps n e g)) = e_speed e"
proof (induction n)
  case 0
  then show ?case by simp
next
  case (Suc n)
  then have ih: "rect_y (srect (fst (enemy_steps n e g))) = rect_y (srect e) + int n * e_speed e"
    "e_speed (fst (enemy_steps n e g)) = e_speed e" by auto
  from Suc.prems have "\<not> SCREEN_HEIGHT < rect_y (srect (fst (enemy_steps n e g))) + e_speed e" by simp
  with ih show ?case
    by (simp del: enemy_steps.simps add: enemy_steps_snoc enemy_update_move algebra_simps)
qed

lemma enemy_steps_speed: "e_speed (fst (enemy_steps n e g)) = e_speed e"
  by (induction n arbitrary: e g) (simp_all add: split_beta)

text \<open>An enemy image of a frame is drawn at an enemy of the current level.\<close>

lemma frame_bomb_enemy:
  "Blit (Image create_bomb) (x, y) \<in> set (draw_frame gm) \<Longrightarrow>
   \<exists>e \<in> set (enemies (current_level gm)). x = rect_x (srect e) \<and> y = rect_y (srect e)"
  using frame_images [of create_bomb x y gm]
  by (auto simp: level_draw_def player_draw_def blit_sprite_def create_bomb_def create_rocket_def
                 bullet_image_def obstacle_image_def)

section \<open>Properties\<close>

text \<open>
  C36: In every state at the head of the game loop, every enemy of every level has its
  top-left corner in \<open>[0, SCREEN_WIDTH - 50] \<times> [-100, SCREEN_HEIGHT]\<close> (so it is
  never left or right of the screen and never more than 100 pixels above it) and every
  obstacle in \<open>[0, SCREEN_WIDTH - 100] \<times> [100, SCREEN_HEIGHT - 30]\<close> (fully on the
  screen).
\<close>

theorem reachable_positions_in_band:
  assumes "reachable gm"
  shows "\<forall>l \<in> set (levels gm).
           (\<forall>e \<in> set (enemies l). 0 \<le> rect_x (srect e) \<and> rect_x (srect e) + 50 \<le> SCREEN_WIDTH \<and>
                                 -100 \<le> rect_y (srect e) \<and> rect_y (srect e) \<le> SCREEN_HEIGHT) \<and>
           (\<forall>ob \<in> set (obstacles l). 0 \<le> rect_x (srect ob) \<and> rect_x (srect ob) + 100 \<le> SCREEN_WIDTH \<and>
                                 100 \<le> rect_y (srect ob) \<and> rect_y (srect ob) + 30 \<le> SCREEN_HEIGHT)"
  using reachable_band [OF assms]
  by (fastforce simp: levels_in_band_def enemy_in_band_def obstacle_in_band_def)

theorem reachable_positions_in_band_witness:
  "reachable (Game \<lparr>rand_src = (\<lambda>n. 0), rand_pos = 0\<rparr>) \<and> length (levels (Game \<lparr>rand_src = (\<lambda>n. 0), rand_pos = 0\<rparr>)) = 3"
  using reachable_positions_in_band [OF reachable.init [of "\<lparr>rand_src = (\<lambda>n. 0), rand_pos = 0\<rparr>"]] reachable.init Game_fields
  by blast

text \<open>
  C37: \<open>Enemy.update\<close> alone brings every enemy back: an enemy with a speed in
  \<open>[1, 3]\<close> whose top is at least \<open>-100\<close> passes the bottom edge on one of its first
  701 updates, whatever the random draws, and that update puts it back at a height in
  \<open>[-100, -40]\<close>, above the screen.
\<close>

theorem enemy_recycled_within:
  assumes "enemy_ok e" and "-100 \<le> rect_y (srect e)"
  shows "\<exists>n \<le> 700. SCREEN_HEIGHT < rect_y (srect (fst (enemy_steps n e g))) + e_speed e \<and>
           -100 \<le> rect_y (srect (fst (enemy_steps (Suc n) e g))) \<and>
           rect_y (srect (fst (enemy_steps (Suc n) e g))) \<le> -40"
proof -
  have "\<exists>n \<le> 700. SCREEN_HEIGHT < rect_y (srect (fst (enemy_steps n e g))) + e_speed e"
  proof (rule ccontr)
    assume none: "\<not> ?thesis"
    then have "\<forall>k < 700. \<not> SCREEN_HEIGHT < rect_y (srect (fst (enemy_steps k e g))) + e_speed e" by auto
    from enemy_steps_fall [OF this]
    have "rect_y (srect (fst (enemy_steps 700 e g))) = rect_y (srect e) + 700 * e_speed e" by simp
    moreover from none have "\<not> SCREEN_HEIGHT < rect_y (srect (fst (enemy_steps 700 e g))) + e_speed e"
      by auto
    ultimately show False using assms by (simp add: enemy_ok_def SCREEN_HEIGHT_def)
  qed
  then obtain n where n: "n \<le> 700" and
    r: "SCREEN_HEIGHT < rect_y (srect (fst (enemy_steps n e g))) + e_speed e" by blast
  let ?e = "fst (enemy_steps n e g)" and ?g = "snd (enemy_steps n e g)"
  from r have "SCREEN_HEIGHT < rect_y (srect ?e) + e_speed ?e" by (simp add: enemy_steps_speed)
  then have "rect_y (srect (fst (enemy_steps (Suc n) e g))) =
               fst (randint (-100) (-40) (snd (randint 0 (SCREEN_WIDTH - rect_w (srect ?e)) ?g)))"
    by (simp del: enemy_steps.simps add: enemy_steps_snoc enemy_update_recycle)
  with randint_bounds [of "-100" "-40" "snd (randint 0 (SCREEN_WIDTH - rect_w (srect ?e)) ?g)"] n r
  show ?thesis by auto
qed

theorem enemy_recycled_within_witness:
  "enemy_ok \<lparr>srect = \<lparr>rect_x = 0, rect_y = -100, rect_w = 50, rect_h = 50\<rparr>, e_speed = 1\<rparr> \<and>
   (\<exists>n \<le> 700. SCREEN_HEIGHT < rect_y (srect (fst (enemy_steps n
        \<lparr>srect = \<lparr>rect_x = 0, rect_y = -100, rect_w = 50, rect_h = 50\<rparr>, e_speed = 1\<rparr> \<lparr>rand_src = (\<lambda>n. 0), rand_pos = 0\<rparr>))) + 1)"
proof -
  have ok: "enemy_ok \<lparr>srect = \<lparr>rect_x = 0, rect_y = -100, rect_w = 50, rect_h = 50\<rparr>, e_speed = 1\<rparr>"
    by (simp add: enemy_ok_def)
  from enemy_recycled_within [OF ok, of "\<lparr>rand_src = (\<lambda>n. 0), rand_pos = 0\<rparr>"] ok show ?thesis by auto
qed

text \<open>
  C38: Every enemy image a frame of a reachable state paints is horizontally inside the
  window and vertically between 100 pixels above the window and its bottom edge.
\<close>

theorem frame_enemies_in_band:
  assumes "reachable gm" and "Blit (Image create_bomb) (x, y) \<in> set (draw_frame gm)"
  shows "0 \<le> x \<and> x + 50 \<le> SCREEN_WIDTH \<and> -100 \<le> y \<and> y \<le> SCREEN_HEIGHT"
proof -
  from frame_bomb_enemy [OF assms(2)] obtain e where
    e: "e \<in> set (enemies (current_level gm))" "x = rect_x (srect e)" "y = rect_y (srect e)" by blast
  from reachable_inv [OF assms(1)] have "current_level gm \<in> set (levels gm)"
    by (simp add: game_inv_def current_level_def)
  with reachable_band [OF assms(1)] have "\<forall>e \<in> set (enemies (current_level gm)). enemy_in_band e"
    by (simp add: levels_in_band_def)
  with e show ?thesis by (auto simp: enemy_in_band_def)
qed

theorem frame_enemies_in_band_witness:
  "reachable (draw (play_tick \<lparr>key_left = False, key_right = False, key_up = False, key_down = False, key_space = False\<rparr>
      ((Game \<lparr>rand_src = (\<lambda>n. 0), rand_pos = 0\<rparr>)\<lparr>show_instructions := False\<rparr>))) \<and> Blit (Image create_bomb) (0, -99) \<in> set (draw_frame (draw (play_tick \<lparr>key_left = False, key_right = False, key_up = False, key_down = False, key_space = False\<rparr>
      ((Game \<lparr>rand_src = (\<lambda>n. 0), rand_pos = 0\<rparr>)\<lparr>show_instructions := False\<rparr>))))"
proof -
  from first_tick have r: "reachable (draw (play_tick \<lparr>key_left = False, key_right = False, key_up = False, key_down = False, key_space = False\<rparr>
      ((Game \<lparr>rand_src = (\<lambda>n. 0), rand_pos = 0\<rparr>)\<lparr>show_instructions := False\<rparr>)))" by blast
  from first_tick have m: "Blit (Image create_bomb) (0, -99) \<in> set (draw_frame (draw (play_tick \<lparr>key_left = False, key_right = False, key_up = False, key_down = False, key_space = False\<rparr>
      ((Game \<lparr>rand_src = (\<lambda>n. 0), rand_pos = 0\<rparr>)\<lparr>show_instructions := False\<rparr>))))"
    by (force simp: draw_frame_def level_draw_def blit_sprite_def)
  from frame_enemies_in_band [OF r m] r m show ?thesis by blast
qed

end
