(* ===== verification/Sprite_Groups.thy ===== *)
theory Sprite_Groups
  imports Render "HOL-Library.Multiset"
begin

text \<open>
  The sprite groups of a level as the source builds them (src/main.py lines 234--316):
  three \<open>pygame.sprite.Group\<close>s, \<open>enemies\<close>, \<open>obstacles\<close> and \<open>all_sprites\<close>, hold
  references to sprite objects, and an enemy object is a member of two of them at
  once. \<open>Enemy.update\<close> changes the object, which both groups then see, and
  \<open>enemy_hit.kill()\<close> removes the object from every group it belongs to. The model
  here is a store: a heap for the enemy objects and one for the obstacle objects,
  addressed by a counter that \<open>Enemy(...)\<close> and \<open>Obstacle(...)\<close> advance, and the
  groups as lists of addresses in insertion order. \<open>abs_level\<close> reads the enemy and
  obstacle groups out of the heap; the value model of theory \<open>Level\<close> is what this
  abstraction computes, tick by tick.
\<close>

datatype sprite_ref = Enemy_ref nat | Obstacle_ref nat

record glevel =
  g_enemies :: "nat list"
  g_obstacles :: "nat list"
  g_all_sprites :: "sprite_ref list"
  e_heap :: "nat \<rightharpoonup> enemy"
  o_heap :: "nat \<rightharpoonup> obstacle"
  next_ref :: nat

text \<open>The members of the enemy and obstacle groups, in group order.\<close>

definition group_enemies :: "glevel \<Rightarrow> enemy list" where
  "group_enemies gl = map (\<lambda>i. the (e_heap gl i)) (g_enemies gl)"

definition group_obstacles :: "glevel \<Rightarrow> obstacle list" where
  "group_obstacles gl = map (\<lambda>i. the (o_heap gl i)) (g_obstacles gl)"

definition abs_level :: "glevel \<Rightarrow> level" where
  "abs_level gl = \<lparr>enemies = group_enemies gl, obstacles = group_obstacles gl\<rparr>"

text \<open>
  The shape of the groups: no reference twice in a group, \<open>all_sprites\<close> holds exactly
  the members of the two other groups, every member is allocated, and the counter is
  above every address in use, so the next object gets a fresh one.
\<close>

definition groups_ok :: "glevel \<Rightarrow> bool" where
  "groups_ok gl \<longleftrightarrow>
     distinct (g_enemies gl) \<and> distinct (g_obstacles gl) \<and> distinct (g_all_sprites gl) \<and>
     set (g_all_sprites gl) = Enemy_ref ` set (g_enemies gl) \<union> Obstacle_ref ` set (g_obstacles gl) \<and>
     (\<forall>i \<in> set (g_enemies gl). e_heap gl i \<noteq> None \<and> i < next_ref gl) \<and>
     (\<forall>i \<in> set (g_obstacles gl). o_heap gl i \<noteq> None \<and> i < next_ref gl)"

section \<open>Group operations\<close>

text \<open>\<open>Group.add\<close>: a sprite already in the group is not added twice.\<close>

definition group_add :: "'a \<Rightarrow> 'a list \<Rightarrow> 'a list" where
  "group_add x xs = (if x \<in> set xs then xs else xs @ [x])"

text \<open>\<open>Sprite.kill()\<close>: the sprite leaves every group it is in.\<close>

definition kill :: "sprite_ref \<Rightarrow> glevel \<Rightarrow> glevel" where
  "kill r gl =
     (case r of
        Enemy_ref i \<Rightarrow> gl\<lparr>g_enemies := remove1 i (g_enemies gl)\<rparr>
      | Obstacle_ref i \<Rightarrow> gl\<lparr>g_obstacles := remove1 i (g_obstacles gl)\<rparr>)
     \<lparr>g_all_sprites := remove1 r (g_all_sprites gl)\<rparr>"

text \<open>
  \<open>enemy = Enemy(...)\<close>, \<open>self.enemies.add(enemy)\<close>, \<open>self.all_sprites.add(enemy)\<close>:
  the new object at a fresh address, added to both groups; the same for obstacles.
\<close>

definition add_enemy :: "enemy \<Rightarrow> glevel \<Rightarrow> glevel" where
  "add_enemy e gl =
     (let i = next_ref gl
      in gl\<lparr>e_heap := (e_heap gl)(i \<mapsto> e), next_ref := Suc i,
            g_enemies := group_add i (g_enemies gl),
            g_all_sprites := group_add (Enemy_ref i) (g_all_sprites gl)\<rparr>)"

definition add_obstacle :: "obstacle \<Rightarrow> glevel \<Rightarrow> glevel" where
  "add_obstacle ob gl =
     (let i = next_ref gl
      in gl\<lparr>o_heap := (o_heap gl)(i \<mapsto> ob), next_ref := Suc i,
            g_obstacles := group_add i (g_obstacles gl),
            g_all_sprites := group_add (Obstacle_ref i) (g_all_sprites gl)\<rparr>)"

section \<open>Construction\<close>

text \<open>\<open>Level.__init__\<close>: three empty groups.\<close>

definition Level_new :: glevel where
  "Level_new = \<lparr>g_enemies = [], g_obstacles = [], g_all_sprites = [],
                e_heap = Map.empty, o_heap = Map.empty, next_ref = 0\<rparr>"

text \<open>The \<open>for i in range(n)\<close> loops of the subclass constructors.\<close>

fun g_make_enemies :: "nat \<Rightarrow> glevel \<Rightarrow> rng \<Rightarrow> glevel \<times> rng" where
  "g_make_enemies 0 gl g = (gl, g)"
| "g_make_enemies (Suc n) gl g = (let (e, g1) = random_enemy g in g_make_enemies n (add_enemy e gl) g1)"

fun g_make_obstacles :: "nat \<Rightarrow> glevel \<Rightarrow> rng \<Rightarrow> glevel \<times> rng" where
  "g_make_obstacles 0 gl g = (gl, g)"
| "g_make_obstacles (Suc n) gl g = (let (ob, g1) = random_obstacle g in g_make_obstacles n (add_obstacle ob gl) g1)"

definition g_Level_init :: "nat \<Rightarrow> nat \<Rightarrow> rng \<Rightarrow> glevel \<times> rng" where
  "g_Level_init ne no g =
     (let (gl1, g1) = g_make_enemies ne Level_new g
      in g_make_obstacles no gl1 g1)"

definition g_Level1 :: "rng \<Rightarrow> glevel \<times> rng" where "g_Level1 g = g_Level_init 5 3 g"
definition g_Level2 :: "rng \<Rightarrow> glevel \<times> rng" where "g_Level2 g = g_Level_init 7 5 g"
definition g_Level3 :: "rng \<Rightarrow> glevel \<times> rng" where "g_Level3 g = g_Level_init 10 7 g"

section \<open>One tick\<close>

text \<open>\<open>self.enemies.update()\<close>: each enemy object of the group is changed in the heap.\<close>

fun g_update_enemies :: "nat list \<Rightarrow> (nat \<rightharpoonup> enemy) \<Rightarrow> rng \<Rightarrow> (nat \<rightharpoonup> enemy) \<times> rng" where
  "g_update_enemies [] h g = (h, g)"
| "g_update_enemies (i # is) h g =
     (let (e', g1) = enemy_update (the (h i)) g in g_update_enemies is (h(i \<mapsto> e')) g1)"

text \<open>\<open>pygame.sprite.spritecollideany(bullet, self.enemies)\<close>: the first enemy object of the group that the bullet touches.\<close>

definition enemy_hit :: "bullet \<Rightarrow> glevel \<Rightarrow> nat option" where
  "enemy_hit b gl = find (\<lambda>i. colliderect (srect b) (srect (the (e_heap gl i)))) (g_enemies gl)"

text \<open>
  The bullet loop: a bullet that hits kills the enemy object it hit, which leaves the
  enemy group and \<open>all_sprites\<close>, and kills itself, which leaves the player's group.
\<close>

fun g_check_bullets :: "bullet list \<Rightarrow> glevel \<Rightarrow> scoreboard \<Rightarrow> bullet list \<times> glevel \<times> scoreboard" where
  "g_check_bullets [] gl sb = ([], gl, sb)"
| "g_check_bullets (b # bs) gl sb =
     (case enemy_hit b gl of
        Some i \<Rightarrow> g_check_bullets bs (kill (Enemy_ref i) gl) (increase_score sb)
      | None \<Rightarrow> (let (bs', gl', sb') = g_check_bullets bs gl sb in (b # bs', gl', sb')))"

definition g_check_collisions :: "glevel \<Rightarrow> player \<Rightarrow> scoreboard \<Rightarrow> glevel \<times> player \<times> scoreboard" where
  "g_check_collisions gl p sb =
     (let (p1, sb1) = (if spritecollideany p (group_enemies gl) \<noteq> None
                       then (player_reset p, decrease_life sb) else (p, sb));
          (p2, sb2) = (if spritecollideany p1 (group_obstacles gl) \<noteq> None
                       then (player_reset p1, decrease_life sb1) else (p1, sb1));
          (bs, gl3, sb3) = g_check_bullets (bullets p2) gl sb2
      in (gl3, p2\<lparr>bullets := bs\<rparr>, sb3))"

definition g_spawn_enemies :: "glevel \<Rightarrow> rng \<Rightarrow> glevel \<times> rng" where
  "g_spawn_enemies gl g =
     (if length (g_enemies gl) < 5
      then (let (e, g1) = random_enemy g in (add_enemy e gl, g1))
      else (gl, g))"

definition g_level_update :: "glevel \<Rightarrow> player \<Rightarrow> scoreboard \<Rightarrow> rng \<Rightarrow> glevel \<times> player \<times> scoreboard \<times> rng" where
  "g_level_update gl p sb g =
     (let (h, g1) = g_update_enemies (g_enemies gl) (e_heap gl) g;
          p1 = update_player p;
          (gl2, p2, sb2) = g_check_collisions (gl\<lparr>e_heap := h\<rparr>) p1 sb;
          (gl3, g3) = g_spawn_enemies gl2 g1
      in (gl3, p2, sb2, g3))"

fun g_level_ticks :: "nat \<Rightarrow> glevel \<Rightarrow> player \<Rightarrow> scoreboard \<Rightarrow> rng \<Rightarrow> glevel \<times> player \<times> scoreboard \<times> rng" where
  "g_level_ticks 0 gl p sb g = (gl, p, sb, g)"
| "g_level_ticks (Suc n) gl p sb g =
     (case g_level_update gl p sb g of (gl', p', sb', g') \<Rightarrow> g_level_ticks n gl' p' sb' g')"

section \<open>Drawing\<close>

text \<open>\<open>Group.draw\<close> on \<open>all_sprites\<close>: each member's image at its rect, enemies as bombs, obstacles as green boxes.\<close>

definition draw_ref :: "glevel \<Rightarrow> sprite_ref \<Rightarrow> draw_op" where
  "draw_ref gl r =
     (case r of
        Enemy_ref i \<Rightarrow> blit_sprite create_bomb (the (e_heap gl i))
      | Obstacle_ref i \<Rightarrow> blit_sprite obstacle_image (the (o_heap gl i)))"

text \<open>\<open>Level.draw\<close>: the enemy group, the obstacle group, then \<open>all_sprites\<close>.\<close>

definition g_level_draw :: "glevel \<Rightarrow> draw_op list" where
  "g_level_draw gl =
     map (blit_sprite create_bomb) (group_enemies gl) @ map (blit_sprite obstacle_image) (group_obstacles gl)
     @ map (draw_ref gl) (g_all_sprites gl)"

section \<open>Lists of distinct references\<close>

lemma remove1_nth_distinct:
  "distinct xs \<Longrightarrow> i < length xs \<Longrightarrow> remove1 (xs ! i) xs = remove_at i xs"
proof (induction xs arbitrary: i)
  case Nil
  then show ?case by simp
next
  case (Cons x xs)
  then show ?case by (cases i) (auto simp: nth_mem)
qed

lemma map_remove_at: "map f (remove_at i xs) = remove_at i (map f xs)"
  by (simp add: remove_at_def take_map drop_map)

lemma first_index_map: "first_index P (map f xs) = first_index (P \<circ> f) xs"
  by (induction xs) simp_all

lemma group_add_fresh [simp]: "x \<notin> set xs \<Longrightarrow> group_add x xs = xs @ [x]"
  by (simp add: group_add_def)

section \<open>The group operations keep the groups in shape\<close>

lemma kill_heaps [simp]:
  "e_heap (kill r gl) = e_heap gl" "o_heap (kill r gl) = o_heap gl" "next_ref (kill r gl) = next_ref gl"
  by (cases r; simp add: kill_def)+

lemma kill_enemy_groups [simp]:
  "g_enemies (kill (Enemy_ref i) gl) = remove1 i (g_enemies gl)"
  "g_obstacles (kill (Enemy_ref i) gl) = g_obstacles gl"
  "g_all_sprites (kill (Enemy_ref i) gl) = remove1 (Enemy_ref i) (g_all_sprites gl)"
  by (simp_all add: kill_def)

lemma kill_enemy_ok: "groups_ok gl \<Longrightarrow> groups_ok (kill (Enemy_ref i) gl)"
  by (auto simp: groups_ok_def)

text \<open>The enemy the \<open>k\<close>-th group member is leaves the enemies read out of the heap at position \<open>k\<close>.\<close>

lemma kill_enemy_abs:
  assumes "groups_ok gl" "k < length (g_enemies gl)"
  shows "group_enemies (kill (Enemy_ref (g_enemies gl ! k)) gl) = remove_at k (group_enemies gl)"
    and "group_obstacles (kill (Enemy_ref (g_enemies gl ! k)) gl) = group_obstacles gl"
  using assms remove1_nth_distinct [of "g_enemies gl" k]
  by (simp_all add: groups_ok_def group_enemies_def group_obstacles_def map_remove_at)

lemma next_ref_fresh:
  "groups_ok gl \<Longrightarrow> next_ref gl \<notin> set (g_enemies gl) \<and> next_ref gl \<notin> set (g_obstacles gl)"
  by (auto simp: groups_ok_def)

lemma add_enemy_fresh:
  assumes "groups_ok gl"
  shows "add_enemy e gl =
           gl\<lparr>e_heap := (e_heap gl)(next_ref gl \<mapsto> e), next_ref := Suc (next_ref gl),
              g_enemies := g_enemies gl @ [next_ref gl],
              g_all_sprites := g_all_sprites gl @ [Enemy_ref (next_ref gl)]\<rparr>"
proof -
  have "Enemy_ref (next_ref gl) \<notin> set (g_all_sprites gl)"
    using assms next_ref_fresh [OF assms] by (auto simp: groups_ok_def)
  then show ?thesis
    using next_ref_fresh [OF assms] by (simp add: add_enemy_def Let_def)
qed

lemma add_obstacle_fresh:
  assumes "groups_ok gl"
  shows "add_obstacle ob gl =
           gl\<lparr>o_heap := (o_heap gl)(next_ref gl \<mapsto> ob), next_ref := Suc (next_ref gl),
              g_obstacles := g_obstacles gl @ [next_ref gl],
              g_all_sprites := g_all_sprites gl @ [Obstacle_ref (next_ref gl)]\<rparr>"
proof -
  have "Obstacle_ref (next_ref gl) \<notin> set (g_all_sprites gl)"
    using assms next_ref_fresh [OF assms] by (auto simp: groups_ok_def)
  then show ?thesis
    using next_ref_fresh [OF assms] by (simp add: add_obstacle_def Let_def)
qed

lemma add_enemy_ok: "groups_ok gl \<Longrightarrow> groups_ok (add_enemy e gl)"
  using next_ref_fresh [of gl] by (auto simp: add_enemy_fresh groups_ok_def)

lemma add_obstacle_ok: "groups_ok gl \<Longrightarrow> groups_ok (add_obstacle ob gl)"
  using next_ref_fresh [of gl] by (auto simp: add_obstacle_fresh groups_ok_def)

text \<open>A new object at the fresh address changes none of the objects already in a group.\<close>

lemma add_enemy_abs:
  assumes "groups_ok gl"
  shows "group_enemies (add_enemy e gl) = group_enemies gl @ [e]"
    and "group_obstacles (add_enemy e gl) = group_obstacles gl"
proof -
  have "map (\<lambda>i. the (((e_heap gl)(next_ref gl \<mapsto> e)) i)) (g_enemies gl) = group_enemies gl"
    using assms by (auto simp: groups_ok_def group_enemies_def)
  then show "group_enemies (add_enemy e gl) = group_enemies gl @ [e]"
    by (simp add: group_enemies_def add_enemy_fresh [OF assms])
  show "group_obstacles (add_enemy e gl) = group_obstacles gl"
    by (simp add: group_obstacles_def add_enemy_fresh [OF assms])
qed

lemma add_obstacle_abs:
  assumes "groups_ok gl"
  shows "group_obstacles (add_obstacle ob gl) = group_obstacles gl @ [ob]"
    and "group_enemies (add_obstacle ob gl) = group_enemies gl"
proof -
  have "map (\<lambda>i. the (((o_heap gl)(next_ref gl \<mapsto> ob)) i)) (g_obstacles gl) = group_obstacles gl"
    using assms by (auto simp: groups_ok_def group_obstacles_def)
  then show "group_obstacles (add_obstacle ob gl) = group_obstacles gl @ [ob]"
    by (simp add: group_obstacles_def add_obstacle_fresh [OF assms])
  show "group_enemies (add_obstacle ob gl) = group_enemies gl"
    by (simp add: group_enemies_def add_obstacle_fresh [OF assms])
qed

section \<open>Construction refines the value model\<close>

lemma g_make_enemies_abs:
  "groups_ok gl \<Longrightarrow>
     groups_ok (fst (g_make_enemies n gl g)) \<and>
     group_enemies (fst (g_make_enemies n gl g)) = group_enemies gl @ fst (make_enemies n g) \<and>
     group_obstacles (fst (g_make_enemies n gl g)) = group_obstacles gl \<and>
     snd (g_make_enemies n gl g) = snd (make_enemies n g)"
  by (induction n arbitrary: gl g) (simp_all add: split_beta add_enemy_ok add_enemy_abs)

lemma g_make_obstacles_abs:
  "groups_ok gl \<Longrightarrow>
     groups_ok (fst (g_make_obstacles n gl g)) \<and>
     group_obstacles (fst (g_make_obstacles n gl g)) = group_obstacles gl @ fst (make_obstacles n g) \<and>
     group_enemies (fst (g_make_obstacles n gl g)) = group_enemies gl \<and>
     snd (g_make_obstacles n gl g) = snd (make_obstacles n g)"
  by (induction n arbitrary: gl g) (simp_all add: split_beta add_obstacle_ok add_obstacle_abs)

lemma Level_new_ok: "groups_ok Level_new"
  by (simp add: groups_ok_def Level_new_def)

lemma g_Level_init_abs:
  "groups_ok (fst (g_Level_init ne no g)) \<and>
   abs_level (fst (g_Level_init ne no g)) = fst (Level_init ne no g) \<and>
   snd (g_Level_init ne no g) = snd (Level_init ne no g)"
proof -
  let ?m = "g_make_enemies ne Level_new g"
  have "group_enemies Level_new = [] \<and> group_obstacles Level_new = []"
    by (simp add: Level_new_def group_enemies_def group_obstacles_def)
  with g_make_enemies_abs [OF Level_new_ok, of ne g]
       g_make_obstacles_abs [of "fst ?m" no "snd ?m"]
  show ?thesis
    by (simp add: g_Level_init_def Level_init_def split_beta abs_level_def)
qed

section \<open>One tick refines the value model\<close>

lemma g_update_enemies_frame: "j \<notin> set ids \<Longrightarrow> fst (g_update_enemies ids h g) j = h j"
  by (induction ids arbitrary: h g) (simp_all add: split_beta)

lemma g_update_enemies_alloc: "h j \<noteq> None \<Longrightarrow> fst (g_update_enemies ids h g) j \<noteq> None"
  by (induction ids arbitrary: h g) (simp_all add: split_beta)

lemma map_the_upd_notin:
  "i \<notin> set ids \<Longrightarrow> map (\<lambda>j. the ((h(i \<mapsto> v)) j)) ids = map (\<lambda>j. the (h j)) ids"
  by auto

lemma g_update_enemies_abs:
  "distinct ids \<Longrightarrow>
     (map (\<lambda>i. the (fst (g_update_enemies ids h g) i)) ids, snd (g_update_enemies ids h g)) =
     update_enemies (map (\<lambda>i. the (h i)) ids) g"
proof (induction ids arbitrary: h g)
  case Nil
  then show ?case by simp
next
  case (Cons i ids)
  obtain e' g1 where eu: "enemy_update (the (h i)) g = (e', g1)" by fastforce
  from Cons.prems have i: "i \<notin> set ids" and d: "distinct ids" by simp_all
  have "(map (\<lambda>j. the (fst (g_update_enemies ids (h(i \<mapsto> e')) g1) j)) ids,
         snd (g_update_enemies ids (h(i \<mapsto> e')) g1)) =
        update_enemies (map (\<lambda>j. the ((h(i \<mapsto> e')) j)) ids) g1"
    by (rule Cons.IH [OF d])
  also have "\<dots> = update_enemies (map (\<lambda>j. the (h j)) ids) g1"
    by (simp only: map_the_upd_notin [OF i])
  finally have "(map (\<lambda>j. the (fst (g_update_enemies ids (h(i \<mapsto> e')) g1) j)) ids,
         snd (g_update_enemies ids (h(i \<mapsto> e')) g1)) = update_enemies (map (\<lambda>j. the (h j)) ids) g1" .
  with i show ?case by (simp add: eu g_update_enemies_frame split_beta prod_eq_iff)
qed

lemma enemy_hit_collide_index:
  "enemy_hit b gl = map_option ((!) (g_enemies gl)) (collide_index b (group_enemies gl))"
  by (simp add: enemy_hit_def collide_index_def group_enemies_def first_index_map first_index_find comp_def)

lemma g_check_bullets_abs:
  "groups_ok gl \<Longrightarrow> g_check_bullets bs gl sb = (bs', gl', sb') \<Longrightarrow>
     check_bullets bs (group_enemies gl) sb = (bs', group_enemies gl', sb') \<and> groups_ok gl' \<and>
     group_obstacles gl' = group_obstacles gl"
proof (induction bs gl sb arbitrary: bs' gl' sb' rule: g_check_bullets.induct)
  case (1 gl sb)
  then show ?case by simp
next
  case (2 b bs gl sb)
  show ?case
  proof (cases "collide_index b (group_enemies gl)")
    case None
    then have h: "enemy_hit b gl = None" by (simp add: enemy_hit_collide_index)
    with "2.prems"(2) obtain cs where cs: "g_check_bullets bs gl sb = (cs, gl', sb')" "bs' = b # cs"
      by (auto split: prod.splits)
    with "2.IH"(1) [OF h "2.prems"(1)] None show ?thesis by simp
  next
    case (Some k)
    have k: "k < length (g_enemies gl)"
      using collide_index_Some [OF Some] by (simp add: group_enemies_def)
    have h: "enemy_hit b gl = Some (g_enemies gl ! k)"
      using Some by (simp add: enemy_hit_collide_index)
    with "2.prems"(2) have r: "g_check_bullets bs (kill (Enemy_ref (g_enemies gl ! k)) gl) (increase_score sb) = (bs', gl', sb')"
      by simp
    from "2.IH"(2) [OF h kill_enemy_ok [OF "2.prems"(1)] r] kill_enemy_abs [OF "2.prems"(1) k] Some
    show ?thesis by simp
  qed
qed

lemma g_check_collisions_abs:
  assumes "groups_ok gl" "g_check_collisions gl p sb = (gl', p', sb')"
  shows "check_collisions (abs_level gl) p sb = (abs_level gl', p', sb') \<and> groups_ok gl'"
proof -
  obtain p2 sb2 where ps: "(let (p1, sb1) = (if spritecollideany p (group_enemies gl) \<noteq> None
                                            then (player_reset p, decrease_life sb) else (p, sb))
                            in if spritecollideany p1 (group_obstacles gl) \<noteq> None
                               then (player_reset p1, decrease_life sb1) else (p1, sb1)) = (p2, sb2)"
    by fastforce
  obtain bs gl3 sb3 where cb: "g_check_bullets (bullets p2) gl sb2 = (bs, gl3, sb3)"
    by (cases "g_check_bullets (bullets p2) gl sb2") auto
  have g: "g_check_collisions gl p sb = (gl3, p2\<lparr>bullets := bs\<rparr>, sb3)"
    using ps cb by (simp add: g_check_collisions_def Let_def split_beta)
  from g_check_bullets_abs [OF assms(1) cb]
  have "check_collisions (abs_level gl) p sb = (abs_level gl3, p2\<lparr>bullets := bs\<rparr>, sb3)" "groups_ok gl3"
    using ps by (simp_all add: check_collisions_def abs_level_def Let_def split_beta)
  with g assms(2) show ?thesis by simp
qed

lemma g_spawn_enemies_abs:
  assumes "groups_ok gl"
  shows "groups_ok (fst (g_spawn_enemies gl g)) \<and>
         spawn_enemies (abs_level gl) g = (abs_level (fst (g_spawn_enemies gl g)), snd (g_spawn_enemies gl g))"
  using add_enemy_ok [OF assms] add_enemy_abs [OF assms] assms
  by (simp add: g_spawn_enemies_def spawn_enemies_def split_beta abs_level_def group_enemies_def)

lemma g_level_update_abs:
  assumes "groups_ok gl" "g_level_update gl p sb g = (gl', p', sb', g')"
  shows "level_update (abs_level gl) p sb g = (abs_level gl', p', sb', g') \<and> groups_ok gl'"
proof -
  obtain h g1 where u: "g_update_enemies (g_enemies gl) (e_heap gl) g = (h, g1)" by fastforce
  let ?gl1 = "gl\<lparr>e_heap := h\<rparr>"
  have ok1: "groups_ok ?gl1"
    using assms(1) g_update_enemies_alloc [of "e_heap gl" _ "g_enemies gl" g] u
    by (auto simp: groups_ok_def)
  have ue: "update_enemies (enemies (abs_level gl)) g = (group_enemies ?gl1, g1)"
    using g_update_enemies_abs [of "g_enemies gl" "e_heap gl" g] assms(1) u
    by (simp add: groups_ok_def abs_level_def group_enemies_def)
  have l1: "(abs_level gl)\<lparr>enemies := group_enemies ?gl1\<rparr> = abs_level ?gl1"
    by (simp add: abs_level_def group_obstacles_def)
  obtain gl2 p2 sb2 where cc: "g_check_collisions ?gl1 (update_player p) sb = (gl2, p2, sb2)"
    by (cases "g_check_collisions ?gl1 (update_player p) sb") auto
  note c = g_check_collisions_abs [OF ok1 cc]
  obtain gl3 g3 where sp: "g_spawn_enemies gl2 g1 = (gl3, g3)" by fastforce
  note s = g_spawn_enemies_abs [OF conjunct2 [OF c], of g1]
  from assms(2) u cc sp have "gl' = gl3 \<and> p' = p2 \<and> sb' = sb2 \<and> g' = g3"
    by (simp add: g_level_update_def)
  with ue l1 c s sp show ?thesis
    by (simp add: level_update_def)
qed

lemma g_level_ticks_abs:
  "groups_ok gl \<Longrightarrow> g_level_ticks n gl p sb g = (gl', p', sb', g') \<Longrightarrow>
     level_ticks n (abs_level gl) p sb g = (abs_level gl', p', sb', g') \<and> groups_ok gl'"
proof (induction n arbitrary: gl p sb g)
  case 0
  then show ?case by simp
next
  case (Suc n)
  obtain gl1 p1 sb1 g1 where u: "g_level_update gl p sb g = (gl1, p1, sb1, g1)"
    by (cases "g_level_update gl p sb g") auto
  from g_level_update_abs [OF Suc.prems(1) u] Suc.IH [of gl1 p1 sb1 g1] Suc.prems(2) u
  show ?case by simp
qed

section \<open>What the third draw call paints\<close>

lemma all_sprites_mset:
  assumes "groups_ok gl"
  shows "mset (g_all_sprites gl) = mset (map Enemy_ref (g_enemies gl) @ map Obstacle_ref (g_obstacles gl))"
proof -
  have "distinct (map Enemy_ref (g_enemies gl) @ map Obstacle_ref (g_obstacles gl))"
    using assms by (auto simp: groups_ok_def distinct_map inj_on_def)
  moreover have "distinct (g_all_sprites gl)"
    and "set (g_all_sprites gl) = set (map Enemy_ref (g_enemies gl) @ map Obstacle_ref (g_obstacles gl))"
    using assms by (simp_all add: groups_ok_def)
  ultimately show ?thesis
    using set_eq_iff_mset_eq_distinct by blast
qed

lemma g_level_draw_repaints:
  assumes "groups_ok gl"
  shows "\<exists>rest. g_level_draw gl = level_draw (abs_level gl) @ rest \<and>
                mset rest = mset (level_draw (abs_level gl))"
proof -
  have "mset (map (draw_ref gl) (g_all_sprites gl)) =
        mset (map (draw_ref gl) (map Enemy_ref (g_enemies gl) @ map Obstacle_ref (g_obstacles gl)))"
    by (simp only: mset_map all_sprites_mset [OF assms])
  also have "\<dots> = mset (level_draw (abs_level gl))"
    by (simp add: level_draw_def abs_level_def group_enemies_def group_obstacles_def draw_ref_def comp_def)
  finally show ?thesis
    by (simp add: g_level_draw_def level_draw_def abs_level_def)
qed

text \<open>
  The order of \<open>all_sprites\<close>, which decides what the last of the two paintings puts
  on top: the constructor's enemies, its obstacles, then the enemies spawned later.
\<close>

lemma g_make_enemies_refs:
  "groups_ok gl \<Longrightarrow>
     g_all_sprites (fst (g_make_enemies n gl g)) = g_all_sprites gl @ map Enemy_ref [next_ref gl..<next_ref gl + n] \<and>
     next_ref (fst (g_make_enemies n gl g)) = next_ref gl + n"
proof (induction n arbitrary: gl g)
  case 0
  then show ?case by simp
next
  case (Suc n)
  have "[next_ref gl..<next_ref gl + Suc n] = next_ref gl # [Suc (next_ref gl)..<Suc (next_ref gl) + n]"
    by (simp add: upt_rec)
  with Suc.IH [OF add_enemy_ok [OF Suc.prems]] add_enemy_fresh [OF Suc.prems] show ?case
    by (simp add: split_beta)
qed

lemma g_make_obstacles_refs:
  "groups_ok gl \<Longrightarrow>
     g_all_sprites (fst (g_make_obstacles n gl g)) = g_all_sprites gl @ map Obstacle_ref [next_ref gl..<next_ref gl + n] \<and>
     next_ref (fst (g_make_obstacles n gl g)) = next_ref gl + n"
proof (induction n arbitrary: gl g)
  case 0
  then show ?case by simp
next
  case (Suc n)
  have "[next_ref gl..<next_ref gl + Suc n] = next_ref gl # [Suc (next_ref gl)..<Suc (next_ref gl) + n]"
    by (simp add: upt_rec)
  with Suc.IH [OF add_obstacle_ok [OF Suc.prems]] add_obstacle_fresh [OF Suc.prems] show ?case
    by (simp add: split_beta)
qed

lemma g_Level_init_spawn_order:
  "g_all_sprites (add_enemy e (fst (g_Level_init ne no g))) =
     map Enemy_ref [0..<ne] @ map Obstacle_ref [ne..<ne + no] @ [Enemy_ref (ne + no)]"
proof -
  let ?m = "g_make_enemies ne Level_new g"
  note m = g_make_enemies_refs [OF Level_new_ok, of ne g]
  note ok = conjunct1 [OF g_make_enemies_abs [OF Level_new_ok, of ne g]]
  note o = g_make_obstacles_refs [OF ok, of no "snd ?m"]
  have "groups_ok (fst (g_Level_init ne no g))"
    using g_Level_init_abs by blast
  from add_enemy_fresh [OF this] m o show ?thesis
    by (simp add: g_Level_init_def split_beta Level_new_def)
qed

lemma g_Levels_abs:
  "abs_level (fst (g_Level1 g)) = fst (Level1 g) \<and> snd (g_Level1 g) = snd (Level1 g)"
  "abs_level (fst (g_Level2 g)) = fst (Level2 g) \<and> snd (g_Level2 g) = snd (Level2 g)"
  "abs_level (fst (g_Level3 g)) = fst (Level3 g) \<and> snd (g_Level3 g) = snd (Level3 g)"
  using g_Level_init_abs by (simp_all add: g_Level1_def g_Level2_def g_Level3_def Level1_def Level2_def Level3_def)

section \<open>The aliased groups refine the value model\<close>

text \<open>
  C40: For every level the constructors build and every number of updates, the level
  with its sprite groups as the source holds them (enemy and obstacle objects in a heap,
  shared by the \<open>enemies\<close>, \<open>obstacles\<close> and \<open>all_sprites\<close> groups, changed in place by
  \<open>Enemy.update\<close>, killed from every group at once, spawned at fresh addresses)
  computes exactly the enemies, obstacles, player, scoreboard and random state of the
  value model of \<open>Level.update\<close>; and \<open>all_sprites\<close> stays exactly the members of the two
  other groups, with no duplicate, dead or missing member.
\<close>

theorem groups_refine_level_ticks:
  "case g_Level_init ne no g0 of (gl0, g) \<Rightarrow>
     (case g_level_ticks n gl0 p sb g of (gl, p', sb', g') \<Rightarrow>
        level_ticks n (fst (Level_init ne no g0)) p sb (snd (Level_init ne no g0)) = (abs_level gl, p', sb', g') \<and>
        groups_ok gl)"
proof -
  obtain gl0 g where i: "g_Level_init ne no g0 = (gl0, g)" by fastforce
  obtain gl p' sb' g' where t: "g_level_ticks n gl0 p sb g = (gl, p', sb', g')"
    by (cases "g_level_ticks n gl0 p sb g") auto
  from g_Level_init_abs [of ne no g0] i
  have "groups_ok gl0" "abs_level gl0 = fst (Level_init ne no g0)" "g = snd (Level_init ne no g0)"
    by simp_all
  with g_level_ticks_abs [OF _ t] i t show ?thesis by simp
qed

theorem groups_refine_level_ticks_witness:
  "case g_Level_init 5 3 \<lparr>rand_src = (\<lambda>k. 0), rand_pos = 0\<rparr> of (gl0, g) \<Rightarrow>
     (case g_level_ticks 2 gl0 Player Scoreboard g of (gl, p', sb', g') \<Rightarrow>
        level_ticks 2 (fst (Level_init 5 3 \<lparr>rand_src = (\<lambda>k. 0), rand_pos = 0\<rparr>)) Player Scoreboard
          (snd (Level_init 5 3 \<lparr>rand_src = (\<lambda>k. 0), rand_pos = 0\<rparr>)) = (abs_level gl, p', sb', g') \<and>
        groups_ok gl)"
  by (rule groups_refine_level_ticks)

end
