(* ===== verification/Spec2Isabelle.thy ===== *)
theory Spec2Isabelle
  imports Controller Bullet_Loop Enemy_Motion Sprite_Groups
begin

text \<open>
  \<^bold>\<open>A verification development of the shooter game of src/main.py.\<close>

  \<^emph>\<open>The program.\<close> src/main.py is a pygame arcade shooter in one file. A \<open>Game\<close>
  owns three levels, a \<open>Player\<close> and a \<open>Scoreboard\<close> and runs a
  \<open>while self.running\<close> loop: poll the events (quit, any key to leave the
  instructions, clicks on the play-again and exit buttons), then, while playing, read
  the keys, run the current level's \<open>update\<close> and test game over, win and level
  advance in an \<open>if/elif\<close> chain, then draw. \<open>Level.update\<close> moves the enemies
  (recycling those that fall off the screen), moves the player's bullets, resolves
  collisions (enemy or obstacle against the player costs a life and resets the player;
  a bullet kills the first enemy it touches and scores 10) and spawns one enemy when
  fewer than five are left. All randomness comes from \<open>random.randint\<close>.

  \<^emph>\<open>The theories.\<close>
  \<^item> \<open>Prelude\<close>: the \<open>shooter_defs\<close> and \<open>shooter_consts\<close> collections and the
    list operations the sprite groups need (\<open>first_index\<close>, \<open>remove_at\<close>).
  \<^item> \<open>Rect\<close>: \<open>SCREEN_WIDTH\<close>, \<open>SCREEN_HEIGHT\<close> (lines 8--9), and the pygame
    interface the code calls: \<open>rect\<close>, \<open>colliderect\<close>, \<open>collidepoint\<close>,
    the \<open>sprite\<close> record every entity extends, \<open>spritecollideany\<close>. pygame is not
    under src/; these are modelled from its documented behaviour.
  \<^item> \<open>Rand_Source\<close>: \<open>random.randint\<close> as a draw from an explicit oracle
    (\<open>rng\<close>: raw draws and a cursor). Every draw of the code advances the cursor once,
    in the code's order; \<open>randint_reaches\<close> shows every outcome in range is possible,
    so the oracle restricts nothing.
  \<^item> \<open>Sprites\<close>: \<open>Bullet\<close>, \<open>bullet_update\<close> (None is \<open>kill()\<close>), \<open>Enemy\<close>,
    \<open>enemy_update\<close> (recycling), \<open>Obstacle\<close>; the invariant \<open>enemy_ok\<close>.
  \<^item> \<open>Player\<close>: \<open>keys\<close> (the five keys read), \<open>Player\<close>, \<open>shoot\<close>,
    \<open>handle_keys\<close>, \<open>update_player\<close> (\<open>Player.update\<close>), \<open>player_reset\<close>; the
    invariant \<open>player_ok\<close> (on screen and on the 5-pixel grid of the spawn point).
  \<^item> \<open>Scoreboard\<close>: the counters and \<open>is_game_over\<close>; the order \<open>sb_le\<close>.
  \<^item> \<open>Level\<close>: \<open>level\<close> (enemy and obstacle groups as lists in pygame's
    iteration order), \<open>Level_init\<close> and \<open>Level1/2/3\<close>, \<open>update_enemies\<close>,
    \<open>check_bullets\<close> (the bullet loop), \<open>check_collisions\<close>, \<open>spawn_enemies\<close>,
    \<open>level_update\<close>; the counting lemmas of one tick.
  \<^item> \<open>Game\<close>: \<open>game\<close>, \<open>Game\<close> (\<open>__init__\<close>), \<open>reset_game\<close>,
    \<open>handle_event(s)\<close>, \<open>play_tick\<close>, \<open>draw\<close> (its effect on state: the button
    attributes), \<open>game_iteration\<close>, \<open>run\<close>, \<open>main\<close>; the invariant \<open>game_inv\<close>,
    \<open>buttons_ready\<close> and the inductive set \<open>reachable\<close> of loop-head states.
  \<^item> \<open>Game_Invariants\<close>: \<open>session_inv\<close> (lives in \<open>[-1, 3]\<close>, score a
    non-negative multiple of 10, the outcome flags agree with the scoreboard) and
    \<open>sprites_ok\<close> (bullet and obstacle sizes, with \<open>bullet_ok\<close>, \<open>obstacle_ok\<close>
    of \<open>Sprites\<close>), both invariants of \<open>reachable\<close> by rule induction.
  \<^item> \<open>Controller\<close>: the specification's controller state machine as the inductive
    \<open>ctrl_step\<close> on (screen, level index), the abstraction \<open>abs_ctrl\<close> through
    \<open>mode_of\<close> (the screen \<open>Game.draw\<close> selects, lines 74--84), and the
    simulation: one event is at most one abstract step, one play update at most one,
    one loop iteration a sequence of them, and \<open>main\<close> refines the machine.
  \<^item> \<open>Bullet_Loop\<close>: the bullet loop of lines 255--260 as Python runs it (a walk over a
    snapshot with kills in the live groups, \<open>bullet_loop\<close>), proved equal to
    \<open>check_bullets\<close>.
  \<^item> \<open>Render\<close>: the frames \<open>Game.draw\<close> paints (\<open>draw_frame\<close>): the colours,
    the sprite images (\<open>create_rocket\<close>, \<open>create_bomb\<close>, \<open>bullet_image\<close>,
    \<open>obstacle_image\<close>), \<open>display_instructions\<close>, \<open>display_game_over\<close>,
    \<open>display_won\<close>, \<open>display_buttons\<close>, \<open>display_level\<close>,
    \<open>scoreboard_draw\<close>, \<open>player_draw\<close>, \<open>level_draw\<close>, and Python's \<open>str\<close>
    of an integer (\<open>str_int\<close>) with a reader that inverts it.
  \<^item> \<open>Enemy_Motion\<close>: the band of positions enemies and obstacles keep
    (\<open>levels_in_band\<close>, an invariant of \<open>reachable\<close>), \<open>enemy_steps\<close> (repeated
    \<open>Enemy.update\<close> on one enemy) and the bound of 701 updates within which an enemy
    is recycled, and what this means for the enemy images of a frame.
  \<^item> \<open>Sprite_Groups\<close>: the three sprite groups of a level as the source holds them
    (lines 234--316), with the objects they share in a store: \<open>glevel\<close> has the
    enemy and obstacle heaps, the address counter that \<open>Enemy(...)\<close> and
    \<open>Obstacle(...)\<close> advance (\<open>add_enemy\<close>, \<open>add_obstacle\<close>, with
    \<open>group_add\<close> for \<open>Group.add\<close>), and the \<open>enemies\<close>, \<open>obstacles\<close> and
    \<open>all_sprites\<close> groups as address lists. \<open>kill\<close> removes a sprite from every
    group, \<open>g_update_enemies\<close> changes the enemy objects in place, and
    \<open>g_level_update\<close> is \<open>Level.update\<close> over the store. \<open>g_level_draw\<close> is all of
    \<open>Level.draw\<close>, the third call on \<open>all_sprites\<close> included. \<open>abs_level\<close> reads
    the groups out of the heap. The shape invariant \<open>groups_ok\<close> says that every
    group is without duplicates, that \<open>all_sprites\<close> is the union of the two other
    groups, and that addresses are allocated and fresh.
  \<^item> this theory: the properties that span components, the general forms of the
    findings, and \<open>trapped\<close>, a game held by an obstacle over the spawn point, which
    shows that a game over is reachable (\<open>trap_game_over\<close>).

  \<^emph>\<open>What is proved.\<close> Per component: the functional behaviour of each operation on
  its branches (\<open>Sprites\<close>, \<open>Player\<close>, \<open>Level\<close>), the counting lemmas of one
  level tick, bullet lifetime (\<open>bullets_expire\<close>: no bullet survives more than
  \<open>(Y + 20) / 7\<close> updates), the equivalence of the bullet loop with its Python
  reading. Of the whole program: the invariants of every loop-head state
  (\<open>game_inv\<close>, \<open>session_inv\<close>, \<open>sprites_ok\<close>), that the loop never raises,
  the refinement of the controller specification, what a frame shows (buttons are
  click targets, every image has the size of the sprite rect it is drawn at, texts
  are on screen, the lives and level texts show 1 to 3, the
  scoreboard texts read back as the counters), that the store model with its aliased
  groups computes what the value model computes over any number of ticks
  (\<open>groups_refine_level_ticks\<close>), so the value model loses nothing of the sharing,
  and that the third call of \<open>Level.draw\<close> paints the same sprites again
  (\<open>g_level_draw_repaints\<close>, and \<open>level_draw_repaints_sprites\<close> on every state the
  store model reaches). The findings are proved in general form: the spawn trap, the
  exact condition for two lives lost in one collision step, and a quit cancelled by a
  click on Play Again, on the end screen of any reachable state. The exact condition under
  which an event raises \<open>AttributeError\<close> (\<open>handle_event_raises\<close>), of which
  \<open>main_never_raises\<close> shows that no reachable state meets it.

  \<^emph>\<open>State and effects.\<close> Every mutation is explicit state passing. Python's
  aliasing of \<open>self.current_level\<close> with \<open>self.levels[i]\<close> is the derived
  \<open>current_level\<close>; updating the current level writes \<open>levels[i]\<close>. The one
  exception the loop can raise (reading \<open>self.play_again_button\<close> before \<open>draw\<close>
  created it) is the \<open>Inl AttributeError\<close> branch of \<open>handle_event\<close>. The loop is
  run over the finite list of frames the environment supplies; a frame is one event
  poll and one keyboard state. No fuel is needed: \<open>run\<close> is structural in the frames.

  \<^emph>\<open>Not modelled.\<close> Fonts and pixels: a rendered text is its string and colour, an
  image the shapes drawn on it. The clock, \<open>pygame.init\<close> and the window (lines
  1--5, 19--21, 70). The game-level theories use the value model of a level, whose
  \<open>level_draw\<close> has only the first two calls of \<open>Level.draw\<close>. The third call,
  on \<open>all_sprites\<close>, is modelled in \<open>Sprite_Groups\<close>: it repaints the same sprites
  at the same places. It does not change any sprite's position or image, only which
  sprite ends up on top. \<open>Level.is_completed\<close> is unused and returns False.
\<close>

definition G0 :: rng where
  "G0 = \<lparr>rand_src = (\<lambda>n. 0), rand_pos = 0\<rparr>"

definition no_keys :: keys where
  "no_keys = \<lparr>key_left = False, key_right = False, key_up = False, key_down = False,
              key_space = False\<rparr>"

definition TRAP_RNG :: rng where
  "TRAP_RNG = \<lparr>rand_src = (\<lambda>n. if n = 15 then 400 else if n = 16 then 440 else 0), rand_pos = 0\<rparr>"

definition DOUBLE_HIT_LEVEL :: level where
  "DOUBLE_HIT_LEVEL =
     \<lparr>enemies = [\<lparr>srect = \<lparr>rect_x = 690, rect_y = 480, rect_w = 50, rect_h = 50\<rparr>, e_speed = 1\<rparr>],
      obstacles = [Obstacle 400 540]\<rparr>"

definition NEAR_ENEMY :: player where
  "NEAR_ENEMY = Player\<lparr>srect := \<lparr>rect_x = 700, rect_y = 500, rect_w = 50, rect_h = 50\<rparr>\<rparr>"

text \<open>
  A game in play on level 1 with the player on the spawn point, no bullets, no score,
  lives left, and an obstacle over the spawn point: the trap of C13.
\<close>

definition trapped :: "game \<Rightarrow> bool" where
  "trapped gm \<longleftrightarrow>
     player gm = Player \<and> current_level_index gm = 0 \<and> length (levels gm) = 3 \<and>
     Obstacle 400 540 \<in> set (obstacles (levels gm ! 0)) \<and> score (scoreboard gm) = 0 \<and>
     0 < lives (scoreboard gm) \<and> running gm \<and>
     \<not> show_instructions gm \<and> \<not> game_over gm \<and> \<not> won gm"

text \<open>
  C1: One play tick never lowers the score, raises it only by multiples of 10, and never
  gives back a life.
\<close>

theorem play_tick_scoreboard_monotone:
  "sb_le (scoreboard gm) (scoreboard (play_tick k gm))"
  using play_tick_scoreboard [of k gm] by (auto simp: sb_le_def)

text \<open>
  C3: In every state at the head of the game loop there are three levels, the level
  index is in range, every enemy is 50x50 with speed 1 to 3, the player is on its grid
  on screen, and once the game is over or won both buttons exist.
\<close>

theorem reachable_game_inv:
  assumes "reachable gm"
  shows "length (levels gm) = 3 \<and> current_level_index gm < 3 \<and>
         (\<forall>l \<in> set (levels gm). \<forall>e \<in> set (enemies l). enemy_ok e) \<and> player_ok (player gm) \<and>
         (game_over gm \<or> won gm \<longrightarrow>
            play_again_button gm = Some PLAY_AGAIN_RECT \<and> exit_button gm = Some EXIT_RECT)"
  using reachable_inv [OF assms] by (auto simp: game_inv_def buttons_ready_def)

theorem reachable_game_inv_witness:
  "reachable (Game G0) \<and> length (levels (Game G0)) = 3 \<and> current_level_index (Game G0) < 3"
  using reachable_game_inv [OF reachable.init [of G0]] reachable.init [of G0] by simp

text \<open>C4: The program never raises: whatever the frames, \<open>main\<close> returns a state.\<close>

theorem main_never_raises: "\<exists>gm. main g0 frs = Inr gm"
  using run_reachable [OF reachable.init [of g0], of frs] by (auto simp: main_def)

text \<open>
  C5: When the lives are gone after the level update, the tick ends in game over, and
  neither the win flag nor the level changes in that tick.
\<close>

theorem play_tick_game_over:
  assumes "is_game_over (scoreboard (play_tick k gm))"
  shows "game_over (play_tick k gm) \<and> won (play_tick k gm) = won gm \<and>
         current_level_index (play_tick k gm) = current_level_index gm"
proof -
  obtain l' p2 sb' g' where lu: "level_update (levels gm ! current_level_index gm)
      (handle_keys k (player gm)) (scoreboard gm) (rng_state gm) = (l', p2, sb', g')"
    by (rule play_tick_obtain)
  have "scoreboard (play_tick k gm) = sb'" by (simp add: play_tick_def lu Let_def)
  with assms have "is_game_over sb'" by simp
  then show ?thesis by (simp add: play_tick_def lu Let_def)
qed

theorem play_tick_game_over_witness:
  "is_game_over (scoreboard (play_tick no_keys ((Game G0)\<lparr>scoreboard := \<lparr>score = 0, lives = 0\<rparr>\<rparr>))) \<and>
   game_over (play_tick no_keys ((Game G0)\<lparr>scoreboard := \<lparr>score = 0, lives = 0\<rparr>\<rparr>))"
proof -
  let ?gm = "(Game G0)\<lparr>scoreboard := \<lparr>score = 0, lives = 0\<rparr>\<rparr>"
  have h: "is_game_over (scoreboard (play_tick no_keys ?gm))"
    using play_tick_scoreboard [of no_keys ?gm] by (auto simp: is_game_over_def)
  show ?thesis using h play_tick_game_over [OF h] by simp
qed

text \<open>
  C6: A score of 500 wins at any level, before any level advance is considered, as long
  as lives remain.
\<close>

theorem play_tick_win:
  assumes "\<not> is_game_over (scoreboard (play_tick k gm))"
    and "500 \<le> score (scoreboard (play_tick k gm))"
  shows "won (play_tick k gm) \<and> game_over (play_tick k gm) = game_over gm \<and>
         current_level_index (play_tick k gm) = current_level_index gm"
proof -
  obtain l' p2 sb' g' where lu: "level_update (levels gm ! current_level_index gm)
      (handle_keys k (player gm)) (scoreboard gm) (rng_state gm) = (l', p2, sb', g')"
    by (rule play_tick_obtain)
  have "scoreboard (play_tick k gm) = sb'" by (simp add: play_tick_def lu Let_def)
  with assms have "\<not> is_game_over sb'" "500 \<le> score sb'" by simp_all
  then show ?thesis by (simp add: play_tick_def lu Let_def)
qed

theorem play_tick_win_witness:
  "\<not> is_game_over (scoreboard (play_tick no_keys ((Game G0)\<lparr>scoreboard := \<lparr>score = 500, lives = 3\<rparr>\<rparr>))) \<and>
   500 \<le> score (scoreboard (play_tick no_keys ((Game G0)\<lparr>scoreboard := \<lparr>score = 500, lives = 3\<rparr>\<rparr>))) \<and>
   won (play_tick no_keys ((Game G0)\<lparr>scoreboard := \<lparr>score = 500, lives = 3\<rparr>\<rparr>))"
proof -
  let ?gm = "(Game G0)\<lparr>scoreboard := \<lparr>score = 500, lives = 3\<rparr>\<rparr>"
  obtain k d where kd: "d \<le> 2" "scoreboard (play_tick no_keys ?gm) = \<lparr>score = 500 + 10 * int k, lives = 3 - int d\<rparr>"
    using play_tick_scoreboard [of no_keys ?gm] by auto
  then have h1: "\<not> is_game_over (scoreboard (play_tick no_keys ?gm))"
    and h2: "500 \<le> score (scoreboard (play_tick no_keys ?gm))"
    by (simp_all add: is_game_over_def)
  show ?thesis using h1 h2 play_tick_win [OF h1 h2] by simp
qed

text \<open>
  C7: The level index moves at most one step per tick: from 0 to 1 at a score of 100,
  from 1 to 2 at 300, and only when the tick ends neither in game over nor in a win.
\<close>

theorem play_tick_level_index:
  "current_level_index (play_tick k gm) =
     (let sb' = scoreboard (play_tick k gm); i = current_level_index gm
      in if \<not> is_game_over sb' \<and> score sb' < 500 \<and>
            (300 \<le> score sb' \<and> i = 1 \<or> 100 \<le> score sb' \<and> i = 0)
         then Suc i else i)"
proof -
  obtain l' p2 sb' g' where lu: "level_update (levels gm ! current_level_index gm)
      (handle_keys k (player gm)) (scoreboard gm) (rng_state gm) = (l', p2, sb', g')"
    by (rule play_tick_obtain)
  have "scoreboard (play_tick k gm) = sb'" by (simp add: play_tick_def lu Let_def)
  then show ?thesis by (auto simp: play_tick_def lu Let_def)
qed

text \<open>C8: In every state at the head of the game loop the player's rect lies on the screen.\<close>

theorem reachable_player_on_screen:
  "reachable gm \<Longrightarrow> on_screen (srect (player gm))"
  using reachable_inv player_ok_on_screen by (auto simp: game_inv_def)

theorem reachable_player_on_screen_witness:
  "reachable (Game G0) \<and> on_screen (srect (player (Game G0)))"
  using reachable_player_on_screen [OF reachable.init [of G0]] reachable.init [of G0] by simp

section \<open>Scenarios and findings\<close>

lemma collides_near_spawn:
  assumes "\<bar>rect_x r - SPAWN_X\<bar> \<le> 5" "\<bar>rect_y r - SPAWN_Y\<bar> \<le> 5" "rect_w r = 50" "rect_h r = 50"
    and "306 \<le> ox" "ox \<le> 444" "516 \<le> oy" "oy \<le> 570"
  shows "colliderect r (srect (Obstacle ox oy))"
  using assms by (simp add: colliderect_def Obstacle_def SPAWN_X_def SPAWN_Y_def shooter_consts abs_le_iff)

lemma hits_obstacle:
  "o1 \<in> set os \<Longrightarrow> colliderect (srect p) (srect o1) \<Longrightarrow> spritecollideany p os \<noteq> None"
  by (auto simp: spritecollideany_None_iff)

lemma Game_level_sizes:
  "map (\<lambda>l. (length (enemies l), length (obstacles l))) (levels (Game g0)) = [(5, 3), (7, 5), (10, 7)]"
  by (simp add: Game_def Level1_def Level2_def Level3_def split_beta Level_init_lengths)

lemmas level_eval_defs = level_update_def check_collisions_def spawn_enemies_def random_enemy_def
  Enemy_def randint_def spritecollideany_def update_player_def List.map_filter_def Player_def
  Bullet_def bullet_update_def enemy_update_def collide_index_def colliderect_def Obstacle_def
  shooter_defs shooter_consts Let_def split_beta

text \<open>
  C11: A new game shows the instructions, is at level index 0 with score 0 and 3 lives,
  and has built all three levels: 5 enemies and 3 obstacles, 7 and 5, 10 and 7.
\<close>

theorem Game_initial_state:
  "map (\<lambda>l. (length (enemies l), length (obstacles l))) (levels (Game g0)) = [(5, 3), (7, 5), (10, 7)] \<and>
   current_level_index (Game g0) = 0 \<and> score (scoreboard (Game g0)) = 0 \<and>
   lives (scoreboard (Game g0)) = 3 \<and> show_instructions (Game g0) \<and> running (Game g0) \<and>
   \<not> game_over (Game g0) \<and> \<not> won (Game g0)"
  using Game_level_sizes [of g0] Game_fields [of g0] by (simp add: Scoreboard_def)

text \<open>
  C12: \<open>Level.draw\<close> with all three of its calls, on every level state the store
  model reaches from a constructor after any number of updates: it paints the enemy
  group and the obstacle group, and then, through \<open>all_sprites\<close>, the same sprites
  again, every enemy and obstacle once, no killed enemy and no missing spawned one.
\<close>

theorem level_draw_repaints_sprites:
  "case g_Level_init ne no g0 of (gl0, g) \<Rightarrow>
     (case g_level_ticks n gl0 p sb g of (gl, p', sb', g') \<Rightarrow>
        \<exists>rest. g_level_draw gl = level_draw (abs_level gl) @ rest \<and>
               mset rest = mset (level_draw (abs_level gl)))"
proof -
  obtain gl0 g where i: "g_Level_init ne no g0 = (gl0, g)" by fastforce
  obtain gl p' sb' g' where t: "g_level_ticks n gl0 p sb g = (gl, p', sb', g')"
    by (cases "g_level_ticks n gl0 p sb g") auto
  from g_Level_init_abs [of ne no g0] i have "groups_ok gl0" by simp
  from conjunct2 [OF g_level_ticks_abs [OF this t]] have "groups_ok gl" .
  from g_level_draw_repaints [OF this] i t show ?thesis by simp
qed

text \<open>
  C13: An obstacle placed over the spawn point (x in [306, 444], y in [516, 570], inside
  the range the constructors draw from) traps the player: from the spawn point, every
  play tick costs at least one life and puts the player back on the spawn point,
  whatever keys are held.
\<close>

theorem spawn_point_trap:
  assumes "player_ok (player gm)"
    and "rect_x (srect (player gm)) = SPAWN_X" "rect_y (srect (player gm)) = SPAWN_Y"
    and "Obstacle ox oy \<in> set (obstacles (current_level gm))"
    and "306 \<le> ox" "ox \<le> 444" "516 \<le> oy" "oy \<le> 570"
  shows "lives (scoreboard (play_tick k gm)) \<le> lives (scoreboard gm) - 1 \<and>
         rect_x (srect (player (play_tick k gm))) = SPAWN_X \<and>
         rect_y (srect (player (play_tick k gm))) = SPAWN_Y"
proof -
  let ?lvl = "levels gm ! current_level_index gm"
  let ?p1 = "update_player (handle_keys k (player gm))"
  obtain l' p2 sb' g' where lu: "level_update ?lvl (handle_keys k (player gm))
      (scoreboard gm) (rng_state gm) = (l', p2, sb', g')"
    by (rule play_tick_obtain)
  obtain es g1 l2 where
    c: "check_collisions (?lvl\<lparr>enemies := es\<rparr>) ?p1 (scoreboard gm) = (l2, p2, sb')"
    using level_update_stages [OF lu] by blast
  have ob: "Obstacle ox oy \<in> set (obstacles (?lvl\<lparr>enemies := es\<rparr>))"
    using assms(4) by (simp add: current_level_def)
  have "srect ?p1 = srect (handle_keys k (player gm))" by (simp add: update_player_def)
  with handle_keys_srect [OF assms(1), of k] assms(2,3)
  have "colliderect (srect ?p1) (srect (Obstacle ox oy))"
    by (intro collides_near_spawn [OF _ _ _ _ assms(5-8)]) simp_all
  then have hit1: "spritecollideany ?p1 (obstacles (?lvl\<lparr>enemies := es\<rparr>)) \<noteq> None"
    using ob hits_obstacle by blast
  have "colliderect (srect (player_reset ?p1)) (srect (Obstacle ox oy))"
    using handle_keys_srect [OF assms(1), of k]
    by (intro collides_near_spawn [OF _ _ _ _ assms(5-8)]) (simp_all add: player_reset_def update_player_def)
  then have hit2: "spritecollideany (player_reset ?p1) (obstacles (?lvl\<lparr>enemies := es\<rparr>)) \<noteq> None"
    using ob hits_obstacle by blast
  from check_collisions_player [OF c] hit1 hit2
  have p2: "rect_x (srect p2) = SPAWN_X \<and> rect_y (srect p2) = SPAWN_Y"
    and l: "lives sb' \<le> lives (scoreboard gm) - 1"
    by (auto simp: Let_def player_reset_def split: if_splits)
  have "scoreboard (play_tick k gm) = sb'" by (simp add: play_tick_def lu Let_def)
  moreover have "player (play_tick k gm) \<in> {p2, player_reset p2}"
    by (simp add: play_tick_def lu Let_def)
  ultimately show ?thesis using p2 l by (auto simp: player_reset_def)
qed

lemma Game_TRAP_obstacle:
  "Obstacle 400 540 \<in> set (obstacles (current_level (Game TRAP_RNG)))"
  by (simp add: Game_def Level1_def Level2_def Level3_def Level_init_def current_level_def
                random_enemy_def random_obstacle_def Enemy_def randint_def TRAP_RNG_def
                shooter_consts split_beta eval_nat_numeral)

theorem spawn_point_trap_witness:
  "player_ok (player (Game TRAP_RNG)) \<and>
   Obstacle 400 540 \<in> set (obstacles (current_level (Game TRAP_RNG))) \<and>
   lives (scoreboard (play_tick no_keys (Game TRAP_RNG))) \<le> 2"
proof -
  have h1: "player_ok (player (Game TRAP_RNG))" using Game_fields [of TRAP_RNG] Player_ok by simp
  have h23: "rect_x (srect (player (Game TRAP_RNG))) = SPAWN_X"
            "rect_y (srect (player (Game TRAP_RNG))) = SPAWN_Y"
    using Game_fields [of TRAP_RNG] by (simp_all add: Player_def)
  have h4: "Obstacle 400 540 \<in> set (obstacles (current_level (Game TRAP_RNG)))"
    by (rule Game_TRAP_obstacle)
  from spawn_point_trap [OF h1 h23 h4, of no_keys]
  have "lives (scoreboard (play_tick no_keys (Game TRAP_RNG))) \<le> lives (scoreboard (Game TRAP_RNG)) - 1"
    by simp
  with h1 h4 Game_fields [of TRAP_RNG] show ?thesis by (simp add: Scoreboard_def)
qed

text \<open>
  C14: "Play again" rebuilds the whole game as a fresh \<open>Game\<close> would, with the
  instructions skipped; only the button attributes of the old object survive.
\<close>

theorem reset_game_fresh:
  "map (\<lambda>l. (length (enemies l), length (obstacles l))) (levels (reset_game gm)) = [(5, 3), (7, 5), (10, 7)] \<and>
   current_level_index (reset_game gm) = 0 \<and> scoreboard (reset_game gm) = Scoreboard \<and>
   player (reset_game gm) = Player \<and> running (reset_game gm) \<and>
   \<not> game_over (reset_game gm) \<and> \<not> won (reset_game gm) \<and> \<not> show_instructions (reset_game gm) \<and>
   play_again_button (reset_game gm) = play_again_button gm \<and> exit_button (reset_game gm) = exit_button gm"
  using Game_level_sizes [of "rng_state gm"] Game_fields [of "rng_state gm"]
  by (simp add: reset_game_def)

text \<open>
  C15: While the instructions show, a frame without a key press changes nothing of the
  play state: no level, player or scoreboard update runs, and the instructions stay.
\<close>

theorem instructions_block_play:
  assumes "reachable gm" "show_instructions gm" "KeyDown \<notin> set (events fr)"
    and "game_iteration gm fr = Inr gm'"
  shows "levels gm' = levels gm \<and> player gm' = player gm \<and> scoreboard gm' = scoreboard gm \<and>
         show_instructions gm'"
proof -
  from reachable_inv [OF assms(1)] assms(2) have nf: "\<not> game_over gm" "\<not> won gm"
    by (auto simp: game_inv_def)
  obtain gm1 where h: "handle_events gm (events fr) = Inr gm1"
    and it: "gm' = draw (if \<not> show_instructions gm1 \<and> \<not> game_over gm1 \<and> \<not> won gm1
                         then play_tick (pressed fr) gm1 else gm1)"
    using assms(4) by (auto simp: game_iteration_def split: sum.splits)
  from handle_events_instructions [OF assms(2) nf assms(3) h] it show ?thesis
    by (simp add: draw_def)
qed

theorem instructions_block_play_witness:
  "reachable (Game G0) \<and> show_instructions (Game G0) \<and>
   game_iteration (Game G0) \<lparr>events = [MouseButtonDown (400, 375)], pressed = no_keys\<rparr> = Inr (Game G0) \<and>
   scoreboard (Game G0) = Scoreboard"
proof -
  have r: "reachable (Game G0)" by (rule reachable.init)
  have s: "show_instructions (Game G0)" using Game_fields [of G0] by simp
  have k: "KeyDown \<notin> set (events \<lparr>events = [MouseButtonDown (400, 375)], pressed = no_keys\<rparr>)" by simp
  have it: "game_iteration (Game G0) \<lparr>events = [MouseButtonDown (400, 375)], pressed = no_keys\<rparr> = Inr (Game G0)"
    using Game_fields [of G0] by (simp add: game_iteration_def draw_def)
  from instructions_block_play [OF r s k it] r s it Game_fields [of G0] show ?thesis by simp
qed

text \<open>
  C16: A quit event that is the last event of a frame ends the loop: the rest of that
  iteration runs, and no later frame is processed.
\<close>

theorem quit_stops_loop:
  assumes "running gm" "events fr = evs @ [Quit]" "game_iteration gm fr = Inr gm'"
  shows "run gm (fr # frs) = Inr gm' \<and> \<not> running gm'"
proof -
  obtain gm1 where h: "handle_events gm (events fr) = Inr gm1"
    and it: "gm' = draw (if \<not> show_instructions gm1 \<and> \<not> game_over gm1 \<and> \<not> won gm1
                         then play_tick (pressed fr) gm1 else gm1)"
    using assms(3) by (auto simp: game_iteration_def split: sum.splits)
  from h assms(2) have "\<not> running gm1"
    by (auto simp: handle_events_append split: sum.splits)
  with it have "\<not> running gm'" using play_tick_fields draw_fields by simp
  with assms(1,3) show ?thesis by (cases frs) simp_all
qed

theorem quit_stops_loop_witness:
  "running (Game G0) \<and>
   game_iteration (Game G0) \<lparr>events = [Quit], pressed = no_keys\<rparr> = Inr ((Game G0)\<lparr>running := False\<rparr>) \<and>
   run (Game G0) [\<lparr>events = [Quit], pressed = no_keys\<rparr>, \<lparr>events = [KeyDown], pressed = no_keys\<rparr>] =
     Inr ((Game G0)\<lparr>running := False\<rparr>)"
proof -
  have r: "running (Game G0)" using Game_fields [of G0] by simp
  have e: "events \<lparr>events = [Quit], pressed = no_keys\<rparr> = [] @ [Quit]" by simp
  have it: "game_iteration (Game G0) \<lparr>events = [Quit], pressed = no_keys\<rparr> = Inr ((Game G0)\<lparr>running := False\<rparr>)"
    using Game_fields [of G0] by (simp add: game_iteration_def draw_def)
  from quit_stops_loop [OF r e it] r it show ?thesis by blast
qed

text \<open>
  C21: The collision step of one \<open>Level.update\<close> costs two lives exactly when an enemy
  touches the player and the player, put back on the spawn point by that hit, then
  touches an obstacle: the obstacle test uses the player the enemy test left.
\<close>

theorem two_lives_one_tick:
  "lives (snd (snd (check_collisions l p sb))) = lives sb - 2 \<longleftrightarrow>
   spritecollideany p (enemies l) \<noteq> None \<and> spritecollideany (player_reset p) (obstacles l) \<noteq> None"
proof -
  obtain l' p' sb' where c: "check_collisions l p sb = (l', p', sb')"
    by (cases "check_collisions l p sb") auto
  from check_collisions_player [OF c] show ?thesis
    by (simp add: c Let_def split: if_splits)
qed

theorem two_lives_one_tick_witness:
  "spritecollideany NEAR_ENEMY (enemies DOUBLE_HIT_LEVEL) \<noteq> None \<and>
   spritecollideany (player_reset NEAR_ENEMY) (obstacles DOUBLE_HIT_LEVEL) \<noteq> None \<and>
   lives (snd (snd (check_collisions DOUBLE_HIT_LEVEL NEAR_ENEMY Scoreboard))) = 1"
proof -
  have h: "spritecollideany NEAR_ENEMY (enemies DOUBLE_HIT_LEVEL) \<noteq> None \<and>
           spritecollideany (player_reset NEAR_ENEMY) (obstacles DOUBLE_HIT_LEVEL) \<noteq> None"
    by (simp add: DOUBLE_HIT_LEVEL_def NEAR_ENEMY_def level_eval_defs)
  with two_lives_one_tick [of DOUBLE_HIT_LEVEL NEAR_ENEMY Scoreboard] show ?thesis
    by (simp add: Scoreboard_def)
qed

section \<open>A reachable game over\<close>

lemma Player_fixed [simp]:
  "update_player Player = Player" "player_reset Player = Player" "handle_keys no_keys Player = Player"
  by (simp_all add: update_player_def player_reset_def Player_def List.map_filter_def handle_keys_def
                    no_keys_def Let_def)

lemma Player_trap_hit: "Obstacle 400 540 \<in> set os \<Longrightarrow> spritecollideany Player os \<noteq> None"
  by (erule hits_obstacle, rule collides_near_spawn) (simp_all add: Player_def)

text \<open>One update of a level whose obstacle covers the spawn point, with the player on it.\<close>

lemma trap_level_update:
  assumes "Obstacle 400 540 \<in> set (obstacles l)" "level_update l Player sb g = (l', p2, sb', g')"
  shows "p2 = Player \<and> Obstacle 400 540 \<in> set (obstacles l') \<and> lives sb' \<le> lives sb - 1 \<and>
         score sb' = score sb"
proof -
  obtain es g1 l2 where c: "check_collisions (l\<lparr>enemies := es\<rparr>) Player sb = (l2, p2, sb')"
    and sp: "spawn_enemies l2 g1 = (l', g')"
    using level_update_stages [OF assms(2)] by (metis Player_fixed(1))
  obtain p1 sb1 pp sb2 bs es' where
    h1: "(if spritecollideany Player (enemies (l\<lparr>enemies := es\<rparr>)) \<noteq> None
          then (player_reset Player, decrease_life sb) else (Player, sb)) = (p1, sb1)"
    and h2: "(if spritecollideany p1 (obstacles (l\<lparr>enemies := es\<rparr>)) \<noteq> None
          then (player_reset p1, decrease_life sb1) else (p1, sb1)) = (pp, sb2)"
    and h3: "check_bullets (bullets pp) (enemies (l\<lparr>enemies := es\<rparr>)) sb2 = (bs, es', sb')"
    and res: "l2 = (l\<lparr>enemies := es\<rparr>)\<lparr>enemies := es'\<rparr>" "p2 = pp\<lparr>bullets := bs\<rparr>"
    by (rule check_collisions_stages [OF c])
  have p1: "p1 = Player" "lives sb1 \<le> lives sb" "score sb1 = score sb"
    using h1 by (auto simp: decrease_life_def split: if_splits)
  with h2 Player_trap_hit [OF assms(1)]
  have pp: "pp = Player" "sb2 = decrease_life sb1" by simp_all
  with h3 have bs: "bs = []" "sb' = sb2" by (simp_all add: Player_def)
  from res(2) pp bs have "p2 = Player" by (simp add: Player_def)
  moreover from p1 pp bs have "lives sb' \<le> lives sb - 1" "score sb' = score sb"
    by (simp_all add: decrease_life_def)
  moreover have "obstacles l' = obstacles l"
    using sp res by (auto simp: spawn_enemies_def split_beta split: if_splits)
  ultimately show ?thesis using assms(1) by simp
qed

text \<open>One loop iteration in the trap costs a life; the game is then over or still trapped.\<close>

lemma trap_tick:
  assumes "trapped gm"
  shows "lives (scoreboard (draw (play_tick no_keys gm))) \<le> lives (scoreboard gm) - 1 \<and>
         (game_over (draw (play_tick no_keys gm)) \<or> trapped (draw (play_tick no_keys gm)))"
proof -
  obtain l' p2 sb' g' where lu: "level_update (levels gm ! 0) Player (scoreboard gm) (rng_state gm) = (l', p2, sb', g')"
    by (cases "level_update (levels gm ! 0) Player (scoreboard gm) (rng_state gm)") auto
  from assms have t: "player gm = Player" "current_level_index gm = 0" "length (levels gm) = 3"
    "Obstacle 400 540 \<in> set (obstacles (levels gm ! 0))" "score (scoreboard gm) = 0"
    "running gm" "\<not> show_instructions gm" "\<not> game_over gm" "\<not> won gm"
    by (simp_all add: trapped_def)
  note u = trap_level_update [OF t(4) lu]
  let ?gm1 = "gm\<lparr>levels := (levels gm)[0 := l'], player := p2, scoreboard := sb', rng_state := g'\<rparr>"
  have pt: "play_tick no_keys gm = (if is_game_over sb' then ?gm1\<lparr>game_over := True\<rparr> else ?gm1)"
    using u t by (simp add: play_tick_def lu Let_def)
  show ?thesis
  proof (cases "is_game_over sb'")
    case True
    with pt u show ?thesis by (simp add: draw_def)
  next
    case False
    with pt u t show ?thesis
      by (simp add: draw_def trapped_def is_game_over_def)
  qed
qed

lemma trap_reaches_game_over:
  assumes "reachable gm" "running gm" "handle_events gm evs = Inr gm1" "trapped gm1"
  shows "\<exists>gm'. reachable gm' \<and> game_over gm'"
  using assms
proof (induction "nat (lives (scoreboard gm1))" arbitrary: gm evs gm1 rule: less_induct)
  case less
  let ?gm' = "draw (play_tick no_keys gm1)"
  have it: "game_iteration gm \<lparr>events = evs, pressed = no_keys\<rparr> = Inr ?gm'"
    using less.prems(3,4) by (simp add: game_iteration_def trapped_def)
  have r: "reachable ?gm'" by (rule reachable.step [OF less.prems(1,2) it])
  note tt = trap_tick [OF less.prems(4)]
  show ?case
  proof (cases "game_over ?gm'")
    case True
    with r show ?thesis by blast
  next
    case False
    with tt have tr: "trapped ?gm'" by simp
    then have "running ?gm'" "0 < lives (scoreboard ?gm')" by (simp_all add: trapped_def)
    with tt have "nat (lives (scoreboard ?gm')) < nat (lives (scoreboard gm1))" by simp
    from less.hyps [OF this r \<open>running ?gm'\<close> _ tr, of "[]"] show ?thesis by simp
  qed
qed

lemma trap_game_over: "\<exists>gm. reachable gm \<and> game_over gm"
proof -
  have g: "handle_events (Game TRAP_RNG) [KeyDown] = Inr ((Game TRAP_RNG)\<lparr>show_instructions := False\<rparr>)"
    using Game_fields [of TRAP_RNG] by simp
  have "trapped ((Game TRAP_RNG)\<lparr>show_instructions := False\<rparr>)"
    using Game_fields [of TRAP_RNG] Game_level_sizes [of TRAP_RNG] Game_TRAP_obstacle
    by (simp add: trapped_def current_level_def Scoreboard_def)
  with trap_reaches_game_over [OF reachable.init _ g] Game_fields [of TRAP_RNG] show ?thesis by simp
qed

text \<open>
  C22: On the game-over or win screen of any reachable state, a quit event followed in
  the same frame by a click on "Play Again" is lost: the click runs \<open>reset_game\<close>,
  which re-runs \<open>__init__\<close> and sets \<open>running\<close> back to True, so the loop goes on
  with a fresh game.
\<close>

theorem quit_cancelled_by_play_again:
  assumes "reachable gm" "game_over gm \<or> won gm"
    and "collidepoint PLAY_AGAIN_RECT pos" "\<not> collidepoint EXIT_RECT pos"
  shows "handle_events gm [Quit, MouseButtonDown pos] = Inr (reset_game (gm\<lparr>running := False\<rparr>)) \<and>
         (\<exists>gm'. game_iteration gm \<lparr>events = [Quit, MouseButtonDown pos], pressed = k\<rparr> = Inr gm' \<and> running gm')"
proof -
  from reachable_inv [OF assms(1)] assms(2)
  have b: "play_again_button gm = Some PLAY_AGAIN_RECT" "exit_button gm = Some EXIT_RECT"
    by (auto simp: game_inv_def buttons_ready_def)
  let ?q = "gm\<lparr>running := False\<rparr>"
  have ev: "handle_events gm [Quit, MouseButtonDown pos] = Inr (reset_game ?q)"
    using b assms(2-4) by (auto simp: reset_game_def)
  have r: "running (reset_game ?q)" "\<not> show_instructions (reset_game ?q)"
    "\<not> game_over (reset_game ?q)" "\<not> won (reset_game ?q)"
    using reset_game_flags [of ?q] by simp_all
  have "running (draw (play_tick k (reset_game ?q)))"
    using r play_tick_fields [of k "reset_game ?q"] draw_fields by simp
  with ev r show ?thesis by (simp add: game_iteration_def)
qed

theorem quit_cancelled_by_play_again_witness:
  "\<exists>gm. reachable gm \<and> game_over gm \<and> collidepoint PLAY_AGAIN_RECT (400, 375) \<and>
        \<not> collidepoint EXIT_RECT (400, 375) \<and>
        (\<exists>gm'. game_iteration gm \<lparr>events = [Quit, MouseButtonDown (400, 375)], pressed = no_keys\<rparr> = Inr gm' \<and>
               running gm')"
proof -
  obtain gm where gm: "reachable gm" "game_over gm" using trap_game_over by blast
  have pa: "collidepoint PLAY_AGAIN_RECT (400, 375)" "\<not> collidepoint EXIT_RECT (400, 375)"
    by (simp_all add: collidepoint_def PLAY_AGAIN_RECT_def EXIT_RECT_def shooter_consts)
  from quit_cancelled_by_play_again [OF gm(1) disjI1 [OF gm(2)] pa, of no_keys] gm pa show ?thesis
    by blast
qed

text \<open>
  C23: Event handling changes the scoreboard only by a full reset: after the events of
  a frame the scoreboard is the old one or a fresh one.
\<close>

theorem handle_events_scoreboard:
  "handle_events gm evs = Inr gm' \<Longrightarrow> scoreboard gm' = scoreboard gm \<or> scoreboard gm' = Scoreboard"
proof (induction evs arbitrary: gm)
  case Nil
  then show ?case by simp
next
  case (Cons ev evs)
  then obtain gm1 where h: "handle_event gm ev = Inr gm1" and t: "handle_events gm1 evs = Inr gm'"
    by (auto split: sum.splits)
  from Cons.IH [OF t] handle_event_scoreboard [OF h] show ?case by auto
qed

theorem handle_events_scoreboard_witness:
  "handle_events (Game G0) [KeyDown, OtherEvent] = Inr ((Game G0)\<lparr>show_instructions := False\<rparr>) \<and>
   scoreboard ((Game G0)\<lparr>show_instructions := False\<rparr>) = scoreboard (Game G0)"
proof -
  have h: "handle_events (Game G0) [KeyDown, OtherEvent] = Inr ((Game G0)\<lparr>show_instructions := False\<rparr>)"
    using Game_fields [of G0] by simp
  from handle_events_scoreboard [OF h] h Game_fields [of G0] show ?thesis by (simp add: Scoreboard_def)
qed

lemma reset_game_buttons [simp]:
  "play_again_button (reset_game gm) = play_again_button gm \<and> exit_button (reset_game gm) = exit_button gm"
  by (simp add: reset_game_def)

text \<open>
  C39: The one exception of the loop, exactly: an event raises \<open>AttributeError\<close>
  precisely when it is a mouse click, the game is over or won, and one of the two
  button attributes has not been created yet (the reset that a click on "play again"
  may run first keeps both attributes). Every other event returns a state.
\<close>

theorem handle_event_raises:
  "handle_event gm ev = Inl AttributeError \<longleftrightarrow>
     (\<exists>pos. ev = MouseButtonDown pos) \<and> (game_over gm \<or> won gm) \<and>
     (play_again_button gm = None \<or> exit_button gm = None)"
  by (cases ev) (auto simp: Let_def split: option.splits)

theorem handle_event_raises_witness:
  "handle_event ((Game G0)\<lparr>show_instructions := False, game_over := True\<rparr>) (MouseButtonDown (400, 375)) =
     Inl AttributeError"
  using handle_event_raises [of "(Game G0)\<lparr>show_instructions := False, game_over := True\<rparr>"
                                "MouseButtonDown (400, 375)"] Game_fields [of G0]
  by simp

text \<open>
  The frame model paints only the first two calls of \<open>Level.draw\<close>. With the third call
  on \<open>all_sprites\<close> it paints the same set of images at the same places, so the frame
  properties above (\<open>reachable_images_fit_rects\<close>, \<open>frame_enemies_in_band\<close>) also
  hold for the whole of \<open>Level.draw\<close>.
\<close>

lemma g_level_draw_same_images:
  "groups_ok gl \<Longrightarrow> set (g_level_draw gl) = set (level_draw (abs_level gl))"
  using g_level_draw_repaints [of gl] by (auto dest: arg_cong [where f = set_mset])

end
